(* ===== verification/Prelude.thy ===== *)
theory Prelude
  imports Main "HOL-Library.Sublist" "HOL-Library.Word"
begin

text \<open>
  Shared vocabulary of the development. Go strings and byte slices are both
  \<^typ>\<open>string\<close>: HOL characters are bytes, so \<open>len\<close> of the source is \<^const>\<open>length\<close>
  here. The theory gives the functions of the packages \<open>strings\<close>, \<open>strconv\<close> and
  \<open>encoding/hex\<close> that the sources call, the 64-bit \<open>int\<close> of Go with its wrap-around,
  and the generic facts about them. The collection \<open>go_strings\<close> holds their
  definitional equations; \<open>go_results\<close> holds the rules about error results.
\<close>

named_theorems go_strings \<open>equations of the string functions of the Go library\<close>
named_theorems go_results \<open>inversion rules for results that carry an error\<close>

section \<open>Machine integers\<close>

text \<open>Go's \<open>int\<close> has 64 bits on every platform the sources are built for; arithmetic on it
  wraps around in two's complement.\<close>

definition wrap64 :: "int \<Rightarrow> int" where
  "wrap64 x = (x + 2 ^ 63) mod 2 ^ 64 - 2 ^ 63"

definition is_int64 :: "int \<Rightarrow> bool" where
  "is_int64 x \<longleftrightarrow> - (2 ^ 63) \<le> x \<and> x < 2 ^ 63"

lemma wrap64_id [simp]: "is_int64 x \<Longrightarrow> wrap64 x = x"
  by (simp add: wrap64_def is_int64_def)

lemma wrap64_int64 [simp, intro]: "is_int64 (wrap64 x)"
proof -
  have "0 \<le> (x + 2 ^ 63) mod 2 ^ 64" and "(x + 2 ^ 63) mod 2 ^ 64 < 2 ^ 64"
    by simp_all
  then show ?thesis
    by (simp add: wrap64_def is_int64_def)
qed

lemma wrap64_overflow: "wrap64 (2 ^ 63 - 1 + 1) = - (2 ^ 63)"
  by (simp add: wrap64_def)

section \<open>Package \<open>strings\<close>\<close>

definition has_prefix :: "string \<Rightarrow> string \<Rightarrow> bool" where
  [go_strings]: "has_prefix s p \<longleftrightarrow> take (length p) s = p"

definition has_suffix :: "string \<Rightarrow> string \<Rightarrow> bool" where
  [go_strings]: "has_suffix s q \<longleftrightarrow> length q \<le> length s \<and> drop (length s - length q) s = q"

definition trim_prefix :: "string \<Rightarrow> string \<Rightarrow> string" where
  [go_strings]: "trim_prefix s p = (if has_prefix s p then drop (length p) s else s)"

definition trim_suffix :: "string \<Rightarrow> string \<Rightarrow> string" where
  [go_strings]: "trim_suffix s q = (if has_suffix s q then take (length s - length q) s else s)"

fun index_of :: "string \<Rightarrow> string \<Rightarrow> nat option" where
  "index_of [] sub = (if sub = [] then Some 0 else None)"
| "index_of (c # s) sub =
     (if has_prefix (c # s) sub then Some 0 else map_option Suc (index_of s sub))"

definition contains :: "string \<Rightarrow> string \<Rightarrow> bool" where
  "contains s sub \<longleftrightarrow> index_of s sub \<noteq> None"

text \<open>\<open>strings.Join\<close>.\<close>

fun join_with :: "string \<Rightarrow> string list \<Rightarrow> string" where
  "join_with sep [] = []"
| "join_with sep [x] = x"
| "join_with sep (x # y # xs) = x @ sep @ join_with sep (y # xs)"

lemma has_prefix_iff: "has_prefix s p \<longleftrightarrow> prefix p s"
  by (metis append_eq_conv_conj append_take_drop_id has_prefix_def prefix_def)

lemma has_prefix_append [simp]: "has_prefix (p @ s) p"
  by (simp add: has_prefix_iff)

lemma has_suffix_iff: "has_suffix s q \<longleftrightarrow> suffix q s"
proof
  assume "has_suffix s q"
  then show "suffix q s"
    by (metis has_suffix_def suffix_drop)
next
  assume "suffix q s"
  then obtain p where "s = p @ q" by (auto simp: suffix_def)
  then show "has_suffix s q" by (simp add: has_suffix_def)
qed

lemma has_suffix_append [simp]: "has_suffix (p @ q) q"
  by (simp add: has_suffix_def)

lemma trim_suffix_append [simp]: "trim_suffix (s @ q) q = s"
  by (simp add: trim_suffix_def)

lemma trim_prefix_append [simp]: "trim_prefix (p @ s) p = s"
  by (simp add: trim_prefix_def)

lemma index_of_Some:
  "index_of s sub = Some i \<Longrightarrow> i + length sub \<le> length s \<and> take (length sub) (drop i s) = sub"
proof (induction s arbitrary: i)
  case (Cons c s)
  show ?case
  proof (cases "has_prefix (c # s) sub")
    case True
    with Cons.prems have "i = 0" by simp
    with True show ?thesis by (metis add_0 drop_0 has_prefix_def has_prefix_iff prefix_length_le)
  next
    case False
    with Cons.prems obtain j where "index_of s sub = Some j" "i = Suc j" by auto
    with Cons.IH [of j] show ?thesis by simp
  qed
qed (simp split: if_splits)

lemma contains_iff_sublist: "contains s sub \<longleftrightarrow> sublist sub s"
proof (induction s)
  case (Cons c s)
  show ?case
    using Cons.IH by (auto simp: contains_def has_prefix_iff sublist_Cons_right)
qed (simp add: contains_def)

lemma contains_infix [simp]: "contains (a @ sub @ b) sub"
  by (auto simp: contains_iff_sublist sublist_def)

lemma contains_set: "contains s sub \<Longrightarrow> set sub \<subseteq> set s"
  using set_mono_sublist contains_iff_sublist by blast

text \<open>A separator that occurs in neither part cuts a text at one place only: keys built by
  joining parts with a separator are injective.\<close>

lemma append_sep_inject:
  "z \<notin> set a \<Longrightarrow> z \<notin> set b \<Longrightarrow> a @ z # x = b @ z # y \<longleftrightarrow> a = b \<and> x = y"
  by (auto simp: append_eq_append_conv2 append_eq_Cons_conv Cons_eq_append_conv)

text \<open>\<open>strings.TrimSpace\<close> removes Unicode white space at both ends. The table lists the white
  space characters in their UTF-8 encoding.\<close>

definition utf8_spaces :: "string list" where
  "utf8_spaces =
     map (map char_of)
       ([[0x09], [0x0a], [0x0b], [0x0c], [0x0d], [0x20],
         [0xc2, 0x85], [0xc2, 0xa0], [0xe1, 0x9a, 0x80]]
        @ map (\<lambda>b. [0xe2, 0x80, b])
            [0x80, 0x81, 0x82, 0x83, 0x84, 0x85, 0x86, 0x87, 0x88, 0x89, 0x8a, 0xa8, 0xa9, 0xaf]
        @ [[0xe2, 0x81, 0x9f], [0xe3, 0x80, 0x80 :: nat]])"

lemma utf8_spaces_nonempty: "w \<in> set utf8_spaces \<Longrightarrow> w \<noteq> []"
  by (auto simp: utf8_spaces_def)

function trim_left :: "string \<Rightarrow> string" where
  "trim_left s =
     (case find (has_prefix s) utf8_spaces of
        None \<Rightarrow> s
      | Some w \<Rightarrow> trim_left (drop (length w) s))"
  by pat_completeness auto
termination
proof (relation "measure length")
  fix s w
  assume "find (has_prefix s) utf8_spaces = Some w"
  then have "w \<in> set utf8_spaces" and "prefix w s"
    by (auto simp: find_Some_iff has_prefix_iff)
  then have "0 < length w" and "length w \<le> length s"
    by (auto dest: utf8_spaces_nonempty prefix_length_le)
  then show "(drop (length w) s, s) \<in> measure length"
    by (simp del: length_greater_0_conv)
qed simp

function trim_right :: "string \<Rightarrow> string" where
  "trim_right s =
     (case find (has_suffix s) utf8_spaces of
        None \<Rightarrow> s
      | Some w \<Rightarrow> trim_right (take (length s - length w) s))"
  by pat_completeness auto
termination
proof (relation "measure length")
  fix s w
  assume "find (has_suffix s) utf8_spaces = Some w"
  then have "w \<in> set utf8_spaces" and "suffix w s"
    by (auto simp: find_Some_iff has_suffix_iff)
  then have "0 < length w" and "length w \<le> length s"
    by (auto dest: utf8_spaces_nonempty suffix_length_le)
  then show "(take (length s - length w) s, s) \<in> measure length"
    by (simp del: length_greater_0_conv)
qed simp

declare trim_left.simps [simp del] trim_right.simps [simp del]

definition trim_space :: "string \<Rightarrow> string" where
  "trim_space s = trim_right (trim_left s)"

lemma trim_space_Nil [simp]: "trim_space [] = []"
proof -
  have "find (has_prefix []) utf8_spaces = None" "find (has_suffix []) utf8_spaces = None"
    by (auto simp: find_None_iff has_prefix_iff has_suffix_iff dest: utf8_spaces_nonempty)
  then show ?thesis
    by (simp add: trim_space_def trim_left.simps [of "[]"] trim_right.simps [of "[]"])
qed

section \<open>Decimal numbers: package \<open>strconv\<close>\<close>

definition digit :: "nat \<Rightarrow> char" where
  "digit n = char_of (48 + n)"

definition is_digit :: "char \<Rightarrow> bool" where
  "is_digit c \<longleftrightarrow> 48 \<le> (of_char c :: nat) \<and> (of_char c :: nat) \<le> 57"

definition digit_val :: "char \<Rightarrow> nat" where
  "digit_val c = of_char c - 48"

fun nat_digits :: "nat \<Rightarrow> string" where
  "nat_digits n = (if n < 10 then [digit n] else nat_digits (n div 10) @ [digit (n mod 10)])"

declare nat_digits.simps [simp del]

definition dec_value :: "string \<Rightarrow> nat" where
  "dec_value s = foldl (\<lambda>a c. 10 * a + digit_val c) 0 s"

definition itoa :: "int \<Rightarrow> string" where
  "itoa i = (if i < 0 then CHR ''-'' # nat_digits (nat (- i)) else nat_digits (nat i))"

lemma digit_val_digit [simp]: "n < 10 \<Longrightarrow> digit_val (digit n) = n"
  by (simp add: digit_def digit_val_def)

lemma is_digit_digit [simp]: "n < 10 \<Longrightarrow> is_digit (digit n)"
  by (simp add: digit_def is_digit_def)

lemma nat_digits_nonempty [simp]: "nat_digits n \<noteq> []"
  by (subst nat_digits.simps) simp

lemma nat_digits_all: "list_all is_digit (nat_digits n)"
proof (induction n rule: nat_digits.induct)
  case (1 n)
  then show ?case by (subst nat_digits.simps) simp
qed

lemma nat_digits_set: "c \<in> set (nat_digits n) \<Longrightarrow> is_digit c"
  using nat_digits_all by (auto simp: list_all_iff)

lemma dec_value_nat_digits [simp]: "dec_value (nat_digits n) = n"
proof (induction n rule: nat_digits.induct)
  case (1 n)
  then show ?case by (subst nat_digits.simps) (simp add: dec_value_def)
qed

lemma nat_digits_inject [simp]: "nat_digits m = nat_digits n \<longleftrightarrow> m = n"
  by (metis dec_value_nat_digits)

lemma is_digit_minus [simp]: "\<not> is_digit (CHR ''-'')"
  by (simp add: is_digit_def)

lemma itoa_inject [simp]: "itoa i = itoa j \<longleftrightarrow> i = j"
proof -
  have "nat_digits n \<noteq> CHR ''-'' # s" for n s
    using nat_digits_all [of n] by (metis is_digit_minus list.pred_inject(2))
  then show ?thesis
    by (auto simp: itoa_def dest: sym)
qed

lemma itoa_set: "c \<in> set (itoa i) \<Longrightarrow> c = CHR ''-'' \<or> is_digit c"
  by (auto simp: itoa_def dest: nat_digits_set split: if_splits)

section \<open>Package \<open>encoding/hex\<close>\<close>

definition hexdig :: "nat \<Rightarrow> char" where
  "hexdig n = char_of (if n < 10 then 48 + n else 87 + n)"

definition hex_val :: "char \<Rightarrow> nat option" where
  "hex_val c =
     (let n = of_char c in
      if 48 \<le> n \<and> n \<le> 57 then Some (n - 48)
      else if 97 \<le> n \<and> n \<le> 102 then Some (n - 87)
      else if 65 \<le> n \<and> n \<le> 70 then Some (n - 55)
      else None)"

text \<open>The lower-case digits that \<open>hex.EncodeToString\<close> writes.\<close>

definition is_hexdig :: "char \<Rightarrow> bool" where
  "is_hexdig c \<longleftrightarrow>
     48 \<le> (of_char c :: nat) \<and> (of_char c :: nat) \<le> 57
     \<or> 97 \<le> (of_char c :: nat) \<and> (of_char c :: nat) \<le> 102"

fun hex_encode :: "string \<Rightarrow> string" where
  "hex_encode [] = []"
| "hex_encode (c # s) = hexdig (of_char c div 16) # hexdig (of_char c mod 16) # hex_encode s"

fun hex_decode :: "string \<Rightarrow> string option" where
  "hex_decode [] = Some []"
| "hex_decode [c] = None"
| "hex_decode (a # b # s) =
     (case (hex_val a, hex_val b, hex_decode s) of
        (Some x, Some y, Some r) \<Rightarrow> Some (char_of (16 * x + y) # r)
      | _ \<Rightarrow> None)"

lemma hex_val_hexdig [simp]: "n < 16 \<Longrightarrow> hex_val (hexdig n) = Some n"
  by (simp add: hex_val_def hexdig_def)

lemma is_hexdig_hexdig [simp]: "n < 16 \<Longrightarrow> is_hexdig (hexdig n)"
  by (simp add: is_hexdig_def hexdig_def)

lemma nibbles [simp]: "(of_char c :: nat) div 16 < 16" "(of_char c :: nat) mod 16 < 16"
  by (simp_all add: less_mult_imp_div_less)

lemma length_hex_encode [simp]: "length (hex_encode s) = 2 * length s"
  by (induction s) simp_all

lemma hex_encode_hexdigs: "list_all is_hexdig (hex_encode s)"
  by (induction s) simp_all

lemma hex_encode_set: "c \<in> set (hex_encode s) \<Longrightarrow> is_hexdig c"
  using hex_encode_hexdigs by (auto simp: list_all_iff)

lemma hex_decode_encode [simp]: "hex_decode (hex_encode s) = Some s"
  by (induction s) simp_all

lemma hex_encode_inject [simp]: "hex_encode s = hex_encode t \<longleftrightarrow> s = t"
  by (metis hex_decode_encode option.inject)

section \<open>Results that carry an error\<close>

text \<open>A Go function returning \<open>(T, error)\<close> is modelled with a sum, \<^const>\<open>Inl\<close> for the
  error. Functions that read or change state take the state and return it:
  \<open>'s \<Rightarrow> ('e + 'a) \<times> 's\<close>. \<open>bindE\<close> runs the second action only when the first one
  returned no error, which is the shape of every \<open>if err != nil { return ... }\<close>.\<close>

type_synonym ('s, 'e, 'a) act = "'s \<Rightarrow> ('e + 'a) \<times> 's"

definition returnE :: "'a \<Rightarrow> ('s, 'e, 'a) act" where
  "returnE x = (\<lambda>s. (Inr x, s))"

definition throwE :: "'e \<Rightarrow> ('s, 'e, 'a) act" where
  "throwE e = (\<lambda>s. (Inl e, s))"

definition liftE :: "'e + 'a \<Rightarrow> ('s, 'e, 'a) act" where
  "liftE r = (\<lambda>s. (r, s))"

definition bindE :: "('s, 'e, 'a) act \<Rightarrow> ('a \<Rightarrow> ('s, 'e, 'b) act) \<Rightarrow> ('s, 'e, 'b) act" where
  "bindE m f = (\<lambda>s. case m s of (Inl e, s') \<Rightarrow> (Inl e, s') | (Inr x, s') \<Rightarrow> f x s')"

text \<open>\<open>mapErr w m\<close> rewraps the error of \<open>m\<close>: \<open>fmt.Errorf("...: %w", err)\<close> at the
  return.\<close>

definition mapErr :: "('e \<Rightarrow> 'e) \<Rightarrow> ('s, 'e, 'a) act \<Rightarrow> ('s, 'e, 'a) act" where
  "mapErr w m = (\<lambda>s. case m s of (Inl e, s') \<Rightarrow> (Inl (w e), s') | (Inr x, s') \<Rightarrow> (Inr x, s'))"

lemma act_simps [simp]:
  "returnE x s = (Inr x, s)"
  "throwE e s = (Inl e, s)"
  "liftE r s = (r, s)"
  by (simp_all add: returnE_def throwE_def liftE_def)

lemma bindE_Inl [simp]: "m s = (Inl e, s') \<Longrightarrow> bindE m f s = (Inl e, s')"
  by (simp add: bindE_def)

lemma bindE_Inr [simp]: "m s = (Inr x, s') \<Longrightarrow> bindE m f s = f x s'"
  by (simp add: bindE_def)

lemma mapErr_Inl [simp]: "m s = (Inl e, s') \<Longrightarrow> mapErr w m s = (Inl (w e), s')"
  by (simp add: mapErr_def)

lemma mapErr_Inr [simp]: "m s = (Inr x, s') \<Longrightarrow> mapErr w m s = (Inr x, s')"
  by (simp add: mapErr_def)

lemma bindE_InrE [go_results]:
  assumes "bindE m f s = (Inr y, s'')"
  obtains x s' where "m s = (Inr x, s')" and "f x s' = (Inr y, s'')"
  using assms by (auto simp: bindE_def split: prod.splits sum.splits)

lemma bindE_InlE [go_results]:
  assumes "bindE m f s = (Inl e, s'')"
  obtains "m s = (Inl e, s'')" | x s' where "m s = (Inr x, s')" and "f x s' = (Inl e, s'')"
  using assms by (auto simp: bindE_def split: prod.splits sum.splits)

lemma mapErr_InrD [go_results]: "mapErr w m s = (Inr x, s') \<Longrightarrow> m s = (Inr x, s')"
  by (auto simp: mapErr_def split: prod.splits sum.splits)

lemma mapErr_InlE [go_results]:
  assumes "mapErr w m s = (Inl e, s')"
  obtains e0 where "m s = (Inl e0, s')" and "e = w e0"
  using assms by (auto simp: mapErr_def split: prod.splits sum.splits)

end
