(* ===== verification/Go_Errors.thy ===== *)
theory Go_Errors
  imports Prelude
begin

text \<open>
  Error values. A Go error is a value with a message and, optionally, an error it wraps;
  \<open>errors.Is\<close> and \<open>errors.As\<close> look for a value or a type along the chain of wrapped
  errors. The datatype lists the error types the sources create or test for: package-level
  sentinels, plain errors, \<open>fmt.Errorf\<close> with \<open>%w\<close>, \<open>errors.Join\<close>, the struct types
  \<open>authError\<close>, \<open>validationError\<close>, \<open>PartialFailureError\<close> and \<open>LedgerError\<close>, and the two
  error types of the Fabric gateway client the retry loop recognises.
\<close>

datatype goerr =
    Sentinel string
  | Plain string
  | Wrapf string goerr string
  | Joined "goerr list"
  | AuthError goerr
  | ValidationError goerr
  | PartialFailureError string string int goerr
  | LedgerError goerr
  | CommitError int string
  | EndorseError string

type_synonym 'a res = "goerr + 'a"

text \<open>\<open>context.DeadlineExceeded\<close>.\<close>

definition DeadlineExceeded :: goerr where
  "DeadlineExceeded = Sentinel ''context deadline exceeded''"

text \<open>\<open>fmt.Errorf("<msg>: %w", err)\<close>.\<close>

definition wrap :: "string \<Rightarrow> goerr \<Rightarrow> goerr" where
  "wrap msg e = Wrapf (msg @ '': '') e []"

text \<open>The method \<open>Error()\<close>.\<close>

fun error_text :: "goerr \<Rightarrow> string" where
  "error_text (Sentinel m) = m"
| "error_text (Plain m) = m"
| "error_text (Wrapf a e b) = a @ error_text e @ b"
| "error_text (Joined es) = join_with [CHR 0x0A] (map error_text es)"
| "error_text (AuthError e) = error_text e"
| "error_text (ValidationError e) = error_text e"
| "error_text (PartialFailureError i p v e) =
     ''writepaths: partial failure: operational-DB write committed (employeeInternalID='' @ i
       @ '', profileSection='' @ p @ '', version='' @ itoa v
       @ '') but its blockchain anchor did not: '' @ error_text e"
| "error_text (LedgerError e) = ''gatewayclient: ledger error: '' @ error_text e"
| "error_text (CommitError c m) = m"
| "error_text (EndorseError m) = m"

text \<open>The chain that \<open>errors.Is\<close> and \<open>errors.As\<close> walk, in their order.\<close>

fun err_chain :: "goerr \<Rightarrow> goerr list" where
  "err_chain (Wrapf a e b) = Wrapf a e b # err_chain e"
| "err_chain (Joined es) = Joined es # concat (map err_chain es)"
| "err_chain (AuthError e) = AuthError e # err_chain e"
| "err_chain (ValidationError e) = ValidationError e # err_chain e"
| "err_chain (PartialFailureError i p v e) = PartialFailureError i p v e # err_chain e"
| "err_chain (LedgerError e) = LedgerError e # err_chain e"
| "err_chain e = [e]"

definition errors_is :: "goerr \<Rightarrow> goerr \<Rightarrow> bool" where
  "errors_is e t \<longleftrightarrow> t \<in> set (err_chain e)"

fun is_auth_error :: "goerr \<Rightarrow> bool" where
  "is_auth_error (AuthError e) = True"
| "is_auth_error _ = False"

fun is_validation_error :: "goerr \<Rightarrow> bool" where
  "is_validation_error (ValidationError e) = True"
| "is_validation_error _ = False"

fun is_partial_failure :: "goerr \<Rightarrow> bool" where
  "is_partial_failure (PartialFailureError i p v e) = True"
| "is_partial_failure _ = False"

definition errors_as :: "(goerr \<Rightarrow> bool) \<Rightarrow> goerr \<Rightarrow> bool" where
  "errors_as P e \<longleftrightarrow> list_ex P (err_chain e)"

lemma err_chain_self: "e \<in> set (err_chain e)"
  by (cases e) simp_all

lemma errors_is_refl [simp]: "errors_is e e"
  by (simp add: errors_is_def err_chain_self)

lemma errors_is_Wrapf [simp]: "errors_is (Wrapf a e b) t \<longleftrightarrow> t = Wrapf a e b \<or> errors_is e t"
  by (auto simp: errors_is_def)

lemma errors_is_wrap [simp]: "errors_is e t \<Longrightarrow> errors_is (wrap m e) t"
  by (simp add: wrap_def)

lemma errors_as_Wrapf [simp]: "errors_as P (Wrapf a e b) \<longleftrightarrow> P (Wrapf a e b) \<or> errors_as P e"
  by (simp add: errors_as_def)

lemma error_text_wrap [simp]: "error_text (wrap m e) = m @ '': '' @ error_text e"
  by (simp add: wrap_def)

text \<open>Wrapping keeps the message of the wrapped error as part of the new message: this is
  what the gateway client's message tests rely on.\<close>

lemma contains_Wrapf: "contains (error_text e) m \<Longrightarrow> contains (error_text (Wrapf a e b)) m"
  by (simp add: contains_iff_sublist) (meson sublist_appendI sublist_order.order_trans)

end
