(* ===== verification/Keystore.thy ===== *)
theory Keystore
  imports Go_Errors
begin

text \<open>
  Key and salt custody (keystore/keystore.go): the three store interfaces and their
  in-memory implementations. A Go interface is a record of actions over a state \<open>'s\<close>; the
  contracts its users rely on are the locales \<open>salt_store\<close> and \<open>key_store\<close>, interpreted here on
  the in-memory stores and in theory Filestore on the encrypted files. \<open>crypto/rand\<close> is a
  source of byte strings that is part of the state: the \<open>i\<close>-th read of \<open>n\<close> bytes returns
  \<open>source i n\<close>. The mutexes make each operation atomic, so an operation is one action.
\<close>

definition MinSaltBytes :: nat where
  "MinSaltBytes = 16"

definition MinKeyBytes :: nat where
  "MinKeyBytes = 16"

section \<open>Randomness\<close>

record entropy =
  source :: "nat \<Rightarrow> nat \<Rightarrow> string res"
  draws :: nat

definition rand_read :: "nat \<Rightarrow> (entropy, goerr, string) act" where
  "rand_read n e = (source e (draws e) n, e\<lparr>draws := draws e + 1\<rparr>)"

definition wf_entropy :: "entropy \<Rightarrow> bool" where
  "wf_entropy e \<longleftrightarrow> (\<forall>i n b. source e i n = Inr b \<longrightarrow> length b = n)"

lemma rand_read_wf [simp]: "wf_entropy (snd (rand_read n e)) \<longleftrightarrow> wf_entropy e"
  by (simp add: rand_read_def wf_entropy_def)

lemma rand_read_length: "rand_read n e = (Inr b, e') \<Longrightarrow> wf_entropy e \<Longrightarrow> length b = n \<and> wf_entropy e'"
  by (auto simp: rand_read_def wf_entropy_def)

lemma rand_read_wf': "rand_read n e = (r, e') \<Longrightarrow> wf_entropy e \<Longrightarrow> wf_entropy e'"
  by (auto simp: rand_read_def wf_entropy_def)

section \<open>The interfaces\<close>

type_synonym recordKey = "string \<times> string \<times> int"

record 's SaltStore =
  PutSalt :: "string \<Rightarrow> string \<Rightarrow> int \<Rightarrow> ('s, goerr, string) act"
  GetSalt :: "string \<Rightarrow> string \<Rightarrow> int \<Rightarrow> ('s, goerr, string) act"
  DeleteAllSaltsForEmployee :: "string \<Rightarrow> ('s, goerr, unit) act"

record 's DocumentKeyStore =
  GetOrCreateDocumentKey :: "string \<Rightarrow> ('s, goerr, string) act"
  DeleteDocumentKey :: "string \<Rightarrow> ('s, goerr, unit) act"

record 's EmployeeKeyStore =
  GetOrCreateEmployeeKey :: "string \<Rightarrow> ('s, goerr, string) act"
  DeleteEmployeeKey :: "string \<Rightarrow> ('s, goerr, unit) act"

definition salt_exists_error :: "string \<Rightarrow> string \<Rightarrow> int \<Rightarrow> goerr" where
  "salt_exists_error employeeID profileSection version =
     Plain (''keystore: salt already exists for '' @ employeeID @ ''/'' @ profileSection @ '' v''
            @ itoa version @ '' '' @ map char_of [0xE2, 0x80, 0x94 :: nat]
            @ '' a record's salt is generated once, not rotated in place'')"

definition no_salt_error :: "string \<Rightarrow> string \<Rightarrow> int \<Rightarrow> goerr" where
  "no_salt_error employeeID profileSection version =
     Plain (''keystore: no salt stored for '' @ employeeID @ ''/'' @ profileSection @ '' v''
            @ itoa version)"

text \<open>What a store of employee or document keys promises: a key once returned stays until it
  is deleted, an error leaves the stored keys alone, and keys of other employees are never
  touched. \<open>view\<close> is the abstract content.\<close>

locale key_store =
  fixes get_or_create :: "string \<Rightarrow> ('s, goerr, string) act"
    and delete_key :: "string \<Rightarrow> ('s, goerr, unit) act"
    and view :: "'s \<Rightarrow> string \<rightharpoonup> string"
    and inv :: "'s \<Rightarrow> bool"
  assumes get_ok:
      "inv s \<Longrightarrow> get_or_create k s = (Inr v, s') \<Longrightarrow>
       inv s' \<and> view s' = (view s)(k \<mapsto> v) \<and> (view s k = None \<or> view s k = Some v)
       \<and> (view s k = None \<longrightarrow> length v = MinKeyBytes)"
    and get_err: "inv s \<Longrightarrow> get_or_create k s = (Inl e, s') \<Longrightarrow> inv s' \<and> view s' = view s"
    and delete_ok: "inv s \<Longrightarrow> delete_key k s = (Inr u, s') \<Longrightarrow> inv s' \<and> view s' = (view s)(k := None)"
    and delete_err: "inv s \<Longrightarrow> delete_key k s = (Inl e, s') \<Longrightarrow> inv s' \<and> view s' = view s"
begin

lemma get_inv: "inv s \<Longrightarrow> get_or_create k s = (r, s') \<Longrightarrow> inv s'"
  using get_ok get_err by (cases r) blast+

lemma delete_inv: "inv s \<Longrightarrow> delete_key k s = (r, s') \<Longrightarrow> inv s'"
  using delete_ok delete_err by (cases r) blast+

lemma get_frame: "inv s \<Longrightarrow> get_or_create k s = (r, s') \<Longrightarrow> k' \<noteq> k \<Longrightarrow> view s' k' = view s k'"
  using get_ok [of s k _ s'] get_err [of s k _ s'] by (cases r) auto

lemma get_keeps: "inv s \<Longrightarrow> get_or_create k s = (r, s') \<Longrightarrow> view s k' = Some v \<Longrightarrow> view s' k' = Some v"
  using get_ok [of s k _ s'] get_err [of s k _ s'] by (cases r) (force split: if_splits)+

lemma delete_frame: "inv s \<Longrightarrow> delete_key k s = (r, s') \<Longrightarrow> k' \<noteq> k \<Longrightarrow> view s' k' = view s k'"
  using delete_ok [of s k _ s'] delete_err [of s k _ s'] by (cases r) auto

text \<open>The key of an employee is stable: a second request that succeeds returns the first key.\<close>

lemma get_stable:
  assumes "inv s" and "get_or_create k s = (Inr v, s1)" and "get_or_create k s1 = (Inr w, s2)"
  shows "w = v"
  using get_ok [OF assms(1,2)] get_ok [of s1 k w s2] assms(3) by auto

end

text \<open>What a salt store promises, for identifiers that satisfy \<open>okid\<close>: a salt is written
  once per record, reading returns it, deletion removes exactly the salts of one employee.\<close>

text \<open>The states that calls of a salt store lead to, in any order, whether they succeed or fail,
  except that the salts of employee \<open>e\<close> are not deleted.\<close>

inductive salt_run ::
  "(string \<Rightarrow> string \<Rightarrow> int \<Rightarrow> ('s, goerr, string) act) \<Rightarrow> (string \<Rightarrow> string \<Rightarrow> int \<Rightarrow> ('s, goerr, string) act)
   \<Rightarrow> (string \<Rightarrow> ('s, goerr, unit) act) \<Rightarrow> (string \<Rightarrow> bool) \<Rightarrow> string \<Rightarrow> 's \<Rightarrow> 's \<Rightarrow> bool"
  for put get delete_all okid e s where
  run_start: "salt_run put get delete_all okid e s s"
| run_put:
    "salt_run put get delete_all okid e s s1 \<Longrightarrow> okid e' \<Longrightarrow> okid p \<Longrightarrow> put e' p v s1 = (r, s2) \<Longrightarrow>
     salt_run put get delete_all okid e s s2"
| run_get:
    "salt_run put get delete_all okid e s s1 \<Longrightarrow> get e' p v s1 = (r, s2) \<Longrightarrow>
     salt_run put get delete_all okid e s s2"
| run_delete:
    "salt_run put get delete_all okid e s s1 \<Longrightarrow> okid e' \<Longrightarrow> e' \<noteq> e \<Longrightarrow> delete_all e' s1 = (u, s2) \<Longrightarrow>
     salt_run put get delete_all okid e s s2"

locale salt_store =
  fixes put :: "string \<Rightarrow> string \<Rightarrow> int \<Rightarrow> ('s, goerr, string) act"
    and get :: "string \<Rightarrow> string \<Rightarrow> int \<Rightarrow> ('s, goerr, string) act"
    and delete_all :: "string \<Rightarrow> ('s, goerr, unit) act"
    and salts_of :: "'s \<Rightarrow> recordKey \<rightharpoonup> string"
    and inv :: "'s \<Rightarrow> bool"
    and okid :: "string \<Rightarrow> bool"
  assumes put_ok:
      "inv s \<Longrightarrow> okid e \<Longrightarrow> okid p \<Longrightarrow> put e p v s = (Inr x, s') \<Longrightarrow>
       inv s' \<and> length x = MinSaltBytes \<and> salts_of s (e, p, v) = None
       \<and> (\<forall>e' p' v'. okid e' \<and> okid p' \<longrightarrow>
            salts_of s' (e', p', v') = (if (e', p', v') = (e, p, v) then Some x else salts_of s (e', p', v')))"
    and put_err: "inv s \<Longrightarrow> put e p v s = (Inl err, s') \<Longrightarrow> inv s' \<and> salts_of s' = salts_of s"
    and put_exists: "inv s \<Longrightarrow> salts_of s (e, p, v) = Some x \<Longrightarrow> \<exists>err s'. put e p v s = (Inl err, s')"
    and get_ok: "inv s \<Longrightarrow> get e p v s = (Inr x, s') \<Longrightarrow>
       inv s' \<and> salts_of s' = salts_of s \<and> salts_of s (e, p, v) = Some x"
    and get_err: "inv s \<Longrightarrow> get e p v s = (Inl err, s') \<Longrightarrow> inv s' \<and> salts_of s' = salts_of s"
    and delete_all_ok:
      "inv s \<Longrightarrow> okid e \<Longrightarrow> delete_all e s = (Inr u, s') \<Longrightarrow>
       inv s' \<and> (\<forall>e' p' v'. okid e' \<and> okid p' \<longrightarrow>
         salts_of s' (e', p', v') = (if e' = e then None else salts_of s (e', p', v')))"
    and delete_all_err:
      "inv s \<Longrightarrow> delete_all e s = (Inl err, s') \<Longrightarrow> inv s' \<and> salts_of s' = salts_of s"
begin

text \<open>A salt is never replaced: storing another one for the same record fails.\<close>

lemma put_once:
  assumes "inv s" "okid e" "okid p" and "put e p v s = (Inr x, s1)"
  shows "\<exists>err s2. put e p v s1 = (Inl err, s2)"
  using put_ok [OF assms] assms(2,3) put_exists by auto

lemma put_get:
  assumes "inv s" "okid e" "okid p" and "put e p v s = (Inr x, s1)" and "get e p v s1 = (Inr y, s2)"
  shows "y = x"
  using put_ok [OF assms(1-4)] assms(2,3) get_ok [of s1 e p v y s2] assms(5) by auto

text \<open>A stored salt stays until the salts of its employee are deleted.\<close>

lemma put_keeps:
  assumes "inv s" "okid e" "okid p" "salts_of s (e, p, v) = Some x" and "okid e'" "okid p'" "put e' p' v' s = (r, s')"
  shows "inv s' \<and> salts_of s' (e, p, v) = Some x"
proof (cases r)
  case (Inl err)
  with put_err [of s e' p' v' err s'] assms show ?thesis by simp
next
  case (Inr y)
  with put_ok [of s e' p' v' y s'] assms show ?thesis by auto
qed

lemma get_keeps:
  assumes "inv s" "salts_of s k = Some x" and "get e' p' v' s = (r, s')"
  shows "inv s' \<and> salts_of s' k = Some x"
  using get_ok [of s e' p' v' _ s'] get_err [of s e' p' v' _ s'] assms by (cases r) auto

lemma delete_keeps:
  assumes "inv s" "okid e" "okid p" "salts_of s (e, p, v) = Some x" and "okid e'" "e' \<noteq> e" "delete_all e' s = (u, s')"
  shows "inv s' \<and> salts_of s' (e, p, v) = Some x"
  using delete_all_ok [of s e' _ s'] delete_all_err [of s e' _ s'] assms by (cases u) auto

lemma run_keeps:
  assumes "salt_run put get delete_all okid e s s'" and "inv s" "okid e" "okid p" "salts_of s (e, p, v) = Some x"
  shows "inv s' \<and> salts_of s' (e, p, v) = Some x"
  using assms(1)
proof (induction rule: salt_run.induct)
  case run_start
  with assms(2,5) show ?case by simp
next
  case (run_put s1 e' p' v' r s2)
  then show ?case using put_keeps [of s1 e p v x e' p' v' r s2] assms(3,4) by blast
next
  case (run_get s1 e' p' v' r s2)
  then show ?case using get_keeps [of s1 "(e, p, v)" x e' p' v' r s2] by blast
next
  case (run_delete s1 e' u s2)
  then show ?case using delete_keeps [of s1 e p v x e' u s2] assms(3,4) by blast
qed

lemma get_after_delete:
  assumes "inv s" "okid e" "okid p" and "delete_all e s = (Inr u, s1)"
  shows "\<nexists>x s2. get e p v s1 = (Inr x, s2)"
  using delete_all_ok [OF assms(1,2,4)] assms(2,3) get_ok [of s1 e p v] by auto

end

section \<open>In-memory salts\<close>

text \<open>A constructor gives the operations; the state of a new store is the empty map.\<close>

type_synonym mem_salts = "(recordKey \<rightharpoonup> string) \<times> entropy"

definition InMemorySaltStore_PutSalt :: "string \<Rightarrow> string \<Rightarrow> int \<Rightarrow> (mem_salts, goerr, string) act" where
  "InMemorySaltStore_PutSalt employeeID profileSection version =
     (\<lambda>(salts, ent).
        if salts (employeeID, profileSection, version) \<noteq> None
        then (Inl (salt_exists_error employeeID profileSection version), (salts, ent))
        else case rand_read MinSaltBytes ent of
               (Inl err, ent') \<Rightarrow> (Inl (wrap ''keystore: generating salt'' err), (salts, ent'))
             | (Inr salt, ent') \<Rightarrow>
                 (Inr salt, (salts((employeeID, profileSection, version) \<mapsto> salt), ent')))"

definition InMemorySaltStore_GetSalt :: "string \<Rightarrow> string \<Rightarrow> int \<Rightarrow> (mem_salts, goerr, string) act" where
  "InMemorySaltStore_GetSalt employeeID profileSection version =
     (\<lambda>(salts, ent).
        case salts (employeeID, profileSection, version) of
          None \<Rightarrow> (Inl (no_salt_error employeeID profileSection version), (salts, ent))
        | Some salt \<Rightarrow> (Inr salt, (salts, ent)))"

definition InMemorySaltStore_DeleteAllSaltsForEmployee :: "string \<Rightarrow> (mem_salts, goerr, unit) act" where
  "InMemorySaltStore_DeleteAllSaltsForEmployee employeeID =
     (\<lambda>(salts, ent). (Inr (), ((\<lambda>k. if fst k = employeeID then None else salts k), ent)))"

definition NewInMemorySaltStore :: "mem_salts SaltStore" where
  "NewInMemorySaltStore =
     \<lparr>PutSalt = InMemorySaltStore_PutSalt, GetSalt = InMemorySaltStore_GetSalt,
      DeleteAllSaltsForEmployee = InMemorySaltStore_DeleteAllSaltsForEmployee\<rparr>"

section \<open>In-memory keys\<close>

type_synonym mem_keys = "(string \<rightharpoonup> string) \<times> entropy"

definition InMemoryDocumentKeyStore_GetOrCreateDocumentKey :: "string \<Rightarrow> (mem_keys, goerr, string) act" where
  "InMemoryDocumentKeyStore_GetOrCreateDocumentKey employeeInternalID =
     (\<lambda>(keys, ent).
        case keys employeeInternalID of
          Some key \<Rightarrow> (Inr key, (keys, ent))
        | None \<Rightarrow>
            (case rand_read MinKeyBytes ent of
               (Inl err, ent') \<Rightarrow> (Inl (wrap ''keystore: generating KEY_EMPLOYEE'' err), (keys, ent'))
             | (Inr key, ent') \<Rightarrow> (Inr key, (keys(employeeInternalID \<mapsto> key), ent'))))"

definition InMemoryDocumentKeyStore_DeleteDocumentKey :: "string \<Rightarrow> (mem_keys, goerr, unit) act" where
  "InMemoryDocumentKeyStore_DeleteDocumentKey employeeInternalID =
     (\<lambda>(keys, ent). (Inr (), (keys(employeeInternalID := None), ent)))"

definition InMemoryEmployeeKeyStore_GetOrCreateEmployeeKey :: "string \<Rightarrow> (mem_keys, goerr, string) act" where
  "InMemoryEmployeeKeyStore_GetOrCreateEmployeeKey employeeInternalID =
     (\<lambda>(keys, ent).
        case keys employeeInternalID of
          Some key \<Rightarrow> (Inr key, (keys, ent))
        | None \<Rightarrow>
            (case rand_read MinKeyBytes ent of
               (Inl err, ent') \<Rightarrow> (Inl (wrap ''keystore: generating employeeKey_i'' err), (keys, ent'))
             | (Inr key, ent') \<Rightarrow> (Inr key, (keys(employeeInternalID \<mapsto> key), ent'))))"

definition InMemoryEmployeeKeyStore_DeleteEmployeeKey :: "string \<Rightarrow> (mem_keys, goerr, unit) act" where
  "InMemoryEmployeeKeyStore_DeleteEmployeeKey employeeInternalID =
     (\<lambda>(keys, ent). (Inr (), (keys(employeeInternalID := None), ent)))"

definition NewInMemoryDocumentKeyStore :: "mem_keys DocumentKeyStore" where
  "NewInMemoryDocumentKeyStore =
     \<lparr>GetOrCreateDocumentKey = InMemoryDocumentKeyStore_GetOrCreateDocumentKey,
      DeleteDocumentKey = InMemoryDocumentKeyStore_DeleteDocumentKey\<rparr>"

definition NewInMemoryEmployeeKeyStore :: "mem_keys EmployeeKeyStore" where
  "NewInMemoryEmployeeKeyStore =
     \<lparr>GetOrCreateEmployeeKey = InMemoryEmployeeKeyStore_GetOrCreateEmployeeKey,
      DeleteEmployeeKey = InMemoryEmployeeKeyStore_DeleteEmployeeKey\<rparr>"

section \<open>The in-memory stores keep their contracts\<close>

lemmas mem_defs =
  InMemorySaltStore_PutSalt_def InMemorySaltStore_GetSalt_def
  InMemorySaltStore_DeleteAllSaltsForEmployee_def
  InMemoryDocumentKeyStore_GetOrCreateDocumentKey_def InMemoryDocumentKeyStore_DeleteDocumentKey_def
  InMemoryEmployeeKeyStore_GetOrCreateEmployeeKey_def InMemoryEmployeeKeyStore_DeleteEmployeeKey_def

interpretation mem_salt: salt_store InMemorySaltStore_PutSalt InMemorySaltStore_GetSalt
  InMemorySaltStore_DeleteAllSaltsForEmployee fst "\<lambda>s. wf_entropy (snd s)" "\<lambda>_. True"
  by unfold_locales
    (auto simp: mem_defs rand_read_length rand_read_wf' split: prod.splits sum.splits option.splits if_splits
      dest: rand_read_length rand_read_wf')

interpretation mem_doc: key_store InMemoryDocumentKeyStore_GetOrCreateDocumentKey
  InMemoryDocumentKeyStore_DeleteDocumentKey fst "\<lambda>s. wf_entropy (snd s)"
  by unfold_locales
    (auto simp: mem_defs split: prod.splits sum.splits option.splits
      dest: rand_read_length rand_read_wf')

interpretation mem_emp: key_store InMemoryEmployeeKeyStore_GetOrCreateEmployeeKey
  InMemoryEmployeeKeyStore_DeleteEmployeeKey fst "\<lambda>s. wf_entropy (snd s)"
  by unfold_locales
    (auto simp: mem_defs split: prod.splits sum.splits option.splits
      dest: rand_read_length rand_read_wf')

end
