(* ===== verification/Handoff.thy ===== *)
theory Handoff
  imports Keystore
begin

text \<open>
  The audited release of a salt (keystore/handoff.go): the policy check, the salt read and
  the audit record. The policy and the audit sink are supplied by the caller, so both are
  arguments: an action that decides, and an action that records an entry. The in-memory audit
  log of the package is one such sink. The error of the sink is dropped, as in the source, so
  the property speaks of the calls that are made (\<open>watched\<close>) and not of what the sink keeps.
\<close>

definition ErrSaltAccessDenied :: goerr where
  "ErrSaltAccessDenied = Sentinel ''keystore: salt access denied''"

record AuditEntry =
  RequesterID :: string
  Audit_EmployeeID :: string
  Audit_ProfileSection :: string
  Audit_Version :: int
  Granted :: bool
  Reason :: string

record 's SaltHandoff =
  Handoff_Salts :: "'s SaltStore"
  Authorize :: "string \<Rightarrow> string \<Rightarrow> string \<Rightarrow> int \<Rightarrow> ('s, goerr, bool) act"
  Audit_Record :: "AuditEntry \<Rightarrow> ('s, goerr, unit) act"

text \<open>The error of the sink is dropped.\<close>

definition audit :: "'s SaltHandoff \<Rightarrow> string \<Rightarrow> string \<Rightarrow> string \<Rightarrow> int \<Rightarrow> bool \<Rightarrow> string \<Rightarrow> 's \<Rightarrow> 's" where
  "audit h requesterID employeeID profileSection version granted reason s =
     snd (Audit_Record h \<lparr>RequesterID = requesterID, Audit_EmployeeID = employeeID,
            Audit_ProfileSection = profileSection, Audit_Version = version, Granted = granted,
            Reason = reason\<rparr> s)"

definition denial_reason :: string where
  "denial_reason = ''requester is not the record's employee and not an in-scope auditor''"

definition RequestSalt :: "'s SaltHandoff \<Rightarrow> string \<Rightarrow> string \<Rightarrow> string \<Rightarrow> int \<Rightarrow> ('s, goerr, string) act" where
  "RequestSalt h requesterID employeeID profileSection version s =
     (case Authorize h requesterID employeeID profileSection version s of
        (Inl err, s1) \<Rightarrow>
          (Inl (wrap ''keystore: salt access authorization check failed, failing closed'' err),
           audit h requesterID employeeID profileSection version False (error_text err) s1)
      | (Inr ok, s1) \<Rightarrow>
          if \<not> ok then
            (Inl ErrSaltAccessDenied,
             audit h requesterID employeeID profileSection version False denial_reason s1)
          else
            (case GetSalt (Handoff_Salts h) employeeID profileSection version s1 of
               (Inl err, s2) \<Rightarrow> (Inl err, s2)
             | (Inr salt, s2) \<Rightarrow>
                 (Inr salt, audit h requesterID employeeID profileSection version True [] s2)))"

text \<open>The in-memory audit log; its state is the list of entries.\<close>

definition NewInMemoryAuditLog :: "AuditEntry list" where
  "NewInMemoryAuditLog = []"

definition InMemoryAuditLog_Record :: "AuditEntry \<Rightarrow> (AuditEntry list, goerr, unit) act" where
  "InMemoryAuditLog_Record entry entries = (Inr (), entries @ [entry])"

definition InMemoryAuditLog_Entries :: "AuditEntry list \<Rightarrow> AuditEntry list" where
  "InMemoryAuditLog_Entries entries = entries"

section \<open>Observing a hand-off\<close>

text \<open>The calls a request makes to the policy, the salt store and the audit sink, with their
  answers, and a hand-off that writes them down.\<close>

datatype handoff_call =
    Asked string string string int "bool res"
  | Fetched string string int "string res"
  | Recorded AuditEntry "unit res"

definition noting :: "('a res \<Rightarrow> handoff_call) \<Rightarrow> ('s, goerr, 'a) act \<Rightarrow> ('s \<times> handoff_call list, goerr, 'a) act" where
  "noting call m = (\<lambda>(s, calls). case m s of (r, s') \<Rightarrow> (r, (s', calls @ [call r])))"

definition watched :: "'s SaltHandoff \<Rightarrow> ('s \<times> handoff_call list) SaltHandoff" where
  "watched h =
     \<lparr>Handoff_Salts =
        \<lparr>PutSalt = (\<lambda>e p v (s, calls). apsnd (\<lambda>s'. (s', calls)) (PutSalt (Handoff_Salts h) e p v s)),
         GetSalt = (\<lambda>e p v. noting (Fetched e p v) (GetSalt (Handoff_Salts h) e p v)),
         DeleteAllSaltsForEmployee =
           (\<lambda>e (s, calls). apsnd (\<lambda>s'. (s', calls)) (DeleteAllSaltsForEmployee (Handoff_Salts h) e s))\<rparr>,
      Authorize = (\<lambda>r e p v. noting (Asked r e p v) (Authorize h r e p v)),
      Audit_Record = (\<lambda>x. noting (Recorded x) (Audit_Record h x))\<rparr>"

text \<open>The entry of a decision.\<close>

definition decision_entry :: "string \<Rightarrow> string \<Rightarrow> string \<Rightarrow> int \<Rightarrow> bool \<Rightarrow> string \<Rightarrow> AuditEntry" where
  "decision_entry req e p v granted reason =
     \<lparr>RequesterID = req, Audit_EmployeeID = e, Audit_ProfileSection = p, Audit_Version = v,
      Granted = granted, Reason = reason\<rparr>"

section \<open>Properties\<close>

text \<open>C27: A salt is released only on an explicit grant, and every decision is offered to the audit
  sink exactly once. For any policy, salt store and sink, a request asks the policy first. A
  policy that fails or refuses gives an error without the salt store being asked, and one
  denial entry, with the policy's error or the fixed text as its reason, is offered to the sink.
  After a grant the store is asked for exactly this salt: an error of the store is returned and
  nothing is offered to the sink; a salt is returned as the store gave it, after one grant entry
  was offered. What the sink answers (\<open>q\<close>) plays no part in the result, so a salt is released even
  when its record could not be written. Observing the calls does not change the request.\<close>

theorem salt_release_is_authorized_and_audited:
  assumes "RequestSalt (watched h) req e p v (s, []) = (r, (s', calls))"
  shows "RequestSalt h req e p v s = (r, s')
    \<and> (\<exists>answer. case answer of
         Inl err \<Rightarrow> (\<exists>q. calls = [Asked req e p v answer,
                            Recorded (decision_entry req e p v False (error_text err)) q])
             \<and> r = Inl (wrap ''keystore: salt access authorization check failed, failing closed'' err)
       | Inr False \<Rightarrow> (\<exists>q. calls = [Asked req e p v answer,
                            Recorded (decision_entry req e p v False denial_reason) q])
             \<and> r = Inl ErrSaltAccessDenied
       | Inr True \<Rightarrow>
           (case r of
              Inl err \<Rightarrow> calls = [Asked req e p v answer, Fetched e p v (Inl err)]
            | Inr salt \<Rightarrow> (\<exists>q. calls = [Asked req e p v answer, Fetched e p v (Inr salt),
                                    Recorded (decision_entry req e p v True []) q])))"
proof -
  obtain answer s1 where ask: "Authorize h req e p v s = (answer, s1)" by (rule prod.exhaust)
  obtain g s2 where get: "GetSalt (Handoff_Salts h) e p v s1 = (g, s2)" by (rule prod.exhaust)
  note run = assms ask get
  show ?thesis
    by (rule conjI [OF _ exI [of _ answer]])
      (use run in \<open>auto simp: RequestSalt_def watched_def noting_def audit_def decision_entry_def
        split: sum.splits bool.splits if_splits prod.splits\<close>)
qed

text \<open>A policy that lets everybody read the own salts only, over the in-memory store, with an
  audit sink that is down.\<close>

definition silent_handoff :: "mem_salts SaltHandoff" where
  "silent_handoff =
     \<lparr>Handoff_Salts = NewInMemorySaltStore, Authorize = (\<lambda>r e p v. returnE (r = e)),
      Audit_Record = (\<lambda>x. throwE (Plain ''sink down''))\<rparr>"

theorem salt_release_is_authorized_and_audited_witness:
  "\<exists>s'. RequestSalt silent_handoff ''e1'' ''e1'' ''PAYROLL'' 1
       ([(''e1'', ''PAYROLL'', 1) \<mapsto> ''salt''], \<lparr>source = (\<lambda>i n. Inr (replicate n (CHR ''r''))), draws = 0\<rparr>)
     = (Inr ''salt'', s')"
proof -
  let ?s = "([(''e1'', ''PAYROLL'', 1) \<mapsto> ''salt''], \<lparr>source = (\<lambda>i n. Inr (replicate n (CHR ''r''))), draws = 0\<rparr>)"
  obtain r s' calls where run: "RequestSalt (watched silent_handoff) ''e1'' ''e1'' ''PAYROLL'' 1 (?s, []) = (r, (s', calls))"
    by (metis prod.collapse)
  have "r = Inr ''salt''"
    using run by (simp add: RequestSalt_def watched_def noting_def silent_handoff_def NewInMemorySaltStore_def mem_defs)
  with salt_release_is_authorized_and_audited [OF run] show ?thesis by blast
qed

end
