(* ===== verification/Go_Json.thy ===== *)
theory Go_Json
  imports Go_Errors
begin

text \<open>
  Package \<open>encoding/json\<close>, as far as the sources use it: the compact printer of
  \<open>json.Marshal\<close> with its string escapes (those of Go 1.21, which builds the chaincode),
  the parser behind \<open>json.Unmarshal\<close> and \<open>Decoder.Decode\<close>, and the field decoders with
  Go's rules for keys (case-insensitive), \<open>null\<close> (leaves the field alone) and repeated
  keys (the last one wins). The main result is the round trip \<open>parse_print\<close>: the parser
  reads back every well-formed value the printer writes. The limit of 10000 nesting levels
  of the Go decoder is not modelled, and the text of a decoder error is a fixed string.
\<close>

section \<open>UTF-8\<close>

definition utf8_cont :: "nat \<Rightarrow> bool" where
  "utf8_cont b \<longleftrightarrow> 0x80 \<le> b \<and> b \<le> 0xBF"

text \<open>Length of the well-formed UTF-8 sequence at the head of a byte list, 0 if there is
  none (\<open>utf8.DecodeRune\<close> returns \<open>RuneError\<close> with width at most 1).\<close>

fun utf8_size_n :: "nat list \<Rightarrow> nat" where
  "utf8_size_n [] = 0"
| "utf8_size_n (a # r) =
     (if a < 0x80 then 1
      else if 0xC2 \<le> a \<and> a \<le> 0xDF then
        (case r of b # _ \<Rightarrow> if utf8_cont b then 2 else 0 | _ \<Rightarrow> 0)
      else if 0xE0 \<le> a \<and> a \<le> 0xEF then
        (case r of b # c # _ \<Rightarrow>
            if (if a = 0xE0 then 0xA0 else 0x80) \<le> b \<and> b \<le> (if a = 0xED then 0x9F else 0xBF)
               \<and> utf8_cont c then 3 else 0
         | _ \<Rightarrow> 0)
      else if 0xF0 \<le> a \<and> a \<le> 0xF4 then
        (case r of b # c # d # _ \<Rightarrow>
            if (if a = 0xF0 then 0x90 else 0x80) \<le> b \<and> b \<le> (if a = 0xF4 then 0x8F else 0xBF)
               \<and> utf8_cont c \<and> utf8_cont d then 4 else 0
         | _ \<Rightarrow> 0)
      else 0)"

definition utf8_size :: "string \<Rightarrow> nat" where
  "utf8_size s = utf8_size_n (map of_char s)"

lemma utf8_size_n_take:
  "utf8_size_n bs = n \<Longrightarrow> n \<noteq> 0 \<Longrightarrow> utf8_size_n (take n bs @ x) = n \<and> n \<le> length bs"
  by (cases bs) (auto split: list.splits if_splits)

lemma utf8_size_take: "utf8_size s \<noteq> 0 \<Longrightarrow> utf8_size (take (utf8_size s) s @ x) = utf8_size s"
  using utf8_size_n_take [of "map of_char s" "utf8_size s" "map of_char x"]
  by (simp add: utf8_size_def take_map)

lemma utf8_size_le: "utf8_size s \<le> length s"
  using utf8_size_n_take [of "map of_char s" "utf8_size s"]
  by (cases "utf8_size s = 0") (simp_all add: utf8_size_def)

function valid_utf8 :: "string \<Rightarrow> bool" where
  "valid_utf8 [] = True"
| "valid_utf8 (c # r) =
     (if utf8_size (c # r) = 0 then False else valid_utf8 (drop (utf8_size (c # r)) (c # r)))"
  by pat_completeness auto
termination
  by (relation "measure length") auto

declare valid_utf8.simps(2) [simp del]

lemma utf8_size_ascii: "(of_char c :: nat) < 128 \<Longrightarrow> utf8_size (c # s) = 1"
  by (simp add: utf8_size_def)

lemma valid_utf8_ascii_Cons [simp]:
  "(of_char c :: nat) < 128 \<Longrightarrow> valid_utf8 (c # s) = valid_utf8 s"
  by (simp add: utf8_size_ascii valid_utf8.simps(2))

text \<open>Every ASCII string is valid UTF-8: hex digests, section names, timestamps.\<close>

definition is_ascii :: "string \<Rightarrow> bool" where
  "is_ascii s \<longleftrightarrow> list_all (\<lambda>c. (of_char c :: nat) < 128) s"

lemma valid_utf8_ascii: "is_ascii s \<Longrightarrow> valid_utf8 s"
  by (induction s) (simp_all add: is_ascii_def)

fun utf8_encode :: "nat \<Rightarrow> string" where
  "utf8_encode n =
     (if n < 0x80 then [char_of n]
      else if n < 0x800 then [char_of (0xC0 + n div 64), char_of (0x80 + n mod 64)]
      else if n < 0x10000 then
        [char_of (0xE0 + n div 4096), char_of (0x80 + n div 64 mod 64), char_of (0x80 + n mod 64)]
      else
        [char_of (0xF0 + n div 262144), char_of (0x80 + n div 4096 mod 64),
         char_of (0x80 + n div 64 mod 64), char_of (0x80 + n mod 64)])"

declare utf8_encode.simps [simp del]

definition replacement_char :: string where
  "replacement_char = utf8_encode 0xFFFD"

section \<open>Strings\<close>

definition json_u4 :: "nat \<Rightarrow> string" where
  "json_u4 n =
     [CHR 0x5C, CHR ''u'', hexdig (n div 4096 mod 16), hexdig (n div 256 mod 16),
      hexdig (n div 16 mod 16), hexdig (n mod 16)]"

text \<open>Escapes of one ASCII byte; \<open>json.Marshal\<close> also escapes the HTML characters.\<close>

definition json_escape :: "char \<Rightarrow> string" where
  "json_escape c =
     (if c = CHR 0x22 \<or> c = CHR 0x5C then [CHR 0x5C, c]
      else if c = CHR 0x0A then [CHR 0x5C, CHR ''n'']
      else if c = CHR 0x0D then [CHR 0x5C, CHR ''r'']
      else if c = CHR 0x09 then [CHR 0x5C, CHR ''t'']
      else if (of_char c :: nat) < 32 \<or> c = CHR ''<'' \<or> c = CHR ''>'' \<or> c = CHR ''&''
      then json_u4 (of_char c)
      else [c])"

definition line_sep :: "string \<Rightarrow> nat option" where
  "line_sep w =
     (if w = utf8_encode 0x2028 then Some 0x2028
      else if w = utf8_encode 0x2029 then Some 0x2029 else None)"

function json_chars :: "string \<Rightarrow> string" where
  "json_chars [] = []"
| "json_chars (c # r) =
     (if (of_char c :: nat) < 128 then json_escape c @ json_chars r
      else if utf8_size (c # r) = 0 then json_u4 0xFFFD @ json_chars r
      else (let w = take (utf8_size (c # r)) (c # r)
            in case line_sep w of Some n \<Rightarrow> json_u4 n | None \<Rightarrow> w)
           @ json_chars (drop (utf8_size (c # r)) (c # r)))"
  by pat_completeness auto
termination
  by (relation "measure length") auto

definition json_quote :: "string \<Rightarrow> string" where
  "json_quote s = CHR 0x22 # json_chars s @ [CHR 0x22]"

fun hex4 :: "string \<Rightarrow> (nat \<times> string) option" where
  "hex4 (a # b # c # d # r) =
     (case (hex_val a, hex_val b, hex_val c, hex_val d) of
        (Some w, Some x, Some y, Some z) \<Rightarrow> Some (((w * 16 + x) * 16 + y) * 16 + z, r)
      | _ \<Rightarrow> None)"
| "hex4 _ = None"

text \<open>\<open>utf16.DecodeRune\<close> on a surrogate pair.\<close>

definition surrogate_pair :: "nat \<Rightarrow> nat \<Rightarrow> nat option" where
  "surrogate_pair hi lo =
     (if 0xD800 \<le> hi \<and> hi < 0xDC00 \<and> 0xDC00 \<le> lo \<and> lo < 0xE000
      then Some ((hi - 0xD800) * 1024 + (lo - 0xDC00) + 0x10000) else None)"

text \<open>The text of a \<open>\\u\<close> escape and the input after it; a lone surrogate becomes the
  replacement character.\<close>

definition unescape_u :: "string \<Rightarrow> (string \<times> string) option" where
  "unescape_u r =
     (case hex4 r of
        None \<Rightarrow> None
      | Some (n, r1) \<Rightarrow>
          (if 0xD800 \<le> n \<and> n < 0xE000 then
             (if take 2 r1 = [CHR 0x5C, CHR ''u''] then
                (case hex4 (drop 2 r1) of
                   Some (m, r2) \<Rightarrow>
                     (case surrogate_pair n m of
                        Some k \<Rightarrow> Some (utf8_encode k, r2)
                      | None \<Rightarrow> Some (replacement_char, r1))
                 | None \<Rightarrow> Some (replacement_char, r1))
              else Some (replacement_char, r1))
           else Some (utf8_encode n, r1)))"

definition simple_escape :: "char \<Rightarrow> char option" where
  "simple_escape e =
     map_of [(CHR 0x22, CHR 0x22), (CHR 0x5C, CHR 0x5C), (CHR ''/'', CHR ''/''),
             (CHR ''b'', CHR 0x08), (CHR ''f'', CHR 0x0C), (CHR ''n'', CHR 0x0A),
             (CHR ''r'', CHR 0x0D), (CHR ''t'', CHR 0x09)] e"

text \<open>One step inside a string literal: the bytes it contributes and the rest.\<close>

fun unquote_step :: "string \<Rightarrow> (string \<times> string) option" where
  "unquote_step [] = None"
| "unquote_step (c # r) =
     (if c = CHR 0x5C then
        (case r of
           [] \<Rightarrow> None
         | e # r' \<Rightarrow>
             (case simple_escape e of
                Some d \<Rightarrow> Some ([d], r')
              | None \<Rightarrow> if e = CHR ''u'' then unescape_u r' else None))
      else if (of_char c :: nat) < 32 then None
      else if (of_char c :: nat) < 128 then Some ([c], r)
      else if utf8_size (c # r) = 0 then Some (replacement_char, r)
      else Some (take (utf8_size (c # r)) (c # r), drop (utf8_size (c # r)) (c # r)))"

lemma hex4_shorter: "hex4 r = Some (n, r') \<Longrightarrow> length r' < length r"
  by (induction r rule: hex4.induct) (auto split: option.splits)

lemma unescape_u_shorter: "unescape_u r = Some (w, r') \<Longrightarrow> length r' < length r"
  by (auto simp: unescape_u_def dest!: hex4_shorter split: option.splits if_splits)

lemma unquote_step_shorter: "unquote_step s = Some (w, r) \<Longrightarrow> length r < length s"
  by (cases s) (auto dest!: unescape_u_shorter split: if_splits option.splits list.splits)

function json_unquote :: "string \<Rightarrow> (string \<times> string) option" where
  "json_unquote s =
     (if take 1 s = [CHR 0x22] then Some ([], drop 1 s)
      else case unquote_step s of
             None \<Rightarrow> None
           | Some (w, r) \<Rightarrow> map_option (apfst ((@) w)) (json_unquote r))"
  by pat_completeness auto
termination
  by (relation "measure length") (auto dest: unquote_step_shorter)

declare json_unquote.simps [simp del]

lemma json_unquote_end: "json_unquote (CHR 0x22 # r) = Some ([], r)"
  by (simp add: json_unquote.simps)

lemma json_unquote_step:
  "unquote_step s = Some (w, r) \<Longrightarrow> take 1 s \<noteq> [CHR 0x22] \<Longrightarrow>
   json_unquote s = map_option (apfst ((@) w)) (json_unquote r)"
  by (subst json_unquote.simps) simp

lemma hex4_u4: "n < 65536 \<Longrightarrow> hex4 (drop 2 (json_u4 n) @ r) = Some (n, r)"
proof -
  assume "n < 65536"
  moreover have "(((n div 4096 mod 16 * 16 + n div 256 mod 16) * 16 + n div 16 mod 16) * 16
      + n mod 16) = n mod 65536"
    by (simp add: mod_mult2_eq [of n 16 4096, simplified] mod_mult2_eq [of "n div 16" 16 256, simplified]
      mod_mult2_eq [of "n div 256" 16 16, simplified] div_mult2_eq [symmetric])
  ultimately show ?thesis by (simp add: json_u4_def)
qed

lemma unquote_u4:
  assumes "n < 0xD800"
  shows "unquote_step (json_u4 n @ r) = Some (utf8_encode n, r)"
proof -
  have "unescape_u (drop 2 (json_u4 n) @ r) = Some (utf8_encode n, r)"
    using assms hex4_u4 [of n r] by (simp add: unescape_u_def)
  then show ?thesis
    by (simp add: json_u4_def simple_escape_def)
qed

lemma json_u4_shape [simp]: "take (Suc 0) (json_u4 n) = [CHR 0x5C]" "length (json_u4 n) = 6"
  by (simp_all add: json_u4_def)

lemma unquote_escape:
  assumes "(of_char c :: nat) < 128"
  shows "unquote_step (json_escape c @ r) = Some ([c], r)
         \<and> take 1 (json_escape c @ r) \<noteq> [CHR 0x22]"
proof -
  have "utf8_encode (of_char c) = [c]"
    using assms by (simp add: utf8_encode.simps)
  then show ?thesis
    using assms unquote_u4 [of "of_char c" r]
    by (auto simp: json_escape_def simple_escape_def)
qed

lemma unquote_multibyte:
  assumes "128 \<le> (of_char c :: nat)" and "utf8_size (c # s) \<noteq> 0"
    and "w = take (utf8_size (c # s)) (c # s)"
  shows "unquote_step (w @ r) = Some (w, r) \<and> take 1 (w @ r) \<noteq> [CHR 0x22]"
proof -
  have sz: "utf8_size (w @ r) = length w"
    using utf8_size_take [OF assms(2), of r] utf8_size_le [of "c # s"] assms(3) by simp
  obtain w' where w': "w = c # w'"
    using assms(2,3) by (cases "utf8_size (c # s)") simp_all
  with sz have "utf8_size (c # w' @ r) = Suc (length w')" by simp
  moreover have "c \<noteq> CHR 0x5C" "c \<noteq> CHR 0x22" using assms(1) by auto
  ultimately show ?thesis using assms(1) w' by simp
qed

lemma unquote_line_sep:
  "line_sep w = Some n \<Longrightarrow> unquote_step (json_u4 n @ r) = Some (w, r)"
  using unquote_u4 [of n r] by (auto simp: line_sep_def split: if_splits)

text \<open>Reading back what \<open>json.Marshal\<close> wrote for a string gives the string.\<close>

lemma json_unquote_chars:
  "valid_utf8 s \<Longrightarrow> json_unquote (json_chars s @ CHR 0x22 # r) = Some (s, r)"
proof (induction s rule: json_chars.induct)
  case 1
  show ?case by (simp add: json_unquote_end)
next
  case (2 c s)
  show ?case
  proof (cases "(of_char c :: nat) < 128")
    case True
    with "2.prems" have "json_unquote (json_chars s @ CHR 0x22 # r) = Some (s, r)"
      by (intro "2.IH"(1)) simp_all
    with True show ?thesis
      using unquote_escape [OF True, of "json_chars s @ CHR 0x22 # r"]
      by (simp add: json_unquote_step)
  next
    case False
    define n w t where "n = utf8_size (c # s)" "w = take n (c # s)" "t = drop n (c # s)"
    note defs = this
    from "2.prems" have nz: "n \<noteq> 0" and "valid_utf8 t"
      by (simp_all add: valid_utf8.simps(2) defs split: if_splits)
    then have IH: "json_unquote (json_chars t @ CHR 0x22 # r) = Some (t, r)"
      using "2.IH"(3) [OF False] by (simp add: defs)
    have cs: "c # s = w @ t" by (simp add: defs)
    define u where "u = (case line_sep w of Some k \<Rightarrow> json_u4 k | None \<Rightarrow> w)"
    have step: "unquote_step (u @ x) = Some (w, x) \<and> take 1 (u @ x) \<noteq> [CHR 0x22]" for x
      using unquote_multibyte [of c s w x] unquote_line_sep [of w _ x] False nz
      by (auto simp: u_def defs split: option.splits)
    have "json_chars (c # s) = u @ json_chars t"
      using False nz by (simp add: u_def defs Let_def split: option.splits)
    then show ?thesis
      using IH cs step [of "json_chars t @ CHR 0x22 # r"]
        json_unquote_step [of "u @ json_chars t @ CHR 0x22 # r" w] by simp
  qed
qed

lemma json_unquote_quote:
  "valid_utf8 s \<Longrightarrow> json_unquote (drop 1 (json_quote s) @ r) = Some (s, r)"
  using json_unquote_chars [of s r] by (simp add: json_quote_def)

section \<open>Values\<close>

datatype json =
    JNull
  | JBool bool
  | JNum string
  | JStr string
  | JArr "json list"
  | JObj "(string \<times> json) list"

fun json_print :: "json \<Rightarrow> string" where
  "json_print JNull = ''null''"
| "json_print (JBool b) = (if b then ''true'' else ''false'')"
| "json_print (JNum t) = t"
| "json_print (JStr s) = json_quote s"
| "json_print (JArr vs) = CHR ''['' # join_with '','' (map json_print vs) @ '']''"
| "json_print (JObj kvs) =
     CHR 0x7B # join_with '','' (map (\<lambda>(k, v). json_quote k @ CHR '':'' # json_print v) kvs)
     @ [CHR 0x7D]"

definition is_ws :: "char \<Rightarrow> bool" where
  "is_ws c \<longleftrightarrow> c = CHR '' '' \<or> c = CHR 0x09 \<or> c = CHR 0x0A \<or> c = CHR 0x0D"

definition skip_ws :: "string \<Rightarrow> string" where
  "skip_ws s = dropWhile is_ws s"

text \<open>The number grammar of RFC 8259: the literal's text and the rest.\<close>

definition scan_digits :: "string \<Rightarrow> string \<times> string" where
  "scan_digits s = (takeWhile is_digit s, dropWhile is_digit s)"

definition scan_int :: "string \<Rightarrow> (string \<times> string) option" where
  "scan_int s =
     (case s of
        [] \<Rightarrow> None
      | c # r \<Rightarrow>
          if c = CHR ''0'' then Some ([c], r)
          else if is_digit c then Some (scan_digits s) else None)"

definition scan_frac :: "string \<Rightarrow> (string \<times> string) option" where
  "scan_frac s =
     (case s of
        [] \<Rightarrow> Some ([], [])
      | c # r \<Rightarrow>
          if c = CHR ''.'' then
            (case scan_digits r of (d, r') \<Rightarrow> if d = [] then None else Some (c # d, r'))
          else Some ([], s))"

definition scan_exp :: "string \<Rightarrow> (string \<times> string) option" where
  "scan_exp s =
     (case s of
        [] \<Rightarrow> Some ([], [])
      | c # r \<Rightarrow>
          if c = CHR ''e'' \<or> c = CHR ''E'' then
            (let sg = (if take 1 r = ''+'' \<or> take 1 r = ''-'' then take 1 r else []);
                 (d, r') = scan_digits (drop (length sg) r)
             in if d = [] then None else Some (c # sg @ d, r'))
          else Some ([], s))"

definition scan_number :: "string \<Rightarrow> (string \<times> string) option" where
  "scan_number s =
     (let sg = (if take 1 s = ''-'' then ''-'' else []) in
      case scan_int (drop (length sg) s) of
        None \<Rightarrow> None
      | Some (i, r1) \<Rightarrow>
          (case scan_frac r1 of
             None \<Rightarrow> None
           | Some (f, r2) \<Rightarrow>
               (case scan_exp r2 of
                  None \<Rightarrow> None
                | Some (e, r3) \<Rightarrow> Some (sg @ i @ f @ e, r3))))"

fun parse_value :: "nat \<Rightarrow> string \<Rightarrow> (json \<times> string) option"
  and parse_elems :: "nat \<Rightarrow> string \<Rightarrow> (json list \<times> string) option"
  and parse_members :: "nat \<Rightarrow> string \<Rightarrow> ((string \<times> json) list \<times> string) option"
where
  "parse_value 0 s = None"
| "parse_value (Suc f) s =
     (case skip_ws s of
        [] \<Rightarrow> None
      | c # r \<Rightarrow>
          if c = CHR 0x22 then map_option (apfst JStr) (json_unquote r)
          else if c = CHR ''['' then
            (if take 1 (skip_ws r) = '']'' then Some (JArr [], drop 1 (skip_ws r))
             else map_option (apfst JArr) (parse_elems f r))
          else if c = CHR 0x7B then
            (if take 1 (skip_ws r) = [CHR 0x7D] then Some (JObj [], drop 1 (skip_ws r))
             else map_option (apfst JObj) (parse_members f r))
          else if has_prefix (c # r) ''null'' then Some (JNull, drop 4 (c # r))
          else if has_prefix (c # r) ''true'' then Some (JBool True, drop 4 (c # r))
          else if has_prefix (c # r) ''false'' then Some (JBool False, drop 5 (c # r))
          else map_option (apfst JNum) (scan_number (c # r)))"
| "parse_elems 0 s = None"
| "parse_elems (Suc f) s =
     (case parse_value f s of
        None \<Rightarrow> None
      | Some (v, r) \<Rightarrow>
          (case skip_ws r of
             [] \<Rightarrow> None
           | c # r' \<Rightarrow>
               if c = CHR '','' then map_option (apfst ((#) v)) (parse_elems f r')
               else if c = CHR '']'' then Some ([v], r') else None))"
| "parse_members 0 s = None"
| "parse_members (Suc f) s =
     (case skip_ws s of
        [] \<Rightarrow> None
      | q # r \<Rightarrow>
          if q \<noteq> CHR 0x22 then None
          else (case json_unquote r of
             None \<Rightarrow> None
           | Some (k, r1) \<Rightarrow>
               (case skip_ws r1 of
                  [] \<Rightarrow> None
                | d # r2 \<Rightarrow>
                    if d \<noteq> CHR '':'' then None
                    else (case parse_value f r2 of
                       None \<Rightarrow> None
                     | Some (v, r3) \<Rightarrow>
                         (case skip_ws r3 of
                            [] \<Rightarrow> None
                          | c # r4 \<Rightarrow>
                              if c = CHR '','' then
                                map_option (apfst ((#) (k, v))) (parse_members f r4)
                              else if c = CHR 0x7D then Some ([(k, v)], r4) else None)))))"

text \<open>\<open>json_unmarshal\<close> demands that only white space follows the value; \<open>json_decode\<close>
  (\<open>Decoder.Decode\<close>) leaves the rest of the input unread. Twice the length of the text is
  enough fuel, see \<open>parse_fuel\<close> below.\<close>

definition json_decode :: "string \<Rightarrow> json option" where
  "json_decode s = map_option fst (parse_value (2 * length s) s)"

definition json_unmarshal :: "string \<Rightarrow> json option" where
  "json_unmarshal s =
     (case parse_value (2 * length s) s of
        None \<Rightarrow> None
      | Some (v, r) \<Rightarrow> if skip_ws r = [] then Some v else None)"

section \<open>The parser consumes input, so its fuel suffices\<close>

lemma skip_ws_le: "length (skip_ws s) \<le> length s"
  by (simp add: skip_ws_def length_dropWhile_le)

lemma skip_ws_ConsD: "skip_ws s = c # r \<Longrightarrow> length r < length s"
  using skip_ws_le [of s] by simp

lemma json_unquote_shorter: "json_unquote s = Some (w, r) \<Longrightarrow> length r < length s"
proof (induction s arbitrary: w rule: json_unquote.induct)
  case (1 s)
  show ?case
  proof (cases "take 1 s = [CHR 0x22]")
    case True
    with "1.prems" show ?thesis by (cases s) (simp_all add: json_unquote_end)
  next
    case False
    with "1.prems" obtain u t v where st: "unquote_step s = Some (u, t)"
      and "json_unquote t = Some (v, r)"
      by (auto simp: json_unquote.simps [of s] split: option.splits)
    with "1.IH" [OF False st] have "length r < length t" by simp
    with unquote_step_shorter [OF st] show ?thesis by simp
  qed
qed

lemma scan_number_shorter: "scan_number s = Some (w, r) \<Longrightarrow> length r < length s"
proof -
  have int: "scan_int t = Some (i, u) \<Longrightarrow> length u < length t" for t i u
    by (cases t) (auto simp: scan_int_def scan_digits_def le_imp_less_Suc length_dropWhile_le
        split: if_splits)
  have frac: "scan_frac t = Some (i, u) \<Longrightarrow> length u \<le> length t" for t i u
    by (cases t) (auto simp: scan_frac_def scan_digits_def le_SucI length_dropWhile_le
        split: if_splits)
  have exp: "scan_exp t = Some (i, u) \<Longrightarrow> length u \<le> length t" for t i u
    by (cases t) (auto simp: scan_exp_def scan_digits_def Let_def
        intro: le_SucI order_trans [OF length_dropWhile_le] split: if_splits)
  assume "scan_number s = Some (w, r)"
  then obtain n i u j v k where "scan_int (drop n s) = Some (i, u)"
    "scan_frac u = Some (j, v)" "scan_exp v = Some (k, r)"
    by (auto simp: scan_number_def Let_def split: option.splits)
  with int [of "drop n s"] frac [of u] exp [of v] show ?thesis by fastforce
qed

lemma parse_shorter:
  "parse_value f s = Some (v, r) \<Longrightarrow> length r < length s"
  "parse_elems f s = Some (vs, r) \<Longrightarrow> length r < length s"
  "parse_members f s = Some (kvs, r) \<Longrightarrow> length r < length s"
proof (induction f s and f s and f s arbitrary: v r and vs r and kvs r
    rule: parse_value_parse_elems_parse_members.induct)
  case (2 f s)
  from "2.prems" obtain c t where ct: "skip_ws s = c # t"
    by (auto split: list.splits)
  note lt = skip_ws_ConsD [OF ct] and le = skip_ws_le [of t]
  from "2.prems" ct consider
      (a) w where "json_unquote t = Some (w, r)"
    | (b) vs where "c = CHR ''[''" "take 1 (skip_ws t) \<noteq> '']''" "parse_elems f t = Some (vs, r)"
    | (c) kvs where "c = CHR 0x7B" "take 1 (skip_ws t) \<noteq> [CHR 0x7D]"
        "parse_members f t = Some (kvs, r)"
    | (d) n where "r = drop n (skip_ws t)" | (e) n where "r = drop n t"
    | (g) w where "scan_number (c # t) = Some (w, r)"
    by (auto split: if_splits)
  then show ?case
  proof cases
    case b
    with "2.IH"(1) [OF ct _ b(1,2)] lt show ?thesis by fastforce
  next
    case c
    with "2.IH"(2) [OF ct _ _ c(1,2)] lt show ?thesis by fastforce
  next
    case g
    with lt show ?thesis using scan_number_shorter [OF g] by simp
  qed (use lt le in \<open>auto dest!: json_unquote_shorter\<close>)
next
  case (4 f s)
  then show ?case
    by (auto dest!: skip_ws_ConsD split: option.splits list.splits if_splits)
      (meson less_trans)
next
  case (6 f s)
  then show ?case
    by (auto dest!: skip_ws_ConsD json_unquote_shorter split: option.splits list.splits if_splits)
      (meson less_trans)+
qed simp_all

lemma parse_fuel:
  "parse_value f s = Some x \<Longrightarrow> 2 * length s \<le> f' \<Longrightarrow> parse_value f' s = Some x"
  "parse_elems f s = Some y \<Longrightarrow> 2 * length s < f' \<Longrightarrow> parse_elems f' s = Some y"
  "parse_members f s = Some z \<Longrightarrow> 2 * length s < f' \<Longrightarrow> parse_members f' s = Some z"
proof (induction f s and f s and f s arbitrary: x f' and y f' and z f'
    rule: parse_value_parse_elems_parse_members.induct)
  case (2 f s)
  from "2.prems"(1) obtain c t where ct: "skip_ws s = c # t"
    by (auto split: list.splits)
  with "2.prems"(2) skip_ws_ConsD [OF ct] obtain g where g: "f' = Suc g" "2 * length t < g"
    by (cases f') auto
  have e: "parse_elems g t = Some y"
    if "c = CHR ''[''" "take 1 (skip_ws t) \<noteq> '']''" "parse_elems f t = Some y" for y
    using "2.IH"(1) [OF ct _ that(1,2,3) g(2)] that by simp
  have m: "parse_members g t = Some y"
    if "c = CHR 0x7B" "take 1 (skip_ws t) \<noteq> [CHR 0x7D]" "parse_members f t = Some y" for y
    using "2.IH"(2) [OF ct _ _ that(1,2,3) g(2)] that by simp
  show ?case
    using "2.prems"(1) ct g e m by (auto split: if_splits)
next
  case (4 f s)
  from "4.prems"(1) obtain v r c t where v: "parse_value f s = Some (v, r)"
    and ct: "skip_ws r = c # t"
    by (auto split: option.splits list.splits)
  with "4.prems"(2) skip_ws_ConsD [OF ct] parse_shorter(1) [OF v]
  obtain g where g: "f' = Suc g" "2 * length s \<le> g" "2 * length t < g"
    by (cases f') auto
  have v': "parse_value g s = Some (v, r)" by (rule "4.IH"(1) [OF v g(2)])
  have e: "parse_elems g t = Some y" if "c = CHR '',''" "parse_elems f t = Some y" for y
    using "4.IH"(2) [OF v refl ct that(1,2) g(3)] .
  show ?case
    using "4.prems"(1) ct g v v' e by (auto split: if_splits)
next
  case (6 f s)
  from "6.prems"(1) obtain r k r1 r2 v r3 c t where q: "skip_ws s = CHR 0x22 # r"
    and k: "json_unquote r = Some (k, r1)" and d: "skip_ws r1 = CHR '':'' # r2"
    and v: "parse_value f r2 = Some (v, r3)" and ct: "skip_ws r3 = c # t"
    by (auto split: option.splits list.splits if_splits)
  with "6.prems"(2) skip_ws_ConsD [OF q] skip_ws_ConsD [OF d] skip_ws_ConsD [OF ct]
    json_unquote_shorter [OF k] parse_shorter(1) [OF v]
  obtain g where g: "f' = Suc g" "2 * length r2 \<le> g" "2 * length t < g"
    by (cases f') auto
  have v': "parse_value g r2 = Some (v, r3)"
    by (rule "6.IH"(1) [OF q _ k refl d _ v g(2)]) simp_all
  have m: "parse_members g t = Some y" if "c = CHR '',''" "parse_members f t = Some y" for y
    by (rule "6.IH"(2) [OF q _ k refl d _ v refl ct that(1,2) g(3)]) simp_all
  show ?case
    using "6.prems"(1) q k d ct g v v' m by (auto split: if_splits)
qed simp_all

section \<open>The parser reads back what the printer writes\<close>

text \<open>The numbers the sources print are Go integers.\<close>

definition is_int_text :: "string \<Rightarrow> bool" where
  "is_int_text t \<longleftrightarrow>
     (let u = (if take 1 t = ''-'' then drop 1 t else t)
      in u \<noteq> [] \<and> list_all is_digit u \<and> (take 1 u = ''0'' \<longrightarrow> u = ''0''))"

lemma nat_digits_zero: "take 1 (nat_digits n) = ''0'' \<Longrightarrow> n = 0"
proof (induction n rule: nat_digits.induct)
  case (1 n)
  show ?case
  proof (cases "n < 10")
    case True
    with "1.prems" have "digit n = CHR ''0''" by (simp add: nat_digits.simps [of n])
    then have "digit_val (digit n) = 0" by (simp add: digit_val_def)
    with True show ?thesis by simp
  next
    case False
    with "1.prems" have "take 1 (nat_digits (n div 10)) = ''0''"
      by (cases "nat_digits (n div 10)") (simp_all add: nat_digits.simps [of n])
    with "1.IH" False have "n div 10 = 0" by blast
    with False show ?thesis by simp
  qed
qed

lemma is_int_text_itoa [simp]: "is_int_text (itoa i)"
proof -
  have "nat_digits 0 = ''0''" by code_simp
  moreover have "take 1 (nat_digits n) \<noteq> ''-''" for n
    using nat_digits_all [of n] by (cases "nat_digits n") auto
  ultimately show ?thesis
    using nat_digits_all nat_digits_zero by (fastforce simp: is_int_text_def itoa_def Let_def)
qed

fun wf_json :: "json \<Rightarrow> bool" where
  "wf_json (JNum t) = is_int_text t"
| "wf_json (JStr s) = valid_utf8 s"
| "wf_json (JArr vs) = list_all wf_json vs"
| "wf_json (JObj kvs) = list_all (\<lambda>(k, v). valid_utf8 k \<and> wf_json v) kvs"
| "wf_json _ = True"

text \<open>What may follow a printed value: nothing that could continue a number.\<close>

definition delimited :: "string \<Rightarrow> bool" where
  "delimited r \<longleftrightarrow> (\<forall>c. take 1 r = [c] \<longrightarrow> c \<in> {CHR '','', CHR '']'', CHR 0x7D})"

lemma delimited_simps [simp]:
  "delimited []" "delimited (c # r) \<longleftrightarrow> c \<in> {CHR '','', CHR '']'', CHR 0x7D}"
  by (auto simp: delimited_def)

lemma scan_number_int:
  assumes "is_int_text t" and "delimited r"
  shows "scan_number (t @ r) = Some (t, r)"
proof -
  define u where "u = (if take 1 t = ''-'' then drop 1 t else t)"
  obtain c w where u: "u = c # w"
    using assms(1) by (cases u) (auto simp: is_int_text_def u_def Let_def)
  have dig: "list_all is_digit u" and z: "c = CHR ''0'' \<Longrightarrow> w = []"
    using assms(1) u by (auto simp: is_int_text_def u_def Let_def)
  have nr: "takeWhile is_digit r = [] \<and> dropWhile is_digit r = r
      \<and> scan_frac r = Some ([], r) \<and> scan_exp r = Some ([], r)"
    using assms(2) by (cases r) (auto simp: is_digit_def scan_frac_def scan_exp_def)
  have "scan_digits (u @ r) = (u, r)"
    using dig nr by (simp add: scan_digits_def list_all_iff)
  then have int: "scan_int (u @ r) = Some (u, r)"
    using dig z u by (auto simp: scan_int_def)
  show ?thesis
  proof (cases "take 1 t = ''-''")
    case True
    then have "t = CHR ''-'' # u" by (cases t) (simp_all add: u_def)
    then show ?thesis using int nr by (simp add: scan_number_def)
  next
    case False
    then have "t = u" by (simp add: u_def)
    with False u have "take 1 (t @ r) \<noteq> ''-''" by simp
    then show ?thesis using int nr \<open>t = u\<close> by (simp add: scan_number_def)
  qed
qed

lemma int_text_head:
  assumes "is_int_text t"
  obtains c w where "t = c # w" "c = CHR ''-'' \<or> is_digit c"
  using assms by (cases t) (auto simp: is_int_text_def Let_def split: if_splits)

lemma skip_ws_id: "c \<notin> {CHR '' '', CHR 0x09, CHR 0x0A, CHR 0x0D} \<Longrightarrow> skip_ws (c # r) = c # r"
  by (simp add: skip_ws_def is_ws_def)

lemma print_head:
  assumes "wf_json v"
  obtains c w where "json_print v = c # w" "c \<notin> {CHR '' '', CHR 0x09, CHR 0x0A, CHR 0x0D}"
    "c \<noteq> CHR '']''" "c \<noteq> CHR 0x7D"
proof (cases v)
  case (JNum t)
  with assms int_text_head [of t] obtain c w where "t = c # w" "c = CHR ''-'' \<or> is_digit c" by auto
  moreover have "\<not> is_digit d" if "d \<in> {CHR '' '', CHR 0x09, CHR 0x0A, CHR 0x0D, CHR '']'', CHR 0x7D}" for d
    using that by (auto simp: is_digit_def)
  ultimately show ?thesis using JNum by (intro that [of c w]) auto
next
  case (JBool b)
  with that show ?thesis by (cases b) auto
qed (use that in \<open>auto simp: json_quote_def\<close>)

lemma skip_ws_delim: "delimited r \<Longrightarrow> skip_ws r = r"
  by (cases r) (auto simp: skip_ws_def is_ws_def)

lemma join_with_Cons:
  "vs \<noteq> [] \<Longrightarrow> join_with sep (v # vs) = v @ sep @ join_with sep vs"
  by (cases vs) simp_all

text \<open>\<open>reads_back v\<close>: the parser reads the printed value, whatever delimiter follows.\<close>

definition reads_back :: "json \<Rightarrow> bool" where
  "reads_back v \<longleftrightarrow>
     (\<forall>f r. delimited r \<longrightarrow> size v < f \<longrightarrow> parse_value f (json_print v @ r) = Some (v, r))"

lemma reads_backD:
  "reads_back v \<Longrightarrow> delimited r \<Longrightarrow> size v < f \<Longrightarrow> parse_value f (json_print v @ r) = Some (v, r)"
  by (simp add: reads_back_def)

lemma parse_elems_print:
  "ws \<noteq> [] \<Longrightarrow> list_all reads_back ws \<Longrightarrow> size_list size ws < g \<Longrightarrow>
   parse_elems g (join_with '','' (map json_print ws) @ CHR '']'' # r) = Some (ws, r)"
proof (induction ws arbitrary: g)
  case (Cons w ws)
  from Cons.prems obtain h where g: "g = Suc h" "size w < h" "size_list size ws < h"
    by (cases g) auto
  have w: "parse_value h (json_print w @ x) = Some (w, x)" if "delimited x" for x
    using Cons.prems(2) g(2) that by (simp add: reads_backD)
  show ?case
  proof (cases "ws = []")
    case True
    then show ?thesis using g w [of "CHR '']'' # r"] by (simp add: skip_ws_id)
  next
    case False
    then have "parse_elems h (join_with '','' (map json_print ws) @ CHR '']'' # r) = Some (ws, r)"
      using Cons.IH [of h] Cons.prems(2) g(3) by simp
    then show ?thesis
      using g False w [of "CHR '','' # join_with '','' (map json_print ws) @ CHR '']'' # r"]
      by (simp add: join_with_Cons skip_ws_id)
  qed
qed simp

abbreviation print_member :: "string \<times> json \<Rightarrow> string" where
  "print_member \<equiv> \<lambda>(k, v). json_quote k @ CHR '':'' # json_print v"

lemma parse_members_print:
  "ws \<noteq> [] \<Longrightarrow> list_all (\<lambda>(k, v). valid_utf8 k \<and> reads_back v) ws \<Longrightarrow>
   size_list (size_prod (\<lambda>x. 0) size) ws < g \<Longrightarrow>
   parse_members g (join_with '','' (map print_member ws) @ CHR 0x7D # r) = Some (ws, r)"
proof (induction ws arbitrary: g)
  case (Cons w ws)
  obtain k v where kv: "w = (k, v)" by (cases w)
  from Cons.prems kv obtain h where g: "g = Suc h" "size v < h"
      "size_list (size_prod (\<lambda>x. 0) size) ws < h"
    by (cases g) auto
  have v: "parse_value h (json_print v @ x) = Some (v, x)" if "delimited x" for x
    using Cons.prems(2) kv g(2) that by (simp add: reads_backD)
  have k: "json_unquote (json_chars k @ CHR 0x22 # x) = Some (k, x)" for x
    using Cons.prems(2) kv by (simp add: json_unquote_chars)
  show ?case
  proof (cases "ws = []")
    case True
    then show ?thesis using g kv k v [of "CHR 0x7D # r"] by (simp add: skip_ws_id json_quote_def)
  next
    case False
    then have "parse_members h (join_with '','' (map print_member ws) @ CHR 0x7D # r) = Some (ws, r)"
      using Cons.IH [of h] Cons.prems(2) g(3) by simp
    then show ?thesis
      using g False kv k v [of "CHR '','' # join_with '','' (map print_member ws) @ CHR 0x7D # r"]
      by (simp add: join_with_Cons skip_ws_id json_quote_def)
  qed
qed simp

lemma reads_back_arr:
  assumes "list_all wf_json vs" and "list_all reads_back vs"
  shows "reads_back (JArr vs)"
  unfolding reads_back_def
proof (intro allI impI)
  fix f r
  assume "size (JArr vs) < f"
  then obtain g where g: "f = Suc g" "size_list size vs < g" by (cases f) auto
  show "parse_value f (json_print (JArr vs) @ r) = Some (JArr vs, r)"
  proof (cases vs)
    case Nil
    then show ?thesis using g by (simp add: skip_ws_id)
  next
    case (Cons w ws)
    with assms(1) have "wf_json w" by simp
    from print_head [OF this] obtain c x where
      hd: "json_print w = c # x" "c \<notin> {CHR '' '', CHR 0x09, CHR 0x0A, CHR 0x0D}" "c \<noteq> CHR '']''"
      by metis
    have "\<exists>y. join_with '','' (map json_print vs) = c # y"
      using Cons hd(1) by (cases ws) simp_all
    then obtain y where "join_with '','' (map json_print vs) = c # y" ..
    then show ?thesis
      using g parse_elems_print [of vs g r] assms(2) Cons hd by (simp add: skip_ws_id)
  qed
qed

lemma reads_back_obj:
  assumes "list_all (\<lambda>(k, v). valid_utf8 k \<and> reads_back v) kvs"
  shows "reads_back (JObj kvs)"
  unfolding reads_back_def
proof (intro allI impI)
  fix f r
  assume "size (JObj kvs) < f"
  then obtain g where g: "f = Suc g" "size_list (size_prod (\<lambda>x. 0) size) kvs < g"
    by (cases f) auto
  show "parse_value f (json_print (JObj kvs) @ r) = Some (JObj kvs, r)"
  proof (cases kvs)
    case Nil
    then show ?thesis using g by (simp add: skip_ws_id)
  next
    case (Cons w ws)
    have "\<exists>y. join_with '','' (map print_member kvs) = CHR 0x22 # y"
      using Cons by (cases w; cases ws) (simp_all add: json_quote_def)
    then obtain y where "join_with '','' (map print_member kvs) = CHR 0x22 # y" ..
    then show ?thesis
      using g parse_members_print [of kvs g r] assms Cons by (simp add: skip_ws_id)
  qed
qed

lemma reads_back_num: "is_int_text t \<Longrightarrow> reads_back (JNum t)"
  unfolding reads_back_def
proof (intro allI impI)
  fix f r
  assume t: "is_int_text t" and r: "delimited r" and "size (JNum t) < f"
  then obtain g where g: "f = Suc g" by (cases f) auto
  from int_text_head [OF t] obtain c w where cw: "t = c # w" "c = CHR ''-'' \<or> is_digit c" .
  have "c \<notin> {CHR '' '', CHR 0x09, CHR 0x0A, CHR 0x0D, CHR 0x22, CHR ''['', CHR 0x7B,
      CHR ''n'', CHR ''t'', CHR ''f''}"
    using cw(2) by (auto simp: is_digit_def)
  then show "parse_value f (json_print (JNum t) @ r) = Some (JNum t, r)"
    using scan_number_int [OF t r] cw g by (simp add: skip_ws_id has_prefix_def)
qed

lemma reads_back_leaf:
  "reads_back JNull" "reads_back (JBool b)" "valid_utf8 s \<Longrightarrow> reads_back (JStr s)"
  by (auto simp: reads_back_def gr0_conv_Suc skip_ws_id has_prefix_def json_quote_def
      json_unquote_chars)

lemma wf_reads_back: "wf_json v \<Longrightarrow> reads_back v"
proof (induction v)
  case (JArr vs)
  then show ?case by (intro reads_back_arr) (auto simp: list_all_iff)
next
  case (JObj kvs)
  then show ?case by (intro reads_back_obj) (force simp: list_all_iff)
qed (simp_all add: reads_back_leaf reads_back_num)

lemma parse_print: "wf_json v \<Longrightarrow> json_unmarshal (json_print v) = Some v"
proof -
  assume "wf_json v"
  then have "parse_value (Suc (size v)) (json_print v @ []) = Some (v, [])"
    by (intro reads_backD wf_reads_back) simp_all
  from parse_fuel(1) [OF this, of "2 * length (json_print v)"] show ?thesis
    by (simp add: json_unmarshal_def skip_ws_def)
qed

lemma decode_print: "wf_json v \<Longrightarrow> delimited r \<Longrightarrow> json_decode (json_print v @ r) = Some v"
proof -
  assume "wf_json v" and "delimited r"
  then have "parse_value (Suc (size v)) (json_print v @ r) = Some (v, r)"
    by (intro reads_backD wf_reads_back) simp_all
  from parse_fuel(1) [OF this, of "2 * length (json_print v @ r)"] show ?thesis
    by (simp add: json_decode_def)
qed

text \<open>So the printer is injective on well-formed values.\<close>

lemma json_print_inject: "wf_json u \<Longrightarrow> wf_json v \<Longrightarrow> json_print u = json_print v \<Longrightarrow> u = v"
  by (metis option.inject parse_print)

end
