(* ===== verification/Go_Decode.thy ===== *)
theory Go_Decode
  imports Go_Json
begin

text \<open>
  Typed decoding with \<open>encoding/json\<close> and the formatting verbs of \<open>fmt\<close> the sources use.
  A Go struct with JSON tags is a list of fields, each with a function that stores one
  decoded value; \<open>decode_struct\<close> runs over the members of an object in their order, which
  gives Go's rules: an exact key wins over one that differs in case only, unknown keys are
  skipped, a repeated key overwrites, and \<open>null\<close> leaves a field of a basic type unchanged.
  Go keeps decoding after a type mismatch and returns the first error at the end; every
  caller in the sources discards the value then, so the model returns \<^const>\<open>None\<close>.
\<close>

section \<open>Keys\<close>

text \<open>Case folding of a key: ASCII letters, and the two non-ASCII characters that fold to
  an ASCII letter (the Kelvin sign and the long s).\<close>

definition upper_ascii :: "char \<Rightarrow> char" where
  "upper_ascii c =
     (if 97 \<le> (of_char c :: nat) \<and> (of_char c :: nat) \<le> 122
      then char_of ((of_char c :: nat) - 32) else c)"

function fold_name :: "string \<Rightarrow> string" where
  "fold_name [] = []"
| "fold_name (c # r) =
     (if take 3 (c # r) = [CHR 0xE2, CHR 0x84, CHR 0xAA] then CHR ''K'' # fold_name (drop 2 r)
      else if take 2 (c # r) = [CHR 0xC5, CHR 0xBF] then CHR ''S'' # fold_name (drop 1 r)
      else upper_ascii c # fold_name r)"
  by pat_completeness auto
termination
  by (relation "measure length") auto

definition lookup_field :: "(string \<times> 'f) list \<Rightarrow> string \<Rightarrow> 'f option" where
  "lookup_field fs k =
     (case map_of fs k of
        Some f \<Rightarrow> Some f
      | None \<Rightarrow> map_option snd (find (\<lambda>(n, f). fold_name n = fold_name k) fs))"

lemma lookup_field_exact [simp]: "map_of fs k = Some f \<Longrightarrow> lookup_field fs k = Some f"
  by (simp add: lookup_field_def)

section \<open>Structs\<close>

type_synonym ('v, 's) fields = "(string \<times> ('v \<Rightarrow> 's \<Rightarrow> 's option)) list"

fun decode_members :: "('v, 's) fields \<Rightarrow> (string \<times> 'v) list \<Rightarrow> 's \<Rightarrow> 's option" where
  "decode_members fs [] s = Some s"
| "decode_members fs ((k, v) # kvs) s =
     (case lookup_field fs k of
        None \<Rightarrow> decode_members fs kvs s
      | Some f \<Rightarrow> (case f v s of None \<Rightarrow> None | Some s' \<Rightarrow> decode_members fs kvs s'))"

fun decode_struct :: "(json, 's) fields \<Rightarrow> json \<Rightarrow> 's \<Rightarrow> 's option" where
  "decode_struct fs (JObj kvs) s = decode_members fs kvs s"
| "decode_struct fs JNull s = Some s"
| "decode_struct fs _ s = None"

text \<open>Keys that no field has are skipped, wherever they stand.\<close>

lemma decode_members_append:
  "decode_members fs (xs @ ys) s =
     (case decode_members fs xs s of None \<Rightarrow> None | Some s' \<Rightarrow> decode_members fs ys s')"
  by (induction xs arbitrary: s) (auto split: option.splits)

section \<open>Fields\<close>

text \<open>\<open>strconv.Atoi\<close>, also \<open>strconv.ParseInt\<close> in base 10 with 64 bits.\<close>

definition atoi :: "string \<Rightarrow> int option" where
  "atoi t =
     (let neg = (take 1 t = ''-'');
          u = (if neg \<or> take 1 t = ''+'' then drop 1 t else t);
          n = (if neg then - int (dec_value u) else int (dec_value u))
      in if u \<noteq> [] \<and> list_all is_digit u \<and> is_int64 n then Some n else None)"

lemma atoi_itoa [simp]: "is_int64 i \<Longrightarrow> atoi (itoa i) = Some i"
proof -
  have hd: "take 1 (nat_digits n) \<noteq> ''-''" "take 1 (nat_digits n) \<noteq> ''+''" for n
    using nat_digits_all [of n] by (cases "nat_digits n"; auto simp: is_digit_def)+
  assume "is_int64 i"
  then show ?thesis
    using hd nat_digits_all by (auto simp: atoi_def itoa_def Let_def)
qed

lemma atoi_int64: "atoi t = Some i \<Longrightarrow> is_int64 i"
  by (auto simp: atoi_def Let_def split: if_splits)

fun dec_str :: "(string \<Rightarrow> 's \<Rightarrow> 's) \<Rightarrow> json \<Rightarrow> 's \<Rightarrow> 's option" where
  "dec_str upd (JStr x) s = Some (upd x s)"
| "dec_str upd JNull s = Some s"
| "dec_str upd _ s = None"

fun dec_int :: "(int \<Rightarrow> 's \<Rightarrow> 's) \<Rightarrow> json \<Rightarrow> 's \<Rightarrow> 's option" where
  "dec_int upd (JNum t) s = map_option (\<lambda>i. upd i s) (atoi t)"
| "dec_int upd JNull s = Some s"
| "dec_int upd _ s = None"

fun str_elem :: "json \<Rightarrow> string option" where
  "str_elem (JStr x) = Some x"
| "str_elem JNull = Some []"
| "str_elem _ = None"

fun map_opt :: "('a \<Rightarrow> 'b option) \<Rightarrow> 'a list \<Rightarrow> 'b list option" where
  "map_opt f [] = Some []"
| "map_opt f (x # xs) =
     (case f x of
        None \<Rightarrow> None
      | Some y \<Rightarrow> map_option ((#) y) (map_opt f xs))"

lemma map_opt_map: "(\<And>x. x \<in> set xs \<Longrightarrow> f (g x) = Some (h x)) \<Longrightarrow>
  map_opt f (map g xs) = Some (map h xs)"
  by (induction xs) simp_all

lemma map_opt_length: "map_opt f xs = Some ys \<Longrightarrow> length ys = length xs"
  by (induction xs arbitrary: ys) (auto split: option.splits)

lemma map_opt_set:
  "map_opt f xs = Some ys \<Longrightarrow> y \<in> set ys \<Longrightarrow> \<exists>x \<in> set xs. f x = Some y"
  by (induction xs arbitrary: ys) (auto split: option.splits)

text \<open>A field of type \<open>[]string\<close>; \<^const>\<open>None\<close> is the nil slice.\<close>

fun dec_strs :: "(string list option \<Rightarrow> 's \<Rightarrow> 's) \<Rightarrow> json \<Rightarrow> 's \<Rightarrow> 's option" where
  "dec_strs upd (JArr vs) s = map_option (\<lambda>xs. upd (Some xs) s) (map_opt str_elem vs)"
| "dec_strs upd JNull s = Some (upd None s)"
| "dec_strs upd _ s = None"

definition strs_json :: "string list option \<Rightarrow> json" where
  "strs_json xs = (case xs of None \<Rightarrow> JNull | Some ys \<Rightarrow> JArr (map JStr ys))"

lemma map_opt_JStr [simp]: "map_opt str_elem (map JStr ys) = Some ys"
  using map_opt_map [of ys str_elem JStr "\<lambda>x. x"] by simp

lemma dec_strs_json [simp]: "dec_strs upd (strs_json xs) s = Some (upd xs s)"
  by (simp add: strs_json_def split: option.splits)

section \<open>\<open>json.RawMessage\<close>\<close>

text \<open>The members of the object a text starts with, each with the exact text of its value.
  A \<open>json.RawMessage\<close> field receives that text, also for \<open>null\<close>.\<close>

fun raw_members :: "nat \<Rightarrow> string \<Rightarrow> (string \<times> json \<times> string) list option" where
  "raw_members 0 s = None"
| "raw_members (Suc f) s =
     (case json_unquote (drop 1 (skip_ws s)) of
        None \<Rightarrow> None
      | Some (k, r1) \<Rightarrow>
          (let t = skip_ws (drop 1 (skip_ws r1)) in
           case parse_value (2 * length t) t of
             None \<Rightarrow> None
           | Some (v, r2) \<Rightarrow>
               (let m = (k, v, take (length t - length r2) t) in
                if take 1 (skip_ws r2) = '','' then
                  map_option ((#) m) (raw_members f (drop 1 (skip_ws r2)))
                else Some [m])))"

definition raw_object :: "string \<Rightarrow> (string \<times> json \<times> string) list option" where
  "raw_object s =
     (case json_decode s of
        Some (JObj kvs) \<Rightarrow>
          if kvs = [] then Some [] else raw_members (length s) (drop 1 (skip_ws s))
      | _ \<Rightarrow> None)"

fun dec_raw :: "(string \<Rightarrow> 's \<Rightarrow> 's) \<Rightarrow> json \<times> string \<Rightarrow> 's \<Rightarrow> 's option" where
  "dec_raw upd (v, t) s = Some (upd t s)"

text \<open>\<open>Decoder.Decode\<close> into a struct that has raw fields.\<close>

definition decode_raw_struct :: "(json \<times> string, 's) fields \<Rightarrow> string \<Rightarrow> 's \<Rightarrow> 's option" where
  "decode_raw_struct fs t s =
     (case json_decode t of
        None \<Rightarrow> None
      | Some JNull \<Rightarrow> Some s
      | Some v \<Rightarrow> (case raw_object t of None \<Rightarrow> None | Some kvs \<Rightarrow> decode_members fs kvs s))"

section \<open>The raw text of a member is a part of the input\<close>

lemma suffix_skip_ws: "suffix (skip_ws s) s"
  by (simp add: skip_ws_def suffix_dropWhile)

lemma suffix_hex4: "hex4 r = Some (n, r') \<Longrightarrow> suffix r' r"
  by (induction r rule: hex4.induct) (auto intro: suffix_ConsI split: option.splits)

lemma suffix_unescape_u: "unescape_u r = Some (w, r') \<Longrightarrow> suffix r' r"
  by (auto simp: unescape_u_def dest!: suffix_hex4 split: option.splits if_splits)
    (meson suffix_drop suffix_order.trans)

lemma suffix_unquote_step: "unquote_step s = Some (w, r) \<Longrightarrow> suffix r s"
  by (cases s) (auto dest!: suffix_unescape_u intro: suffix_ConsI suffix_drop
      split: if_splits option.splits list.splits)

lemma suffix_json_unquote: "json_unquote s = Some (w, r) \<Longrightarrow> suffix r s"
proof (induction s arbitrary: w rule: json_unquote.induct)
  case (1 s)
  show ?case
  proof (cases "take 1 s = [CHR 0x22]")
    case True
    with "1.prems" show ?thesis by (cases s) (auto simp: json_unquote_end intro: suffix_ConsI)
  next
    case False
    with "1.prems" obtain u t v where st: "unquote_step s = Some (u, t)"
      and "json_unquote t = Some (v, r)"
      by (auto simp: json_unquote.simps [of s] split: option.splits)
    with "1.IH" [OF False st] suffix_unquote_step [OF st] show ?thesis
      by (auto intro: suffix_order.trans)
  qed
qed

lemma suffix_scan_number: "scan_number s = Some (w, r) \<Longrightarrow> suffix r s"
proof -
  have int: "scan_int t = Some (i, u) \<Longrightarrow> suffix u t" for t i u
    by (cases t) (auto simp: scan_int_def scan_digits_def suffix_dropWhile intro: suffix_ConsI split: if_splits)
  have frac: "scan_frac t = Some (i, u) \<Longrightarrow> suffix u t" for t i u
    by (cases t) (auto simp: scan_frac_def scan_digits_def suffix_dropWhile intro: suffix_ConsI split: if_splits)
  have exp: "scan_exp t = Some (i, u) \<Longrightarrow> suffix u t" for t i u
    by (cases t) (auto simp: scan_exp_def scan_digits_def Let_def
        intro!: suffix_ConsI suffix_order.trans [OF suffix_dropWhile] suffix_drop split: if_splits)
  assume "scan_number s = Some (w, r)"
  then obtain n i u j v k where "scan_int (drop n s) = Some (i, u)"
    "scan_frac u = Some (j, v)" "scan_exp v = Some (k, r)"
    by (auto simp: scan_number_def Let_def split: option.splits)
  with int [of "drop n s"] frac [of u] exp [of v] suffix_drop [of n s] show ?thesis
    by (meson suffix_order.trans)
qed

lemma suffix_skip_ws_Cons: "skip_ws s = c # r \<Longrightarrow> suffix r s"
  by (metis suffix_skip_ws suffix_ConsD)

lemmas suffix_trans = suffix_order.trans

lemma suffix_parse:
  "parse_value f s = Some (v, r) \<Longrightarrow> suffix r s"
  "parse_elems f s = Some (vs, r) \<Longrightarrow> suffix r s"
  "parse_members f s = Some (kvs, r) \<Longrightarrow> suffix r s"
proof (induction f s and f s and f s arbitrary: v r and vs r and kvs r
    rule: parse_value_parse_elems_parse_members.induct)
  case (2 f s)
  from "2.prems" obtain c t where ct: "skip_ws s = c # t"
    by (auto split: list.splits)
  have cs: "suffix (c # t) s" using suffix_skip_ws [of s] ct by simp
  from "2.prems" ct consider
      (a) w where "json_unquote t = Some (w, r)"
    | (b) vs where "c = CHR ''[''" "take 1 (skip_ws t) \<noteq> '']''" "parse_elems f t = Some (vs, r)"
    | (c) kvs where "c = CHR 0x7B" "take 1 (skip_ws t) \<noteq> [CHR 0x7D]"
        "parse_members f t = Some (kvs, r)"
    | (d) n where "r = drop n (skip_ws t)" | (e) n where "r = drop n t"
    | (g) w where "scan_number (c # t) = Some (w, r)"
    by (auto split: if_splits)
  then have "suffix r (c # t)"
  proof cases
    case a
    then show ?thesis by (intro suffix_ConsI suffix_json_unquote)
  next
    case b
    with "2.IH"(1) [OF ct _ b(1,2)] show ?thesis by (intro suffix_ConsI) fastforce
  next
    case c
    with "2.IH"(2) [OF ct _ _ c(1,2)] show ?thesis by (intro suffix_ConsI) fastforce
  next
    case d
    then show ?thesis
      by (auto intro!: suffix_ConsI intro: suffix_trans [OF suffix_drop suffix_skip_ws])
  next
    case e
    then show ?thesis by (auto intro!: suffix_ConsI suffix_drop)
  next
    case g
    then show ?thesis by (rule suffix_scan_number)
  qed
  with cs show ?case by (rule suffix_trans [rotated])
next
  case (4 f s)
  from "4.prems" obtain v r1 c t where v: "parse_value f s = Some (v, r1)"
    and ct: "skip_ws r1 = c # t"
    by (auto split: option.splits list.splits)
  have "suffix t s" using "4.IH"(1) [OF v] suffix_skip_ws_Cons [OF ct] by (rule suffix_trans [rotated])
  moreover have "suffix r t" using "4.prems" v ct "4.IH"(2) [OF v refl ct] by (auto split: if_splits)
  ultimately show ?case by (rule suffix_trans [rotated])
next
  case (6 f s)
  from "6.prems"(1) obtain r0 k r1 r2 v r3 c t where q: "skip_ws s = CHR 0x22 # r0"
    and k: "json_unquote r0 = Some (k, r1)" and d: "skip_ws r1 = CHR '':'' # r2"
    and v: "parse_value f r2 = Some (v, r3)" and ct: "skip_ws r3 = c # t"
    by (auto split: option.splits list.splits if_splits)
  have v': "suffix r3 r2" by (rule "6.IH"(1) [OF q _ k refl d _ v]) simp_all
  have "suffix t s"
    using suffix_skip_ws_Cons [OF q] suffix_json_unquote [OF k] suffix_skip_ws_Cons [OF d] v'
      suffix_skip_ws_Cons [OF ct] by (meson suffix_trans)
  moreover have "suffix r t"
    using "6.prems" q k d v ct "6.IH"(2) [OF q _ k refl d _ v refl ct] by (auto split: if_splits)
  ultimately show ?case by (rule suffix_trans [rotated])
qed simp_all

lemma sublist_take: "suffix r s \<Longrightarrow> sublist (take n r) s"
  by (metis sublist_order.order_trans prefix_imp_sublist suffix_imp_sublist take_is_prefix)

lemma raw_members_sublist:
  "raw_members f s = Some ms \<Longrightarrow> (k, v, t) \<in> set ms \<Longrightarrow> sublist t s"
proof (induction f arbitrary: s ms)
  case (Suc f)
  from Suc.prems(1) obtain k1 r1 where u: "json_unquote (drop 1 (skip_ws s)) = Some (k1, r1)"
    by (auto split: option.splits)
  define y where "y = skip_ws (drop 1 (skip_ws r1))"
  from Suc.prems(1) u obtain v1 r2 where p: "parse_value (2 * length y) y = Some (v1, r2)"
    by (auto simp: y_def Let_def split: option.splits)
  have r1: "suffix r1 s" using suffix_json_unquote [OF u] suffix_drop [of 1 "skip_ws s"] suffix_skip_ws [of s]
    by (meson suffix_trans)
  have ys: "suffix y s" unfolding y_def
    using r1 suffix_skip_ws [of "drop 1 (skip_ws r1)"] suffix_drop [of 1 "skip_ws r1"] suffix_skip_ws [of r1]
    by (meson suffix_trans)
  have rs: "suffix (drop 1 (skip_ws r2)) s"
    using suffix_parse(1) [OF p] ys suffix_drop [of 1 "skip_ws r2"] suffix_skip_ws [of r2]
    by (meson suffix_trans)
  from Suc.prems(1) u p obtain ms' where
    "ms = (k1, v1, take (length y - length r2) y) # ms'"
    "ms' = [] \<or> raw_members f (drop 1 (skip_ws r2)) = Some ms'"
    by (auto simp: y_def Let_def split: if_splits)
  with Suc.prems(2) consider "t = take (length y - length r2) y"
    | "raw_members f (drop 1 (skip_ws r2)) = Some ms'" "(k, v, t) \<in> set ms'"
    by auto
  then show ?case
  proof cases
    case 1
    then show ?thesis using sublist_take [OF ys] by simp
  next
    case 2
    from Suc.IH [OF this] suffix_imp_sublist [OF rs] show ?thesis by (rule sublist_order.order_trans)
  qed
qed simp

lemma raw_object_sublist: "raw_object s = Some ms \<Longrightarrow> (k, v, t) \<in> set ms \<Longrightarrow> sublist t s"
  by (auto simp: raw_object_def split: option.splits json.splits if_splits
      dest!: raw_members_sublist intro: sublist_order.order_trans [OF _ suffix_imp_sublist]
        suffix_trans [OF suffix_drop suffix_skip_ws])
section \<open>The verb \<open>%q\<close>\<close>

text \<open>\<open>strconv.Quote\<close>. Unicode's table of printable characters is not modelled: a valid
  multi-byte character is kept as it is, where Go writes the unprintable ones as an escape.\<close>

definition quote_ascii :: "char \<Rightarrow> string" where
  "quote_ascii c =
     (if c = CHR 0x22 \<or> c = CHR 0x5C then [CHR 0x5C, c]
      else if (of_char c :: nat) \<in> {7, 8, 9, 10, 11, 12, 13}
      then [CHR 0x5C, ''abtnvfr'' ! (of_char c - 7)]
      else if (of_char c :: nat) < 32 \<or> (of_char c :: nat) = 127
      then [CHR 0x5C, CHR ''x'', hexdig (of_char c div 16), hexdig (of_char c mod 16)]
      else [c])"

function quote_chars :: "string \<Rightarrow> string" where
  "quote_chars [] = []"
| "quote_chars (c # r) =
     (if (of_char c :: nat) < 128 then quote_ascii c @ quote_chars r
      else if utf8_size (c # r) = 0 then
        [CHR 0x5C, CHR ''x'', hexdig (of_char c div 16), hexdig (of_char c mod 16)] @ quote_chars r
      else take (utf8_size (c # r)) (c # r) @ quote_chars (drop (utf8_size (c # r)) (c # r)))"
  by pat_completeness auto
termination
  by (relation "measure length") auto

definition go_quote :: "string \<Rightarrow> string" where
  "go_quote s = CHR 0x22 # quote_chars s @ [CHR 0x22]"

end
