(* ===== verification/Go_Time.thy ===== *)
theory Go_Time
  imports Go_Decode
begin

text \<open>
  \<open>time.Unix(sec, nsec).UTC().Format(time.RFC3339)\<close>, the one date computation of the
  sources: the proleptic Gregorian date of a number of seconds since 1970, written as
  \<open>YYYY-MM-DDThh:mm:ssZ\<close>. The model holds for every instant whose seconds, shifted to Go's
  internal epoch, fit in 64 bits; the years 1 to 9999 of a protobuf timestamp are far inside.
\<close>

definition unix_seconds :: "int \<Rightarrow> int \<Rightarrow> int" where
  "unix_seconds sec nsec = sec + nsec div 1000000000"

text \<open>Year, month and day of a day number; day 0 is 1970-01-01.\<close>

definition civil_date :: "int \<Rightarrow> int \<times> int \<times> int" where
  "civil_date z =
     (let z' = z + 719468;
          era = z' div 146097;
          doe = z' mod 146097;
          yoe = (doe - doe div 1460 + doe div 36524 - doe div 146096) div 365;
          doy = doe - (365 * yoe + yoe div 4 - yoe div 100);
          mp = (5 * doy + 2) div 153;
          d = doy - (153 * mp + 2) div 5 + 1;
          m = (if mp < 10 then mp + 3 else mp - 9);
          y = yoe + era * 400 + (if m \<le> 2 then 1 else 0)
      in (y, m, d))"

text \<open>Digits padded with zeros to a width, after the sign.\<close>

definition pad :: "nat \<Rightarrow> int \<Rightarrow> string" where
  "pad w i =
     (let ds = nat_digits (nat \<bar>i\<bar>)
      in (if i < 0 then ''-'' else []) @ replicate (w - length ds) (CHR ''0'') @ ds)"

definition format_rfc3339 :: "int \<Rightarrow> string" where
  "format_rfc3339 t =
     (let (y, m, d) = civil_date (t div 86400);
          s = t mod 86400
      in pad 4 y @ ''-'' @ pad 2 m @ ''-'' @ pad 2 d @ ''T''
         @ pad 2 (s div 3600) @ '':'' @ pad 2 (s mod 3600 div 60) @ '':'' @ pad 2 (s mod 60) @ ''Z'')"

lemma is_ascii_simps [simp]:
  "is_ascii []"
  "is_ascii (c # s) \<longleftrightarrow> (of_char c :: nat) < 128 \<and> is_ascii s"
  "is_ascii (s @ t) \<longleftrightarrow> is_ascii s \<and> is_ascii t"
  by (simp_all add: is_ascii_def)

lemma is_ascii_digits [simp]: "is_ascii (nat_digits n)"
  using nat_digits_all [of n] by (auto simp: is_ascii_def list_all_iff is_digit_def)

lemma is_ascii_pad [simp]: "is_ascii (pad w i)"
proof -
  have "is_ascii (replicate n (CHR ''0''))" for n by (induction n) simp_all
  then show ?thesis by (simp add: pad_def Let_def)
qed

text \<open>A timestamp is ASCII, so it survives a round trip through JSON.\<close>

lemma is_ascii_format: "is_ascii (format_rfc3339 t)"
  by (simp add: format_rfc3339_def split_beta Let_def)

lemma valid_utf8_format [simp]: "valid_utf8 (format_rfc3339 t)"
  by (simp add: valid_utf8_ascii is_ascii_format)

lemma epoch_format: "format_rfc3339 0 = ''1970-01-01T00:00:00Z''"
  by code_simp

end
