(* ===== verification/Chaincode.thy ===== *)
theory Chaincode
  imports Go_Time
begin

text \<open>
  The chaincode package \<open>employeeprofilerecord/chaincode\<close>: the asset and its JSON form
  (asset.go), the caller checks (identity.go), the head reader (contract.go), the one
  submit transaction (record\_profile\_section.go) and the three queries (queries.go).
  The Fabric stub, the client-identity library and \<open>uuid.NewSHA1\<close> are third-party code:
  the first two are the record \<open>stub\<close> of functions every operation takes, the last is
  the argument \<open>NewSHA1\<close>. What a transaction leaves behind, its write set and its event,
  is the state \<open>effects\<close>; a query has no access to it.
\<close>

section \<open>The interface to the peer\<close>

record modification =
  IsDelete :: bool
  Value :: string

record stub =
  GetMSPID :: "string res"
  GetID :: "string res"
  CreateCompositeKey :: "string \<Rightarrow> string list \<Rightarrow> string res"
  GetState :: "string \<Rightarrow> string option res"
  GetHistoryForKey :: "string \<Rightarrow> modification res list res"
  GetTxTimestamp :: "(int \<times> int) res"
  GetTxID :: string
  PutState :: "string \<Rightarrow> string \<Rightarrow> unit res"
  SetEvent :: "string \<Rightarrow> string \<Rightarrow> unit res"

record effects =
  writes :: "(string \<times> string) list"
  event :: "(string \<times> string) option"

definition no_effects :: effects where
  "no_effects = \<lparr>writes = [], event = None\<rparr>"

definition put_state :: "stub \<Rightarrow> string \<Rightarrow> string \<Rightarrow> (effects, goerr, unit) act" where
  "put_state st k v =
     (\<lambda>e. case PutState st k v of
            Inl err \<Rightarrow> (Inl err, e)
          | Inr _ \<Rightarrow> (Inr (), e\<lparr>writes := writes e @ [(k, v)]\<rparr>))"

definition set_event :: "stub \<Rightarrow> string \<Rightarrow> string \<Rightarrow> (effects, goerr, unit) act" where
  "set_event st n p =
     (\<lambda>e. case SetEvent st n p of
            Inl err \<Rightarrow> (Inl err, e)
          | Inr _ \<Rightarrow> (Inr (), e\<lparr>event := Some (n, p)\<rparr>))"

section \<open>asset.go\<close>

definition allProfileSections :: "string list" where
  "allProfileSections = [''PERSONAL'', ''EMPLOYMENT'', ''EDUCATION'', ''ADDITIONAL'', ''PAYROLL'']"

fun section_loop :: "string list \<Rightarrow> string \<Rightarrow> bool" where
  "section_loop [] v = False"
| "section_loop (s # ss) v = (if s = v then True else section_loop ss v)"

definition IsValidProfileSection :: "string \<Rightarrow> bool" where
  "IsValidProfileSection v = section_loop allProfileSections v"

definition profileKeyObjectType :: string where
  "profileKeyObjectType = ''profile''"

record EmployeeProfileRecord =
  CanonicalizationVersion :: string
  DataHash :: string
  EmployeeID :: string
  HashAlgo :: string
  IpfsCIDs :: "string list option"
  PrevHash :: string
  ProfileSection :: string
  RecordID :: string
  TenantID :: string
  Timestamp :: string
  UpdatedBy :: string
  Version :: int

definition zero_record :: EmployeeProfileRecord where
  "zero_record =
     \<lparr>CanonicalizationVersion = [], DataHash = [], EmployeeID = [], HashAlgo = [],
      IpfsCIDs = None, PrevHash = [], ProfileSection = [], RecordID = [], TenantID = [],
      Timestamp = [], UpdatedBy = [], Version = 0\<rparr>"

definition record_json :: "EmployeeProfileRecord \<Rightarrow> json" where
  "record_json r =
     JObj [(''canonicalizationVersion'', JStr (CanonicalizationVersion r)),
           (''dataHash'', JStr (DataHash r)),
           (''employeeID'', JStr (EmployeeID r)),
           (''hashAlgo'', JStr (HashAlgo r)),
           (''ipfsCIDs'', strs_json (IpfsCIDs r)),
           (''prevHash'', JStr (PrevHash r)),
           (''profileSection'', JStr (ProfileSection r)),
           (''recordID'', JStr (RecordID r)),
           (''tenantID'', JStr (TenantID r)),
           (''timestamp'', JStr (Timestamp r)),
           (''updatedBy'', JStr (UpdatedBy r)),
           (''version'', JNum (itoa (Version r)))]"

definition record_fields :: "(json, EmployeeProfileRecord) fields" where
  "record_fields =
     [(''canonicalizationVersion'', dec_str (\<lambda>x r. r\<lparr>CanonicalizationVersion := x\<rparr>)),
      (''dataHash'', dec_str (\<lambda>x r. r\<lparr>DataHash := x\<rparr>)),
      (''employeeID'', dec_str (\<lambda>x r. r\<lparr>EmployeeID := x\<rparr>)),
      (''hashAlgo'', dec_str (\<lambda>x r. r\<lparr>HashAlgo := x\<rparr>)),
      (''ipfsCIDs'', dec_strs (\<lambda>x r. r\<lparr>IpfsCIDs := x\<rparr>)),
      (''prevHash'', dec_str (\<lambda>x r. r\<lparr>PrevHash := x\<rparr>)),
      (''profileSection'', dec_str (\<lambda>x r. r\<lparr>ProfileSection := x\<rparr>)),
      (''recordID'', dec_str (\<lambda>x r. r\<lparr>RecordID := x\<rparr>)),
      (''tenantID'', dec_str (\<lambda>x r. r\<lparr>TenantID := x\<rparr>)),
      (''timestamp'', dec_str (\<lambda>x r. r\<lparr>Timestamp := x\<rparr>)),
      (''updatedBy'', dec_str (\<lambda>x r. r\<lparr>UpdatedBy := x\<rparr>)),
      (''version'', dec_int (\<lambda>x r. r\<lparr>Version := x\<rparr>))]"

definition marshal_record :: "EmployeeProfileRecord \<Rightarrow> string" where
  "marshal_record r = json_print (record_json r)"

text \<open>\<open>json.Unmarshal(data, &rec)\<close>; \<^const>\<open>None\<close> is its error.\<close>

definition unmarshal_record :: "string \<Rightarrow> EmployeeProfileRecord option" where
  "unmarshal_record data =
     (case json_unmarshal data of
        None \<Rightarrow> None
      | Some j \<Rightarrow> decode_struct record_fields j zero_record)"

record RecordProfileSectionResult =
  Result_RecordID :: string
  Result_Timestamp :: string
  Result_Version :: int

record ProfileSectionHead =
  Head_DataHash :: string
  Head_Timestamp :: string
  Head_UpdatedBy :: string
  Head_Version :: int

record ProfileVersionEntry =
  Entry_CanonicalizationVersion :: string
  Entry_DataHash :: string
  Entry_HashAlgo :: string
  Entry_IpfsCIDs :: "string list option"
  Entry_PrevHash :: string
  Entry_RecordID :: string
  Entry_Timestamp :: string
  Entry_UpdatedBy :: string
  Entry_Version :: int

record ProfileSectionSummaryEntry =
  Summary_DataHash :: string
  Summary_ProfileSection :: string
  Summary_Timestamp :: string
  Summary_UpdatedBy :: string
  Summary_Version :: int

section \<open>errors.go\<close>

definition ErrRecordNotFound :: goerr where
  "ErrRecordNotFound = Sentinel ''employeeprofilerecord: profile section record not found''"

definition ErrStaleChainReference :: goerr where
  "ErrStaleChainReference =
     Sentinel ''employeeprofilerecord: stale chain reference (prevHash does not match current head)''"

definition ErrUnauthorized :: goerr where
  "ErrUnauthorized = Sentinel ''employeeprofilerecord: caller identity failed MSP/ABAC verification''"

definition ErrInvalidArgument :: goerr where
  "ErrInvalidArgument = Sentinel ''employeeprofilerecord: invalid argument''"

section \<open>identity.go\<close>

definition mspOrg1 :: string where "mspOrg1 = ''Org1MSP''"
definition mspOrg3 :: string where "mspOrg3 = ''Org3MSP''"
definition orgClientPrefix :: string where "orgClientPrefix = ''OrgClient-''"
definition orgClientSuffix :: string where "orgClientSuffix = ''MSP''"

definition isOrgClientMSP :: "string \<Rightarrow> bool" where
  "isOrgClientMSP mspID \<longleftrightarrow>
     has_prefix mspID orgClientPrefix \<and> has_suffix mspID orgClientSuffix
     \<and> length mspID > length orgClientPrefix + length orgClientSuffix"

definition callerMSPID :: "stub \<Rightarrow> string res" where
  "callerMSPID st =
     (case GetMSPID st of
        Inl err \<Rightarrow>
          Inl (Wrapf [] ErrUnauthorized ('': cannot determine caller MSP ID: '' @ error_text err))
      | Inr mspID \<Rightarrow>
          if mspID = [] then Inl (Wrapf [] ErrUnauthorized '': caller MSP ID is empty'')
          else (case GetID st of
                  Inl err \<Rightarrow>
                    Inl (Wrapf [] ErrUnauthorized
                           ('': cannot determine caller identity: '' @ error_text err))
                | Inr _ \<Rightarrow> Inr mspID))"

definition authorizeEvaluate :: "stub \<Rightarrow> string res" where
  "authorizeEvaluate st =
     (case callerMSPID st of
        Inl err \<Rightarrow> Inl err
      | Inr mspID \<Rightarrow>
          if mspID = mspOrg1 \<or> mspID = mspOrg3 \<or> isOrgClientMSP mspID then Inr mspID
          else Inl (Wrapf [] ErrUnauthorized
                      ('': MSP '' @ go_quote mspID @ '' is not authorized to read this contract'')))"

definition authorizeSubmit :: "stub \<Rightarrow> string res" where
  "authorizeSubmit st =
     (case callerMSPID st of
        Inl err \<Rightarrow> Inl err
      | Inr mspID \<Rightarrow>
          if mspID = mspOrg1 \<or> isOrgClientMSP mspID then Inr mspID
          else Inl (Wrapf [] ErrUnauthorized
                      ('': MSP '' @ go_quote mspID @ '' is not authorized to submit a write'')))"

section \<open>contract.go\<close>

text \<open>The head, if there is one, and the key. Go also returns the key beside an error; no
  caller reads it then.\<close>

definition readHead :: "stub \<Rightarrow> string \<Rightarrow> string \<Rightarrow> (EmployeeProfileRecord option \<times> string) res" where
  "readHead st employeeID profileSection =
     (case CreateCompositeKey st profileKeyObjectType [employeeID, profileSection] of
        Inl err \<Rightarrow> Inl (wrap ''failed to build composite key'' err)
      | Inr key \<Rightarrow>
          (case GetState st key of
             Inl err \<Rightarrow> Inl (wrap ''failed to read world state'' err)
           | Inr None \<Rightarrow> Inr (None, key)
           | Inr (Some data) \<Rightarrow>
               (case unmarshal_record data of
                  None \<Rightarrow>
                    Inl (wrap (''failed to unmarshal stored record for key '' @ go_quote key)
                           (Plain ''json: cannot unmarshal''))
                | Some rec \<Rightarrow> Inr (Some rec, key))))"

section \<open>record\_profile\_section.go\<close>

definition NameSpaceOID :: string where
  "NameSpaceOID =
     map char_of [0x6b, 0xa7, 0xb8, 0x12, 0x9d, 0xad, 0x11, 0xd1,
                  0x80, 0xb4, 0x00, 0xc0, 0x4f, 0xd4, 0x30, 0xc8 :: nat]"

definition deterministicRecordID :: "(string \<Rightarrow> string \<Rightarrow> string) \<Rightarrow> string \<Rightarrow> string" where
  "deterministicRecordID NewSHA1 txID = NewSHA1 NameSpaceOID txID"

fun required_loop :: "string list \<Rightarrow> (string \<rightharpoonup> string) \<Rightarrow> unit res" where
  "required_loop [] m = Inr ()"
| "required_loop (n # ns) m =
     (if m n = Some [] then Inl (Wrapf [] ErrInvalidArgument ('': '' @ n @ '' is required''))
      else required_loop ns m)"

definition requiredStringArgs :: "(string \<rightharpoonup> string) \<Rightarrow> unit res" where
  "requiredStringArgs m =
     required_loop [''tenantId'', ''employeeID'', ''dataHash'', ''updatedBy'',
                    ''canonicalizationVersion'', ''hashAlgo''] m"

record submit_args =
  arg_tenantId :: string
  arg_employeeID :: string
  arg_profileSection :: string
  arg_dataHash :: string
  arg_prevHash :: string
  arg_updatedBy :: string
  arg_ipfsCIDs :: "string list option"
  arg_canonicalizationVersion :: string
  arg_hashAlgo :: string
  arg_clientTimestamp :: string

definition invalid_section :: "string \<Rightarrow> goerr" where
  "invalid_section profileSection =
     Wrapf [] ErrInvalidArgument
       ('': profileSection '' @ go_quote profileSection
        @ '' is not one of the five ratified values'')"

definition required_fields :: "submit_args \<Rightarrow> string \<rightharpoonup> string" where
  "required_fields a =
     [''tenantId'' \<mapsto> arg_tenantId a, ''employeeID'' \<mapsto> arg_employeeID a,
      ''dataHash'' \<mapsto> arg_dataHash a, ''updatedBy'' \<mapsto> arg_updatedBy a,
      ''canonicalizationVersion'' \<mapsto> arg_canonicalizationVersion a,
      ''hashAlgo'' \<mapsto> arg_hashAlgo a]"

text \<open>Behavior step 5: the chain check and the next version.\<close>

definition next_version :: "EmployeeProfileRecord option \<Rightarrow> string \<Rightarrow> int res" where
  "next_version head prevHash =
     (case head of
        None \<Rightarrow>
          if prevHash \<noteq> [] then
            Inl (Wrapf [] ErrStaleChainReference
                   ('': no existing record for this key, but prevHash '' @ go_quote prevHash
                    @ '' was supplied (expected '' @ [CHR 0x22, CHR 0x22] @ '')''))
          else Inr 1
      | Some h \<Rightarrow>
          if prevHash \<noteq> DataHash h then
            Inl (Wrapf [] ErrStaleChainReference
                   ('': prevHash '' @ go_quote prevHash
                    @ '' does not match current head dataHash '' @ go_quote (DataHash h)))
          else Inr (wrap64 (Version h + 1)))"

definition write_version ::
  "(string \<Rightarrow> string \<Rightarrow> string) \<Rightarrow> stub \<Rightarrow> submit_args \<Rightarrow> string list option \<Rightarrow> string \<Rightarrow> int
   \<Rightarrow> (effects, goerr, RecordProfileSectionResult) act" where
  "write_version NewSHA1 st a ipfsCIDs key nextVersion =
     bindE (mapErr (wrap ''failed to read ledger transaction timestamp'')
              (liftE (GetTxTimestamp st))) (\<lambda>(seconds, nanos).
     let timestamp = format_rfc3339 (unix_seconds seconds nanos);
         recordID = deterministicRecordID NewSHA1 (GetTxID st);
         record =
           \<lparr>CanonicalizationVersion = arg_canonicalizationVersion a, DataHash = arg_dataHash a,
            EmployeeID = arg_employeeID a, HashAlgo = arg_hashAlgo a, IpfsCIDs = ipfsCIDs,
            PrevHash = arg_prevHash a, ProfileSection = arg_profileSection a,
            RecordID = recordID, TenantID = arg_tenantId a, Timestamp = timestamp,
            UpdatedBy = arg_updatedBy a, Version = nextVersion\<rparr>;
         recordJSON = marshal_record record
     in bindE (mapErr (wrap ''failed to write world state'') (put_state st key recordJSON)) (\<lambda>_.
        bindE (mapErr (wrap ''failed to set chaincode event'')
                 (set_event st ''RecordProfileSection'' recordJSON)) (\<lambda>_.
        returnE \<lparr>Result_RecordID = recordID, Result_Timestamp = timestamp,
                 Result_Version = nextVersion\<rparr>)))"

definition RecordProfileSection ::
  "(string \<Rightarrow> string \<Rightarrow> string) \<Rightarrow> stub \<Rightarrow> submit_args
   \<Rightarrow> (effects, goerr, RecordProfileSectionResult) act" where
  "RecordProfileSection NewSHA1 st a =
     (if \<not> IsValidProfileSection (arg_profileSection a)
      then throwE (invalid_section (arg_profileSection a))
      else
        bindE (liftE (authorizeSubmit st)) (\<lambda>_.
        bindE (liftE (requiredStringArgs (required_fields a))) (\<lambda>_.
        let ipfsCIDs = (case arg_ipfsCIDs a of None \<Rightarrow> Some [] | Some cs \<Rightarrow> Some cs) in
        bindE (liftE (readHead st (arg_employeeID a) (arg_profileSection a))) (\<lambda>(head, key).
        case head of
          Some h \<Rightarrow>
            if DataHash h = arg_dataHash a then
              returnE \<lparr>Result_RecordID = RecordID h, Result_Timestamp = Timestamp h,
                       Result_Version = Version h\<rparr>
            else bindE (liftE (next_version head (arg_prevHash a)))
                   (write_version NewSHA1 st a ipfsCIDs key)
        | None \<Rightarrow>
            bindE (liftE (next_version head (arg_prevHash a)))
              (write_version NewSHA1 st a ipfsCIDs key)))))"

section \<open>queries.go\<close>

definition GetProfileSectionRecord :: "stub \<Rightarrow> string \<Rightarrow> string \<Rightarrow> string \<Rightarrow> ProfileSectionHead res" where
  "GetProfileSectionRecord st tenantId employeeID profileSection =
     (case authorizeEvaluate st of
        Inl err \<Rightarrow> Inl err
      | Inr _ \<Rightarrow>
          if \<not> IsValidProfileSection profileSection then Inl (invalid_section profileSection)
          else
            (case readHead st employeeID profileSection of
               Inl err \<Rightarrow> Inl err
             | Inr (None, _) \<Rightarrow> Inl ErrRecordNotFound
             | Inr (Some h, _) \<Rightarrow>
                 Inr \<lparr>Head_DataHash = DataHash h, Head_Timestamp = Timestamp h,
                      Head_UpdatedBy = UpdatedBy h, Head_Version = Version h\<rparr>))"

definition version_entry :: "EmployeeProfileRecord \<Rightarrow> ProfileVersionEntry" where
  "version_entry rec =
     \<lparr>Entry_CanonicalizationVersion = CanonicalizationVersion rec,
      Entry_DataHash = DataHash rec, Entry_HashAlgo = HashAlgo rec,
      Entry_IpfsCIDs = IpfsCIDs rec, Entry_PrevHash = PrevHash rec,
      Entry_RecordID = RecordID rec, Entry_Timestamp = Timestamp rec,
      Entry_UpdatedBy = UpdatedBy rec, Entry_Version = Version rec\<rparr>"

fun history_loop :: "modification res list \<Rightarrow> ProfileVersionEntry list res" where
  "history_loop [] = Inr []"
| "history_loop (m # ms) =
     (case m of
        Inl err \<Rightarrow> Inl (wrap ''failed to iterate key history'' err)
      | Inr md \<Rightarrow>
          if IsDelete md \<or> length (Value md) = 0 then history_loop ms
          else (case unmarshal_record (Value md) of
                  None \<Rightarrow> Inl (wrap ''failed to unmarshal history entry''
                                 (Plain ''json: cannot unmarshal''))
                | Some rec \<Rightarrow> map_sum id ((#) (version_entry rec)) (history_loop ms)))"

text \<open>\<open>sort.Slice\<close> need not be stable; \<open>history_sorted_unique\<close> below shows that with
  distinct versions every sorting gives this list.\<close>

definition GetProfileHistory :: "stub \<Rightarrow> string \<Rightarrow> string \<Rightarrow> string \<Rightarrow> ProfileVersionEntry list res" where
  "GetProfileHistory st tenantId employeeID profileSection =
     (case authorizeEvaluate st of
        Inl err \<Rightarrow> Inl err
      | Inr _ \<Rightarrow>
          if \<not> IsValidProfileSection profileSection then Inl (invalid_section profileSection)
          else
            (case CreateCompositeKey st profileKeyObjectType [employeeID, profileSection] of
               Inl err \<Rightarrow> Inl (wrap ''failed to build composite key'' err)
             | Inr key \<Rightarrow>
                 (case GetHistoryForKey st key of
                    Inl err \<Rightarrow> Inl (wrap ''failed to read key history'' err)
                  | Inr ms \<Rightarrow> map_sum id (sort_key Entry_Version) (history_loop ms))))"

definition summary_entry :: "string \<Rightarrow> EmployeeProfileRecord option \<Rightarrow> ProfileSectionSummaryEntry" where
  "summary_entry section head =
     (case head of
        None \<Rightarrow>
          \<lparr>Summary_DataHash = [], Summary_ProfileSection = section, Summary_Timestamp = [],
           Summary_UpdatedBy = [], Summary_Version = 0\<rparr>
      | Some h \<Rightarrow>
          \<lparr>Summary_DataHash = DataHash h, Summary_ProfileSection = section,
           Summary_Timestamp = Timestamp h, Summary_UpdatedBy = UpdatedBy h,
           Summary_Version = Version h\<rparr>)"

fun summary_loop :: "stub \<Rightarrow> string \<Rightarrow> string list \<Rightarrow> ProfileSectionSummaryEntry list res" where
  "summary_loop st employeeID [] = Inr []"
| "summary_loop st employeeID (section # ss) =
     (case readHead st employeeID section of
        Inl err \<Rightarrow> Inl err
      | Inr (head, _) \<Rightarrow>
          map_sum id ((#) (summary_entry section head)) (summary_loop st employeeID ss))"

definition GetEmployeeProfileSummary ::
  "stub \<Rightarrow> string \<Rightarrow> string \<Rightarrow> ProfileSectionSummaryEntry list res" where
  "GetEmployeeProfileSummary st tenantId employeeID =
     (case authorizeEvaluate st of
        Inl err \<Rightarrow> Inl err
      | Inr _ \<Rightarrow> summary_loop st employeeID allProfileSections)"

section \<open>Facts about the asset and the caller checks\<close>

lemma IsValidProfileSection_iff: "IsValidProfileSection v \<longleftrightarrow> v \<in> set allProfileSections"
proof -
  have "section_loop ss v \<longleftrightarrow> v \<in> set ss" for ss by (induction ss) auto
  then show ?thesis by (simp add: IsValidProfileSection_def)
qed

definition wf_record :: "EmployeeProfileRecord \<Rightarrow> bool" where
  "wf_record r \<longleftrightarrow>
     list_all valid_utf8 [CanonicalizationVersion r, DataHash r, EmployeeID r, HashAlgo r,
       PrevHash r, ProfileSection r, RecordID r, TenantID r, Timestamp r, UpdatedBy r]
     \<and> list_all valid_utf8 (case IpfsCIDs r of None \<Rightarrow> [] | Some cs \<Rightarrow> cs)
     \<and> is_int64 (Version r)"

lemma wf_json_strs: "wf_json (strs_json xs) \<longleftrightarrow> list_all valid_utf8 (case xs of None \<Rightarrow> [] | Some ys \<Rightarrow> ys)"
  by (auto simp: strs_json_def list_all_iff split: option.splits)

lemma wf_record_json: "wf_record r \<Longrightarrow> wf_json (record_json r)"
  by (simp add: wf_record_def record_json_def wf_json_strs)

lemma decode_record_json:
  "is_int64 (Version r) \<Longrightarrow> decode_struct record_fields (record_json r) zero_record = Some r"
  by (simp add: record_json_def record_fields_def zero_record_def)

lemma record_roundtrip: "wf_record r \<Longrightarrow> unmarshal_record (marshal_record r) = Some r"
  by (simp add: unmarshal_record_def marshal_record_def parse_print wf_record_json
      decode_record_json wf_record_def)

lemma marshal_record_nonempty [simp]: "marshal_record r \<noteq> []"
  by (simp add: marshal_record_def record_json_def)

lemma callerMSPID_Inr:
  "callerMSPID st = Inr m \<longleftrightarrow> GetMSPID st = Inr m \<and> m \<noteq> [] \<and> (\<exists>i. GetID st = Inr i)"
  by (auto simp: callerMSPID_def split: sum.splits if_splits)

lemma callerMSPID_Inl: "callerMSPID st = Inl e \<Longrightarrow> errors_is e ErrUnauthorized"
  by (auto simp: callerMSPID_def split: sum.splits if_splits)

lemma isOrgClientMSP_iff:
  "isOrgClientMSP m \<longleftrightarrow> (\<exists>t. t \<noteq> [] \<and> m = orgClientPrefix @ t @ orgClientSuffix)"
proof
  assume m: "isOrgClientMSP m"
  then obtain u where u: "m = orgClientPrefix @ u"
    by (auto simp: isOrgClientMSP_def has_prefix_iff prefix_def)
  from m have "suffix orgClientSuffix (orgClientPrefix @ u)" "length orgClientSuffix < length u"
    by (auto simp: isOrgClientMSP_def has_suffix_iff u)
  then have "suffix orgClientSuffix u"
    by (meson less_imp_le suffix_length_suffix suffix_appendI suffix_def)
  then obtain t where "u = t @ orgClientSuffix" by (auto simp: suffix_def)
  with u \<open>length orgClientSuffix < length u\<close>
  show "\<exists>t. t \<noteq> [] \<and> m = orgClientPrefix @ t @ orgClientSuffix" by auto
next
  assume "\<exists>t. t \<noteq> [] \<and> m = orgClientPrefix @ t @ orgClientSuffix"
  then obtain t where "t \<noteq> []" "m = orgClientPrefix @ t @ orgClientSuffix" by blast
  then show "isOrgClientMSP m"
    by (simp add: isOrgClientMSP_def)
      (metis append.assoc has_suffix_append)
qed

lemma isOrgClientMSP_platform [simp]: "\<not> isOrgClientMSP mspOrg1" "\<not> isOrgClientMSP mspOrg3"
  by (simp_all add: isOrgClientMSP_def mspOrg1_def mspOrg3_def orgClientPrefix_def has_prefix_def)

lemma authorizeSubmit_Inr:
  "authorizeSubmit st = Inr m \<longleftrightarrow>
     callerMSPID st = Inr m \<and> (m = mspOrg1 \<or> isOrgClientMSP m)"
  by (auto simp: authorizeSubmit_def split: sum.splits if_splits)

lemma authorizeEvaluate_Inr:
  "authorizeEvaluate st = Inr m \<longleftrightarrow>
     callerMSPID st = Inr m \<and> (m = mspOrg1 \<or> m = mspOrg3 \<or> isOrgClientMSP m)"
  by (auto simp: authorizeEvaluate_def split: sum.splits if_splits)

lemma authorize_Inl:
  "authorizeSubmit st = Inl e \<Longrightarrow> errors_is e ErrUnauthorized"
  "authorizeEvaluate st = Inl e \<Longrightarrow> errors_is e ErrUnauthorized"
  by (auto simp: authorizeSubmit_def authorizeEvaluate_def dest: callerMSPID_Inl
      split: sum.splits if_splits)

lemma required_loop_Inl: "required_loop ns m = Inl e \<Longrightarrow> errors_is e ErrInvalidArgument"
  by (induction ns) (auto split: if_splits)

lemma required_loop_Inr: "required_loop ns m = Inr u \<longleftrightarrow> (\<forall>n \<in> set ns. m n \<noteq> Some [])"
  by (induction ns) (auto split: if_splits)

lemma requiredStringArgs_Inr:
  "requiredStringArgs (required_fields a) = Inr u \<longleftrightarrow>
     arg_tenantId a \<noteq> [] \<and> arg_employeeID a \<noteq> [] \<and> arg_dataHash a \<noteq> [] \<and> arg_updatedBy a \<noteq> []
     \<and> arg_canonicalizationVersion a \<noteq> [] \<and> arg_hashAlgo a \<noteq> []"
  by (auto simp: requiredStringArgs_def required_loop_Inr required_fields_def)

section \<open>What RecordProfileSection does\<close>

text \<open>The guards before any state is read.\<close>

definition submit_guard :: "stub \<Rightarrow> submit_args \<Rightarrow> unit res" where
  "submit_guard st a =
     (if \<not> IsValidProfileSection (arg_profileSection a)
      then Inl (invalid_section (arg_profileSection a))
      else case authorizeSubmit st of
             Inl e \<Rightarrow> Inl e
           | Inr _ \<Rightarrow> requiredStringArgs (required_fields a))"

definition head_result :: "EmployeeProfileRecord \<Rightarrow> RecordProfileSectionResult" where
  "head_result h =
     \<lparr>Result_RecordID = RecordID h, Result_Timestamp = Timestamp h, Result_Version = Version h\<rparr>"

text \<open>The record that a successful submission writes.\<close>

definition new_record ::
  "(string \<Rightarrow> string \<Rightarrow> string) \<Rightarrow> stub \<Rightarrow> submit_args \<Rightarrow> int \<times> int \<Rightarrow> int \<Rightarrow> EmployeeProfileRecord" where
  "new_record NewSHA1 st a ts v =
     \<lparr>CanonicalizationVersion = arg_canonicalizationVersion a, DataHash = arg_dataHash a,
      EmployeeID = arg_employeeID a, HashAlgo = arg_hashAlgo a,
      IpfsCIDs = Some (case arg_ipfsCIDs a of None \<Rightarrow> [] | Some cs \<Rightarrow> cs),
      PrevHash = arg_prevHash a, ProfileSection = arg_profileSection a,
      RecordID = deterministicRecordID NewSHA1 (GetTxID st), TenantID = arg_tenantId a,
      Timestamp = format_rfc3339 (unix_seconds (fst ts) (snd ts)),
      UpdatedBy = arg_updatedBy a, Version = v\<rparr>"

lemma RecordProfileSection_guard:
  "submit_guard st a = Inl e \<Longrightarrow> RecordProfileSection NewSHA1 st a s = (Inl e, s)"
  by (auto simp: RecordProfileSection_def Let_def submit_guard_def split: if_splits sum.splits)

lemma RecordProfileSection_read:
  "submit_guard st a = Inr u \<Longrightarrow>
   readHead st (arg_employeeID a) (arg_profileSection a) = Inl e \<Longrightarrow>
   RecordProfileSection NewSHA1 st a s = (Inl e, s)"
  by (auto simp: RecordProfileSection_def Let_def submit_guard_def split: if_splits sum.splits)

lemma RecordProfileSection_noop:
  "submit_guard st a = Inr u \<Longrightarrow>
   readHead st (arg_employeeID a) (arg_profileSection a) = Inr (Some h, key) \<Longrightarrow>
   DataHash h = arg_dataHash a \<Longrightarrow>
   RecordProfileSection NewSHA1 st a s = (Inr (head_result h), s)"
  by (auto simp: RecordProfileSection_def Let_def submit_guard_def head_result_def
      split: if_splits sum.splits)

lemma RecordProfileSection_stale:
  "submit_guard st a = Inr u \<Longrightarrow>
   readHead st (arg_employeeID a) (arg_profileSection a) = Inr (hd0, key) \<Longrightarrow>
   (\<And>h. hd0 = Some h \<Longrightarrow> DataHash h \<noteq> arg_dataHash a) \<Longrightarrow>
   next_version hd0 (arg_prevHash a) = Inl e \<Longrightarrow>
   RecordProfileSection NewSHA1 st a s = (Inl e, s)"
  by (auto simp: RecordProfileSection_def Let_def submit_guard_def split: if_splits sum.splits option.splits)

lemma RecordProfileSection_write:
  "submit_guard st a = Inr u \<Longrightarrow>
   readHead st (arg_employeeID a) (arg_profileSection a) = Inr (hd0, key) \<Longrightarrow>
   (\<And>h. hd0 = Some h \<Longrightarrow> DataHash h \<noteq> arg_dataHash a) \<Longrightarrow>
   next_version hd0 (arg_prevHash a) = Inr v \<Longrightarrow>
   RecordProfileSection NewSHA1 st a s =
     write_version NewSHA1 st a (Some (case arg_ipfsCIDs a of None \<Rightarrow> [] | Some cs \<Rightarrow> cs)) key v s"
  by (auto simp: RecordProfileSection_def Let_def submit_guard_def split: if_splits sum.splits option.splits)

lemma write_version_eq:
  "write_version NewSHA1 st a (Some (case arg_ipfsCIDs a of None \<Rightarrow> [] | Some cs \<Rightarrow> cs)) key v s =
     (case GetTxTimestamp st of
        Inl e \<Rightarrow> (Inl (wrap ''failed to read ledger transaction timestamp'' e), s)
      | Inr ts \<Rightarrow>
          (let rec = new_record NewSHA1 st a ts v; js = marshal_record rec in
           case PutState st key js of
             Inl e \<Rightarrow> (Inl (wrap ''failed to write world state'' e), s)
           | Inr _ \<Rightarrow>
               (case SetEvent st ''RecordProfileSection'' js of
                  Inl e \<Rightarrow> (Inl (wrap ''failed to set chaincode event'' e),
                            s\<lparr>writes := writes s @ [(key, js)]\<rparr>)
                | Inr _ \<Rightarrow> (Inr (head_result rec),
                             s\<lparr>writes := writes s @ [(key, js)],
                               event := Some (''RecordProfileSection'', js)\<rparr>))))"
  by (simp add: write_version_def new_record_def head_result_def bindE_def mapErr_def
      put_state_def set_event_def Let_def split: sum.splits prod.splits)

lemma write_version_outcomes:
  assumes "write_version NewSHA1 st a
    (Some (case arg_ipfsCIDs a of None \<Rightarrow> [] | Some cs \<Rightarrow> cs)) key v s = (r, s')"
  obtains
    (failed) e where "r = Inl e" "s' = s"
  | (event) e e0 ts where "r = Inl e"
      "SetEvent st ''RecordProfileSection'' (marshal_record (new_record NewSHA1 st a ts v)) = Inl e0"
      "s' = s\<lparr>writes := writes s @ [(key, marshal_record (new_record NewSHA1 st a ts v))]\<rparr>"
  | (written) ts where "GetTxTimestamp st = Inr ts"
      "r = Inr (head_result (new_record NewSHA1 st a ts v))"
      "s' = s\<lparr>writes := writes s @ [(key, marshal_record (new_record NewSHA1 st a ts v))],
              event := Some (''RecordProfileSection'',
                             marshal_record (new_record NewSHA1 st a ts v))\<rparr>"
proof (cases "GetTxTimestamp st")
  case (Inl e)
  with assms show ?thesis by (intro failed) (auto simp: write_version_eq)
next
  case ts: (Inr ts)
  let ?js = "marshal_record (new_record NewSHA1 st a ts v)"
  show ?thesis
  proof (cases "PutState st key ?js")
    case (Inl e)
    with assms ts show ?thesis by (intro failed) (auto simp: write_version_eq Let_def)
  next
    case put: (Inr u)
    show ?thesis
    proof (cases "SetEvent st ''RecordProfileSection'' ?js")
      case (Inl e)
      with assms ts put show ?thesis by (intro event) (auto simp: write_version_eq Let_def)
    next
      case (Inr u')
      with assms ts put show ?thesis by (intro written) (auto simp: write_version_eq Let_def)
    qed
  qed
qed

lemma next_version_Inl: "next_version hd0 p = Inl e \<Longrightarrow> errors_is e ErrStaleChainReference"
  by (auto simp: next_version_def split: option.splits if_splits)

lemma next_version_Inr:
  "next_version hd0 p = Inr v \<longleftrightarrow>
     (case hd0 of None \<Rightarrow> p = [] \<and> v = 1 | Some h \<Rightarrow> p = DataHash h \<and> v = wrap64 (Version h + 1))"
  by (auto simp: next_version_def split: option.splits)

text \<open>The outcomes of a submission, as one elimination rule.\<close>

lemma RecordProfileSection_outcomes:
  assumes "RecordProfileSection NewSHA1 st a s = (r, s')"
  obtains
    (guard) e where "submit_guard st a = Inl e" "r = Inl e" "s' = s"
  | (read) e where "submit_guard st a = Inr ()"
      "readHead st (arg_employeeID a) (arg_profileSection a) = Inl e" "r = Inl e" "s' = s"
  | (noop) h key where "submit_guard st a = Inr ()"
      "readHead st (arg_employeeID a) (arg_profileSection a) = Inr (Some h, key)"
      "DataHash h = arg_dataHash a" "r = Inr (head_result h)" "s' = s"
  | (stale) hd0 key e where "submit_guard st a = Inr ()"
      "readHead st (arg_employeeID a) (arg_profileSection a) = Inr (hd0, key)"
      "\<And>h. hd0 = Some h \<Longrightarrow> DataHash h \<noteq> arg_dataHash a"
      "next_version hd0 (arg_prevHash a) = Inl e" "r = Inl e" "s' = s"
  | (failed) e where "r = Inl e" "s' = s"
  | (event) hd0 key e e0 ts v where "submit_guard st a = Inr ()"
      "readHead st (arg_employeeID a) (arg_profileSection a) = Inr (hd0, key)" "r = Inl e"
      "SetEvent st ''RecordProfileSection'' (marshal_record (new_record NewSHA1 st a ts v)) = Inl e0"
      "s' = s\<lparr>writes := writes s @ [(key, marshal_record (new_record NewSHA1 st a ts v))]\<rparr>"
  | (written) hd0 key ts v where "submit_guard st a = Inr ()"
      "readHead st (arg_employeeID a) (arg_profileSection a) = Inr (hd0, key)"
      "\<And>h. hd0 = Some h \<Longrightarrow> DataHash h \<noteq> arg_dataHash a"
      "next_version hd0 (arg_prevHash a) = Inr v" "GetTxTimestamp st = Inr ts"
      "r = Inr (head_result (new_record NewSHA1 st a ts v))"
      "s' = s\<lparr>writes := writes s @ [(key, marshal_record (new_record NewSHA1 st a ts v))],
              event := Some (''RecordProfileSection'',
                             marshal_record (new_record NewSHA1 st a ts v))\<rparr>"
proof (cases "submit_guard st a")
  case (Inl e)
  with assms show ?thesis using guard [of e] RecordProfileSection_guard by simp
next
  case g: (Inr u)
  show ?thesis
  proof (cases "readHead st (arg_employeeID a) (arg_profileSection a)")
    case (Inl e)
    with assms g show ?thesis using read [of e] RecordProfileSection_read by simp
  next
    case (Inr hk)
    obtain hd0 key where hk: "hk = (hd0, key)" by (cases hk)
    show ?thesis
    proof (cases "\<exists>h. hd0 = Some h \<and> DataHash h = arg_dataHash a")
      case True
      with assms g Inr hk show ?thesis using noop RecordProfileSection_noop by fastforce
    next
      case False
      then have fresh: "DataHash h \<noteq> arg_dataHash a" if "hd0 = Some h" for h using that by auto
      show ?thesis
      proof (cases "next_version hd0 (arg_prevHash a)")
        case (Inl e)
        with assms g Inr hk fresh show ?thesis
          using stale [of hd0 key e] RecordProfileSection_stale [of st a u hd0 key e NewSHA1 s] by simp
      next
        case nv: (Inr v)
        from RecordProfileSection_write [of st a u hd0 key v NewSHA1 s] g Inr hk fresh nv assms
        have "write_version NewSHA1 st a
            (Some (case arg_ipfsCIDs a of None \<Rightarrow> [] | Some cs \<Rightarrow> cs)) key v s = (r, s')" by simp
        then show ?thesis
        proof (rule write_version_outcomes)
          fix ts
          assume "GetTxTimestamp st = Inr ts"
            and "r = Inr (head_result (new_record NewSHA1 st a ts v))"
            and "s' = s\<lparr>writes := writes s @ [(key, marshal_record (new_record NewSHA1 st a ts v))],
              event := Some (''RecordProfileSection'',
                             marshal_record (new_record NewSHA1 st a ts v))\<rparr>"
          with g Inr hk fresh nv show ?thesis by (intro written [of hd0 key v ts]) simp_all
        next
          fix e e0 ts
          assume "r = Inl e" and "SetEvent st ''RecordProfileSection''
              (marshal_record (new_record NewSHA1 st a ts v)) = Inl e0"
            and "s' = s\<lparr>writes := writes s @ [(key, marshal_record (new_record NewSHA1 st a ts v))]\<rparr>"
          with g Inr hk show ?thesis by (intro event [of hd0 key e ts v e0]) simp_all
        qed (rule failed)
      qed
    qed
  qed
qed

section \<open>Properties\<close>

text \<open>C4: A submission changes the world state only for a caller whose identity is readable
  and whose organisation is the platform or an enterprise client, with one of the five
  sections and none of the six required arguments (tenant, employee, data hash, updating
  user, canonicalization version, hash algorithm) empty; then it writes exactly one key, the composite key
  of the employee and the section.\<close>

theorem submit_writes_only_authorized:
  assumes "RecordProfileSection NewSHA1 st a no_effects = (r, eff)" and "writes eff \<noteq> []"
  shows "\<exists>m i k v. GetMSPID st = Inr m \<and> GetID st = Inr i
    \<and> (m = ''Org1MSP'' \<or> (\<exists>t. t \<noteq> [] \<and> m = ''OrgClient-'' @ t @ ''MSP''))
    \<and> arg_profileSection a \<in> set allProfileSections
    \<and> arg_tenantId a \<noteq> [] \<and> arg_employeeID a \<noteq> [] \<and> arg_dataHash a \<noteq> []
    \<and> arg_updatedBy a \<noteq> [] \<and> arg_canonicalizationVersion a \<noteq> [] \<and> arg_hashAlgo a \<noteq> []
    \<and> CreateCompositeKey st ''profile'' [arg_employeeID a, arg_profileSection a] = Inr k
    \<and> writes eff = [(k, v)]"
proof -
  obtain hd0 k v where guard: "submit_guard st a = Inr ()"
    and rd: "readHead st (arg_employeeID a) (arg_profileSection a) = Inr (hd0, k)"
    and w: "writes eff = [(k, v)]"
    using assms(1)
  proof (cases rule: RecordProfileSection_outcomes)
    case (event hd0 key e e0 ts v)
    with that show ?thesis by (simp add: no_effects_def)
  next
    case (written hd0 key v ts)
    with that show ?thesis by (simp add: no_effects_def)
  qed (use assms(2) in \<open>simp_all add: no_effects_def\<close>)
  have "CreateCompositeKey st ''profile'' [arg_employeeID a, arg_profileSection a] = Inr k"
    using rd by (auto simp: readHead_def profileKeyObjectType_def split: sum.splits option.splits)
  moreover obtain m i where "GetMSPID st = Inr m" "GetID st = Inr i"
    "m = ''Org1MSP'' \<or> (\<exists>t. t \<noteq> [] \<and> m = ''OrgClient-'' @ t @ ''MSP'')"
    using guard
    by (auto simp: submit_guard_def authorizeSubmit_Inr callerMSPID_Inr isOrgClientMSP_iff mspOrg1_def
        orgClientPrefix_def orgClientSuffix_def split: if_splits sum.splits)
  moreover have "arg_profileSection a \<in> set allProfileSections \<and> arg_tenantId a \<noteq> []
      \<and> arg_employeeID a \<noteq> [] \<and> arg_dataHash a \<noteq> [] \<and> arg_updatedBy a \<noteq> []
      \<and> arg_canonicalizationVersion a \<noteq> [] \<and> arg_hashAlgo a \<noteq> []"
    using guard
    by (auto simp: submit_guard_def IsValidProfileSection_iff requiredStringArgs_Inr
        split: if_splits sum.splits)
  ultimately show ?thesis using w by blast
qed

definition demo_stub :: "string \<Rightarrow> string option \<Rightarrow> stub" where
  "demo_stub msp value =
     \<lparr>GetMSPID = Inr msp, GetID = Inr ''x509'',
      CreateCompositeKey = (\<lambda>obj as. Inr (join_with ''/'' (obj # as))),
      GetState = (\<lambda>k. Inr value),
      GetHistoryForKey = (\<lambda>k. Inr []), GetTxTimestamp = Inr (0, 0), GetTxID = ''tx1'',
      PutState = (\<lambda>k v. Inr ()), SetEvent = (\<lambda>n p. Inr ())\<rparr>"

definition demo_submit_args :: "string \<Rightarrow> string \<Rightarrow> submit_args" where
  "demo_submit_args d p =
     \<lparr>arg_tenantId = ''tenant01'', arg_employeeID = ''e1'', arg_profileSection = ''PAYROLL'',
      arg_dataHash = d, arg_prevHash = p, arg_updatedBy = ''u1'', arg_ipfsCIDs = None,
      arg_canonicalizationVersion = ''v1'', arg_hashAlgo = ''sha256'', arg_clientTimestamp = []\<rparr>"

lemmas demo_stub_simps =
  demo_stub_def demo_submit_args_def submit_guard_def requiredStringArgs_Inr
  IsValidProfileSection_def allProfileSections_def authorizeSubmit_def authorizeEvaluate_def
  callerMSPID_def mspOrg1_def mspOrg3_def isOrgClientMSP_def orgClientPrefix_def
  orgClientSuffix_def readHead_def next_version_def profileKeyObjectType_def

lemma demo_submit_guard [simp]:
  "d \<noteq> [] \<Longrightarrow> submit_guard (demo_stub ''Org1MSP'' v) (demo_submit_args d p) = Inr ()"
  by (simp add: demo_stub_simps)

lemma demo_first_write:
  assumes "d \<noteq> []"
  shows "\<exists>r v. RecordProfileSection N (demo_stub ''Org1MSP'' None) (demo_submit_args d []) no_effects
    = (Inr r, \<lparr>writes = [(''profile/e1/PAYROLL'', v)], event = Some (''RecordProfileSection'', v)\<rparr>)"
proof -
  have "readHead (demo_stub ''Org1MSP'' None) ''e1'' ''PAYROLL'' = Inr (None, ''profile/e1/PAYROLL'')"
    "next_version None [] = Inr 1" by (simp_all add: demo_stub_simps)
  with RecordProfileSection_write [of "demo_stub ''Org1MSP'' None" "demo_submit_args d []" "()" None]
    assms show ?thesis
    by (simp add: write_version_eq Let_def no_effects_def)
      (simp add: demo_submit_args_def demo_stub_def Let_def)
qed

theorem submit_writes_only_authorized_witness:
  "\<exists>r eff. RecordProfileSection (\<lambda>n x. x) (demo_stub ''Org1MSP'' None) (demo_submit_args ''h1'' [])
     no_effects = (r, eff) \<and> length (writes eff) = 1"
proof -
  obtain r v where run: "RecordProfileSection (\<lambda>n x. x) (demo_stub ''Org1MSP'' None)
      (demo_submit_args ''h1'' []) no_effects
      = (Inr r, \<lparr>writes = [(''profile/e1/PAYROLL'', v)], event = Some (''RecordProfileSection'', v)\<rparr>)"
    using demo_first_write [of "''h1''"] by blast
  from submit_writes_only_authorized [OF run] obtain k v' where
    "[(''profile/e1/PAYROLL'', v)] = [(k, v')]" by auto
  with run show ?thesis by auto
qed

text \<open>C5: Behaviour of a submission past the guards, on a peer whose calls succeed: an
  unchanged digest returns the head's own result and writes nothing; otherwise the submission
  is accepted exactly when \<open>prevHash\<close> is the head's digest (empty when there is none), and
  then writes the new record under the key and emits it as the event; any other \<open>prevHash\<close> is
  a stale chain reference and writes nothing.\<close>

theorem submit_behaviour:
  assumes "submit_guard st a = Inr ()"
    and "readHead st (arg_employeeID a) (arg_profileSection a) = Inr (hd0, key)"
    and "GetTxTimestamp st = Inr ts"
    and "\<And>k v. PutState st k v = Inr ()" and "\<And>n p. SetEvent st n p = Inr ()"
  shows "let run = RecordProfileSection NewSHA1 st a no_effects;
             prev = (case hd0 of None \<Rightarrow> [] | Some h \<Rightarrow> DataHash h);
             v = (case hd0 of None \<Rightarrow> 1 | Some h \<Rightarrow> wrap64 (Version h + 1));
             rec = new_record NewSHA1 st a ts v
         in if map_option DataHash hd0 = Some (arg_dataHash a)
            then run = (Inr (head_result (the hd0)), no_effects)
            else if arg_prevHash a = prev
            then run = (Inr (head_result rec),
                        \<lparr>writes = [(key, marshal_record rec)],
                         event = Some (''RecordProfileSection'', marshal_record rec)\<rparr>)
            else \<exists>e. run = (Inl e, no_effects) \<and> errors_is e ErrStaleChainReference"
proof (cases "map_option DataHash hd0 = Some (arg_dataHash a)")
  case True
  then show ?thesis
    using RecordProfileSection_noop [OF assms(1)] assms(2) by (auto simp: Let_def)
next
  case new: False
  then have fresh: "DataHash h \<noteq> arg_dataHash a" if "hd0 = Some h" for h using that by auto
  define prev v where "prev = (case hd0 of None \<Rightarrow> [] | Some h \<Rightarrow> DataHash h)"
    and "v = (case hd0 of None \<Rightarrow> 1 | Some h \<Rightarrow> wrap64 (Version h + 1))"
  show ?thesis
  proof (cases "arg_prevHash a = prev")
    case True
    then have "next_version hd0 (arg_prevHash a) = Inr v"
      by (simp add: next_version_Inr prev_def v_def split: option.splits)
    from RecordProfileSection_write [OF assms(1,2) fresh this, of NewSHA1 no_effects] new True
    show ?thesis
      by (simp add: write_version_eq assms(3-5) Let_def no_effects_def prev_def [symmetric]
          v_def [symmetric])
  next
    case False
    then obtain e where e: "next_version hd0 (arg_prevHash a) = Inl e"
      by (cases "next_version hd0 (arg_prevHash a)") (auto simp: next_version_Inr prev_def split: option.splits)
    from RecordProfileSection_stale [OF assms(1,2) fresh this] next_version_Inl [OF e] new False
    show ?thesis by (simp add: Let_def prev_def [symmetric])
  qed
qed

theorem submit_behaviour_witness:
  "\<exists>e. RecordProfileSection (\<lambda>n x. x) (demo_stub ''Org1MSP'' None) (demo_submit_args ''h2'' ''h1'')
     no_effects = (Inl e, no_effects) \<and> errors_is e ErrStaleChainReference"
proof -
  have "readHead (demo_stub ''Org1MSP'' None) (arg_employeeID (demo_submit_args ''h2'' ''h1''))
      (arg_profileSection (demo_submit_args ''h2'' ''h1'')) = Inr (None, ''profile/e1/PAYROLL'')"
    by (simp add: demo_stub_simps)
  from submit_behaviour [OF demo_submit_guard this, of "(0, 0)" "\<lambda>n x. x"]
  have "if arg_prevHash (demo_submit_args ''h2'' ''h1'') = [] then True else
      \<exists>e. RecordProfileSection (\<lambda>n x. x) (demo_stub ''Org1MSP'' None) (demo_submit_args ''h2'' ''h1'')
        no_effects = (Inl e, no_effects) \<and> errors_is e ErrStaleChainReference"
    by (simp add: demo_stub_def Let_def)
  then show ?thesis by (simp add: demo_submit_args_def)
qed

text \<open>C21: A submission that returns an error leaves no write and no event behind, unless the
  event call itself failed (its write is then part of a proposal the peer does not endorse).
  An unknown section is an invalid argument, and a caller outside the writing organisations
  is unauthorized, before anything is read.\<close>

theorem failed_submit_leaves_no_trace:
  assumes "RecordProfileSection NewSHA1 st a no_effects = (Inl e, eff)"
    and "\<And>n p. SetEvent st n p = Inr ()"
  shows "eff = no_effects
    \<and> (if arg_profileSection a \<notin> set allProfileSections then errors_is e ErrInvalidArgument
       else if \<nexists>m. authorizeSubmit st = Inr m then errors_is e ErrUnauthorized else True)"
proof -
  have "eff = no_effects"
    using assms(1) by (cases rule: RecordProfileSection_outcomes) (simp_all add: assms(2))
  moreover have "errors_is e ErrInvalidArgument" if "arg_profileSection a \<notin> set allProfileSections"
    using assms(1) that
    by (simp add: RecordProfileSection_def IsValidProfileSection_iff invalid_section_def)
      (auto simp: invalid_section_def)
  moreover have "errors_is e ErrUnauthorized"
    if "arg_profileSection a \<in> set allProfileSections" and "\<nexists>m. authorizeSubmit st = Inr m"
  proof -
    from that(2) obtain e' where e': "authorizeSubmit st = Inl e'"
      by (cases "authorizeSubmit st") auto
    then have "submit_guard st a = Inl e'"
      using that(1) by (simp add: submit_guard_def IsValidProfileSection_iff)
    with assms(1) RecordProfileSection_guard have "e = e'" by simp
    with authorize_Inl(1) [OF e'] show ?thesis by simp
  qed
  ultimately show ?thesis by simp
qed

theorem failed_submit_leaves_no_trace_witness:
  "\<exists>e. RecordProfileSection (\<lambda>n x. x) (demo_stub ''Org3MSP'' None) (demo_submit_args ''h1'' []) no_effects
     = (Inl e, no_effects) \<and> errors_is e ErrUnauthorized"
proof -
  have auth: "\<exists>e. authorizeSubmit (demo_stub ''Org3MSP'' None) = Inl e"
    by (simp add: demo_stub_simps go_strings)
  then obtain e where e: "authorizeSubmit (demo_stub ''Org3MSP'' None) = Inl e" by blast
  then have run: "RecordProfileSection (\<lambda>n x. x) (demo_stub ''Org3MSP'' None) (demo_submit_args ''h1'' [])
      no_effects = (Inl e, no_effects)"
    by (intro RecordProfileSection_guard)
      (simp add: submit_guard_def demo_submit_args_def IsValidProfileSection_def allProfileSections_def)
  from failed_submit_leaves_no_trace [OF run] e run show ?thesis
    by (simp add: demo_stub_def demo_submit_args_def allProfileSections_def)
qed

text \<open>The auditor organisation reads and never writes: with a readable identity it passes
  the query check, and every submission it makes ends in an error and without effects.\<close>

lemma auditor_reads_never_writes:
  assumes "GetMSPID st = Inr ''Org3MSP''" and "GetID st = Inr i"
  shows "authorizeEvaluate st = Inr ''Org3MSP''
    \<and> (\<exists>e. RecordProfileSection NewSHA1 st a eff = (Inl e, eff))"
proof -
  have ev: "authorizeEvaluate st = Inr ''Org3MSP''"
    using assms by (simp add: authorizeEvaluate_Inr callerMSPID_Inr mspOrg3_def)
  have "isOrgClientMSP ''Org3MSP'' \<longleftrightarrow> False"
    using isOrgClientMSP_platform(2) by (simp add: mspOrg3_def)
  then have "\<nexists>m. authorizeSubmit st = Inr m"
    using assms by (auto simp: authorizeSubmit_Inr callerMSPID_Inr mspOrg1_def)
  then obtain e where "authorizeSubmit st = Inl e" by (cases "authorizeSubmit st") auto
  then have "\<exists>e. submit_guard st a = Inl e" by (simp add: submit_guard_def)
  with ev RecordProfileSection_guard show ?thesis by blast
qed

lemma summary_loop_Inr:
  "summary_loop st emp ss = Inr es \<Longrightarrow>
   list_all2 (\<lambda>s e. \<exists>h k. readHead st emp s = Inr (h, k) \<and> e = summary_entry s h) ss es"
proof (induction ss arbitrary: es)
  case (Cons s ss)
  then obtain h k es' where "readHead st emp s = Inr (h, k)" "summary_loop st emp ss = Inr es'"
    "es = summary_entry s h # es'"
    by (cases "summary_loop st emp ss") (auto split: sum.splits)
  with Cons.IH show ?case by simp
qed simp

text \<open>The summary has exactly one entry for each of the five sections, in their fixed
  order; a section never anchored shows version 0 and an empty digest, any other shows the
  digest, version, time and author of its head.\<close>

lemma summary_covers_all_sections:
  assumes "GetEmployeeProfileSummary st ten emp = Inr es"
  shows "map Summary_ProfileSection es = allProfileSections \<and> length es = 5
    \<and> (\<forall>e \<in> set es. \<exists>h k. readHead st emp (Summary_ProfileSection e) = Inr (h, k)
         \<and> Summary_Version e = (case h of None \<Rightarrow> 0 | Some r \<Rightarrow> Version r)
         \<and> Summary_DataHash e = (case h of None \<Rightarrow> [] | Some r \<Rightarrow> DataHash r))"
proof -
  from assms have loop: "summary_loop st emp allProfileSections = Inr es"
    by (auto simp: GetEmployeeProfileSummary_def split: sum.splits)
  have sec: "Summary_ProfileSection (summary_entry s h) = s" for s h
    by (simp add: summary_entry_def split: option.splits)
  have "list_all2 (\<lambda>s e. Summary_ProfileSection e = s) allProfileSections es"
    using summary_loop_Inr [OF loop] by (rule list_all2_mono) (auto simp: sec)
  then have "map Summary_ProfileSection es = allProfileSections"
    by (induction rule: list_all2_induct) auto
  moreover have "length es = 5"
    using list_all2_lengthD [OF summary_loop_Inr [OF loop]] by (simp add: allProfileSections_def)
  moreover have "\<exists>h k. readHead st emp (Summary_ProfileSection e) = Inr (h, k)
      \<and> Summary_Version e = (case h of None \<Rightarrow> 0 | Some r \<Rightarrow> Version r)
      \<and> Summary_DataHash e = (case h of None \<Rightarrow> [] | Some r \<Rightarrow> DataHash r)" if "e \<in> set es" for e
  proof -
    from summary_loop_Inr [OF loop] that obtain s h k where "readHead st emp s = Inr (h, k)"
      "e = summary_entry s h" by (auto simp: list_all2_conv_all_nth in_set_conv_nth)
    then show ?thesis by (cases h) (auto simp: summary_entry_def)
  qed
  ultimately show ?thesis by blast
qed

end
