(* ===== verification/Ledger.thy ===== *)
theory Ledger
  imports Chaincode "HOL-Library.Multiset"
begin

text \<open>
  What the contract guarantees over a sequence of transactions. The peer that runs the
  chaincode is third-party code; the locale \<open>peer\<close> states the documented behaviour the
  contract relies on: a stub shows the committed values of its keys, committing appends the
  written value to the history of its key and touches no other, and composite keys are
  injective. Serial execution is Fabric's own guarantee (a transaction whose reads are out
  of date is invalidated at commit), so a history of the ledger is a sequence of \<open>serial_submit\<close>
  steps. \<open>chain_ok\<close> is the abstract specification of the records of one key: an
  append-only list, each record pointing to the one before it. The locale is interpreted on
  \<open>peer_stub\<close>, a world that keeps the committed values of every key.
\<close>

section \<open>The abstract chain\<close>

definition head_hash :: "EmployeeProfileRecord list \<Rightarrow> string" where
  "head_hash rs = (if rs = [] then [] else DataHash (last rs))"

text \<open>The one way a chain may grow.\<close>

definition may_append :: "string \<Rightarrow> string \<Rightarrow> EmployeeProfileRecord list \<Rightarrow> EmployeeProfileRecord \<Rightarrow> bool" where
  "may_append emp sec rs r \<longleftrightarrow>
     EmployeeID r = emp \<and> ProfileSection r = sec \<and> PrevHash r = head_hash rs
     \<and> DataHash r \<noteq> [] \<and> DataHash r \<noteq> head_hash rs
     \<and> Version r = wrap64 (int (length rs) + 1) \<and> wf_record r"

inductive chain_ok :: "string \<Rightarrow> string \<Rightarrow> EmployeeProfileRecord list \<Rightarrow> bool" for emp sec where
  chain_empty: "chain_ok emp sec []"
| chain_append: "chain_ok emp sec rs \<Longrightarrow> may_append emp sec rs r \<Longrightarrow> chain_ok emp sec (rs @ [r])"

inductive_cases chain_ok_snocE: "chain_ok emp sec (rs @ [r])"

lemma chain_snoc: "chain_ok emp sec (rs @ [r]) \<longleftrightarrow> chain_ok emp sec rs \<and> may_append emp sec rs r"
  by (auto intro: chain_append elim: chain_ok_snocE)

lemma chain_prefix: "chain_ok emp sec (rs @ qs) \<Longrightarrow> chain_ok emp sec rs"
proof (induction qs rule: rev_induct)
  case (snoc q qs)
  then show ?case by (simp flip: append_assoc add: chain_snoc)
qed simp

lemma chain_nth:
  assumes "chain_ok emp sec rs" and "i < length rs"
  shows "may_append emp sec (take i rs) (rs ! i)"
proof -
  have "rs = (take i rs @ [rs ! i]) @ drop (Suc i) rs"
    using assms(2) by (simp add: id_take_nth_drop)
  then have "chain_ok emp sec (take i rs @ [rs ! i])"
    using assms(1) chain_prefix by metis
  then show ?thesis by (simp add: chain_snoc)
qed

lemma chain_version:
  "chain_ok emp sec rs \<Longrightarrow> i < length rs \<Longrightarrow> Version (rs ! i) = wrap64 (int i + 1)"
  using chain_nth by (fastforce simp: may_append_def)

lemma chain_link:
  "chain_ok emp sec rs \<Longrightarrow> Suc i < length rs \<Longrightarrow>
   PrevHash (rs ! Suc i) = DataHash (rs ! i) \<and> DataHash (rs ! Suc i) \<noteq> DataHash (rs ! i)"
  using chain_nth [of emp sec rs "Suc i"]
  by (auto simp: may_append_def head_hash_def take_Suc_conv_app_nth)

lemma chain_wf: "chain_ok emp sec rs \<Longrightarrow> r \<in> set rs \<Longrightarrow> wf_record r"
  by (induction rule: chain_ok.induct) (auto simp: may_append_def)

lemma chain_unmarshal:
  "chain_ok emp sec rs \<Longrightarrow> map_opt unmarshal_record (map marshal_record rs) = Some rs"
  using map_opt_map [of rs unmarshal_record marshal_record "\<lambda>r. r"]
  by (simp add: record_roundtrip chain_wf)

text \<open>Below the 64-bit bound the versions are 1, 2, 3, ... and so strictly increasing.\<close>

lemma chain_versions:
  assumes "chain_ok emp sec rs" and "int (length rs) < 2 ^ 63"
  shows "map Version rs = map (\<lambda>i. int i + 1) [0..<length rs]"
proof (rule nth_equalityI)
  fix i
  assume "i < length (map Version rs)"
  then show "map Version rs ! i = map (\<lambda>i. int i + 1) [0..<length rs] ! i"
    using chain_version [OF assms(1), of i] assms(2) by (simp add: is_int64_def)
qed simp

lemma chain_versions_sorted:
  "chain_ok emp sec rs \<Longrightarrow> int (length rs) < 2 ^ 63 \<Longrightarrow>
   sorted (map Version rs) \<and> distinct (map Version rs)"
  by (simp add: chain_versions sorted_iff_nth_mono distinct_map inj_on_def)

section \<open>Histories\<close>

text \<open>With distinct versions there is only one sorted order, so the result of
  \<open>sort.Slice\<close> does not depend on its algorithm.\<close>

lemma history_sorted_unique:
  assumes "mset ys = mset xs" and "sorted (map Entry_Version ys)" and "distinct (map Entry_Version xs)"
  shows "sort_key Entry_Version xs = ys"
  using assms by (intro sort_key_inj_key_eq) (simp_all add: distinct_map)

abbreviation put_mod :: "string \<Rightarrow> modification res" where
  "put_mod v \<equiv> Inr \<lparr>IsDelete = False, Value = v\<rparr>"

lemma history_loop_records:
  "(\<And>r. r \<in> set rs \<Longrightarrow> wf_record r) \<Longrightarrow>
   history_loop (map put_mod (map marshal_record rs)) = Inr (map version_entry rs)"
  by (induction rs) (simp_all add: record_roundtrip)

lemma permuted_records:
  assumes "mset vs = mset (map marshal_record rs)" and "\<And>r. r \<in> set rs \<Longrightarrow> wf_record r"
  obtains rs' where "vs = map marshal_record rs'" "mset rs' = mset rs"
proof
  let ?un = "\<lambda>v. the (unmarshal_record v)"
  have "set vs = marshal_record ` set rs"
    using assms(1) by (metis list.set_map mset_eq_setD)
  then show "vs = map marshal_record (map ?un vs)"
    using assms(2) by (fastforce simp: record_roundtrip intro!: map_idI [symmetric])
  have "mset (map ?un vs) = image_mset ?un (mset (map marshal_record rs))"
    using assms(1) by simp
  also have "\<dots> = mset (map (\<lambda>r. ?un (marshal_record r)) rs)"
    by (simp add: image_mset.compositionality comp_def)
  also have "map (\<lambda>r. ?un (marshal_record r)) rs = rs"
    using assms(2) by (intro map_idI) (simp add: record_roundtrip)
  finally show "mset (map ?un vs) = mset rs" .
qed

lemma history_of_chain:
  assumes chain: "chain_ok emp sec rs" and short: "int (length rs) < 2 ^ 63"
    and vs: "mset vs = mset (map marshal_record rs)"
  shows "map_sum id (sort_key Entry_Version) (history_loop (map put_mod vs)) = Inr (map version_entry rs)"
proof -
  obtain rs' where rs': "vs = map marshal_record rs'" "mset rs' = mset rs"
    using permuted_records [OF vs] chain_wf [OF chain] by metis
  have ver: "map Entry_Version (map version_entry xs) = map Version xs" for xs
    by (simp add: version_entry_def)
  have "distinct (map Version rs')"
    using chain_versions_sorted [OF chain short] rs'(2) by (metis mset_eq_imp_distinct_iff mset_map)
  then have "sort_key Entry_Version (map version_entry rs') = map version_entry rs"
    using chain_versions_sorted [OF chain short] rs'(2)
    by (intro history_sorted_unique) (simp_all only: ver mset_map)
  moreover have "history_loop (map put_mod vs) = Inr (map version_entry rs')"
    using rs' chain_wf [OF chain] history_loop_records [of rs'] by (metis mset_eq_setD)
  ultimately show ?thesis by simp
qed

section \<open>The peer\<close>

text \<open>Arguments a client can send: strings in valid UTF-8.\<close>

definition wf_args :: "submit_args \<Rightarrow> bool" where
  "wf_args a \<longleftrightarrow>
     list_all valid_utf8 [arg_tenantId a, arg_employeeID a, arg_profileSection a, arg_dataHash a,
       arg_prevHash a, arg_updatedBy a, arg_canonicalizationVersion a, arg_hashAlgo a]
     \<and> list_all valid_utf8 (case arg_ipfsCIDs a of None \<Rightarrow> [] | Some cs \<Rightarrow> cs)"

text \<open>One transaction: the contract runs against the committed state; its write set is
  committed only if it returned no error.\<close>

definition serial_submit ::
  "('t \<Rightarrow> 'w \<Rightarrow> stub) \<Rightarrow> ((string \<times> string) list \<Rightarrow> 'w \<Rightarrow> 'w) \<Rightarrow> (string \<Rightarrow> string \<Rightarrow> string)
   \<Rightarrow> 't \<Rightarrow> submit_args \<Rightarrow> 'w \<Rightarrow> RecordProfileSectionResult res \<times> 'w" where
  "serial_submit stub_of commit NewSHA1 t a w =
     (case RecordProfileSection NewSHA1 (stub_of t w) a no_effects of
        (Inl e, _) \<Rightarrow> (Inl e, w)
      | (Inr r, eff) \<Rightarrow> (Inr r, commit (writes eff) w))"

text \<open>The worlds that sequences of submissions reach. The chaincode does not check the encoding of its
  arguments; the submissions here have valid UTF-8 (\<open>wf_args\<close>), as the JSON form of a record replaces
  other bytes and would not decode back.\<close>

inductive reachable ::
  "('t \<Rightarrow> 'w \<Rightarrow> stub) \<Rightarrow> ((string \<times> string) list \<Rightarrow> 'w \<Rightarrow> 'w) \<Rightarrow> (string \<Rightarrow> string \<Rightarrow> string)
   \<Rightarrow> 'w \<Rightarrow> 'w \<Rightarrow> bool" for stub_of commit NewSHA1 w0 where
  reach_start: "reachable stub_of commit NewSHA1 w0 w0"
| reach_submit:
    "reachable stub_of commit NewSHA1 w0 w \<Longrightarrow> wf_args a \<Longrightarrow>
     serial_submit stub_of commit NewSHA1 t a w = (r, w') \<Longrightarrow>
     reachable stub_of commit NewSHA1 w0 w'"

text \<open>\<open>uuid.NewSHA1(...).String()\<close> is made of hexadecimal digits and dashes.\<close>

definition uuid_text :: "(string \<Rightarrow> string \<Rightarrow> string) \<Rightarrow> bool" where
  "uuid_text NewSHA1 \<longleftrightarrow> (\<forall>ns x. is_ascii (NewSHA1 ns x))"

locale peer =
  fixes stub_of :: "'t \<Rightarrow> 'w \<Rightarrow> stub"
    and commit :: "(string \<times> string) list \<Rightarrow> 'w \<Rightarrow> 'w"
    and committed :: "'w \<Rightarrow> string \<Rightarrow> string list"
    and key_of :: "string \<Rightarrow> string list \<Rightarrow> string res"
  assumes GetState_committed:
      "GetState (stub_of t w) k =
         Inr (if committed w k = [] then None else Some (last (committed w k)))"
    and GetHistory_committed:
      "\<exists>vs. GetHistoryForKey (stub_of t w) k = Inr (map put_mod vs)
            \<and> mset vs = mset (committed w k)"
    and commit_none: "commit [] w = w"
    and commit_one: "committed (commit [(k, v)] w) k' = committed w k' @ (if k' = k then [v] else [])"
    and stub_key: "CreateCompositeKey (stub_of t w) = key_of"
    and key_inject:
      "key_of obj as = Inr k \<Longrightarrow> key_of obj' as' = Inr k \<Longrightarrow> obj = obj' \<and> as = as'"
begin

definition holds_chain :: "'w \<Rightarrow> string \<Rightarrow> string \<Rightarrow> EmployeeProfileRecord list \<Rightarrow> bool" where
  "holds_chain w emp sec rs \<longleftrightarrow>
     (\<exists>k. key_of profileKeyObjectType [emp, sec] = Inr k \<and> committed w k = map marshal_record rs)
     \<and> chain_ok emp sec rs"

lemma readHead_chain:
  assumes "holds_chain w emp sec rs"
  obtains k where "key_of profileKeyObjectType [emp, sec] = Inr k"
    and "readHead (stub_of t w) emp sec = Inr (if rs = [] then None else Some (last rs), k)"
proof -
  from assms obtain k where k: "key_of profileKeyObjectType [emp, sec] = Inr k"
    and rs: "committed w k = map marshal_record rs" and ok: "chain_ok emp sec rs"
    by (auto simp: holds_chain_def)
  have "unmarshal_record (marshal_record (last rs)) = Some (last rs)" if "rs \<noteq> []"
    using that by (simp add: record_roundtrip chain_wf [OF ok])
  with k rs have "readHead (stub_of t w) emp sec = Inr (if rs = [] then None else Some (last rs), k)"
    by (simp add: readHead_def stub_key GetState_committed last_map)
  with k show ?thesis by (rule that)
qed

lemma new_record_appends:
  assumes "holds_chain w (arg_employeeID a) (arg_profileSection a) rs" and "wf_args a"
    and "submit_guard st a = Inr ()"
    and "rs \<noteq> [] \<Longrightarrow> DataHash (last rs) \<noteq> arg_dataHash a"
    and "next_version (if rs = [] then None else Some (last rs)) (arg_prevHash a) = Inr v"
    and "valid_utf8 (NewSHA1 NameSpaceOID (GetTxID st))"
  shows "may_append (arg_employeeID a) (arg_profileSection a) rs (new_record NewSHA1 st a ts v)"
proof -
  from assms(3) have req: "arg_dataHash a \<noteq> []"
    by (auto simp: submit_guard_def requiredStringArgs_Inr split: if_splits sum.splits)
  have v: "v = wrap64 (int (length rs) + 1) \<and> arg_prevHash a = head_hash rs"
  proof (cases "rs = []")
    case True
    with assms(5) show ?thesis by (simp add: next_version_Inr head_hash_def is_int64_def)
  next
    case False
    from assms(1) have "chain_ok (arg_employeeID a) (arg_profileSection a) rs"
      by (simp add: holds_chain_def)
    moreover have "int (length rs - 1) + 1 = int (length rs)" using False by (cases rs) simp_all
    ultimately have "Version (last rs) = wrap64 (int (length rs))"
      using chain_version [of _ _ rs "length rs - 1"] False by (simp add: last_conv_nth)
    moreover have "wrap64 (wrap64 x + 1) = wrap64 (x + 1)" for x
      by (simp add: wrap64_def mod_simps algebra_simps)
    ultimately show ?thesis using False assms(5) by (auto simp: next_version_Inr head_hash_def)
  qed
  then show ?thesis
    using assms(2,4,6) req
    by (auto simp: may_append_def new_record_def wf_record_def wf_args_def head_hash_def
        deterministicRecordID_def split: option.splits)
qed

text \<open>A submission either leaves the world alone or commits one record.\<close>

lemma submit_cases:
  assumes "serial_submit stub_of commit NewSHA1 t a w = (r, w')"
  obtains
    (failed) e where "r = Inl e" "w' = w"
  | (noop) h key where "submit_guard (stub_of t w) a = Inr ()"
      "readHead (stub_of t w) (arg_employeeID a) (arg_profileSection a) = Inr (Some h, key)"
      "DataHash h = arg_dataHash a" "r = Inr (head_result h)" "w' = w"
  | (written) hd0 key ts v where "submit_guard (stub_of t w) a = Inr ()"
      "readHead (stub_of t w) (arg_employeeID a) (arg_profileSection a) = Inr (hd0, key)"
      "\<And>h. hd0 = Some h \<Longrightarrow> DataHash h \<noteq> arg_dataHash a"
      "next_version hd0 (arg_prevHash a) = Inr v"
      "r = Inr (head_result (new_record NewSHA1 (stub_of t w) a ts v))"
      "w' = commit [(key, marshal_record (new_record NewSHA1 (stub_of t w) a ts v))] w"
proof -
  obtain q eff where run: "RecordProfileSection NewSHA1 (stub_of t w) a no_effects = (q, eff)"
    by (cases "RecordProfileSection NewSHA1 (stub_of t w) a no_effects")
  note res = assms [unfolded serial_submit_def run]
  from run show ?thesis
  proof (cases rule: RecordProfileSection_outcomes)
    case (noop h key)
    show ?thesis
      by (rule that(2) [OF noop(1-3)]) (use res noop(4,5) in \<open>simp_all add: no_effects_def commit_none\<close>)
  next
    case (written hd0 key ts v)
    show ?thesis
      by (rule that(3) [OF written(1-4), where ts = ts])
        (use res written(6,7) in \<open>simp_all add: no_effects_def\<close>)
  qed (use res in \<open>auto intro: that(1)\<close>)
qed

lemma readHead_key:
  "readHead (stub_of t w) emp sec = Inr (h, k) \<Longrightarrow> key_of profileKeyObjectType [emp, sec] = Inr k"
  by (auto simp: readHead_def stub_key split: sum.splits option.splits)

text \<open>The ledger is append-only: no submission, whatever its arguments, changes or removes a
  committed value.\<close>

lemma submit_append_only:
  assumes "serial_submit stub_of commit NewSHA1 t a w = (r, w')"
  shows "prefix (committed w k) (committed w' k)"
  using assms by (cases rule: submit_cases) (simp_all add: commit_one)

lemma reachable_append_only:
  "reachable stub_of commit NewSHA1 w0 w \<Longrightarrow> prefix (committed w0 k) (committed w k)"
proof (induction rule: reachable.induct)
  case (reach_submit w a t r w')
  then show ?case using submit_append_only prefix_order.trans by blast
qed simp

text \<open>Refinement: seen through \<open>holds_chain\<close>, a submission is the abstract append, the
  no-op on an unchanged digest, or nothing.\<close>

lemma submit_refines:
  assumes chain: "holds_chain w (arg_employeeID a) (arg_profileSection a) rs"
    and args: "wf_args a" and uuid: "uuid_text NewSHA1"
    and run: "serial_submit stub_of commit NewSHA1 t a w = (r, w')"
  shows "(\<exists>e. r = Inl e \<and> w' = w)
    \<or> (rs \<noteq> [] \<and> DataHash (last rs) = arg_dataHash a \<and> r = Inr (head_result (last rs)) \<and> w' = w)
    \<or> (\<exists>rec. r = Inr (head_result rec) \<and> DataHash rec = arg_dataHash a
         \<and> holds_chain w' (arg_employeeID a) (arg_profileSection a) (rs @ [rec]))"
proof -
  obtain k where k: "key_of profileKeyObjectType [arg_employeeID a, arg_profileSection a] = Inr k"
    and rd: "readHead (stub_of t w) (arg_employeeID a) (arg_profileSection a) =
      Inr (if rs = [] then None else Some (last rs), k)"
    using readHead_chain [OF chain] by metis
  from run show ?thesis
  proof (cases rule: submit_cases)
    case (noop h key)
    with rd show ?thesis by (auto split: if_splits)
  next
    case (written hd0 key ts v)
    let ?rec = "new_record NewSHA1 (stub_of t w) a ts v"
    from written(2) rd have hk: "hd0 = (if rs = [] then None else Some (last rs))" "key = k" by auto
    have "valid_utf8 (NewSHA1 NameSpaceOID (GetTxID (stub_of t w)))"
      using uuid by (simp add: uuid_text_def valid_utf8_ascii)
    then have "may_append (arg_employeeID a) (arg_profileSection a) rs ?rec"
      using new_record_appends [OF chain args written(1)] written(3,4) hk by simp
    then have "holds_chain w' (arg_employeeID a) (arg_profileSection a) (rs @ [?rec])"
      using chain k written(6) hk(2) by (auto simp: holds_chain_def commit_one chain_snoc)
    moreover have "DataHash ?rec = arg_dataHash a" by (simp add: new_record_def)
    ultimately show ?thesis using written(5) by blast
  qed simp
qed

text \<open>Progress: with the right \<open>prevHash\<close> and a working peer the record is appended.\<close>

lemma submit_progress:
  assumes chain: "holds_chain w (arg_employeeID a) (arg_profileSection a) rs"
    and args: "wf_args a" and uuid: "uuid_text NewSHA1"
    and guard: "submit_guard (stub_of t w) a = Inr ()"
    and link: "arg_prevHash a = head_hash rs" and fresh: "arg_dataHash a \<noteq> head_hash rs"
    and time: "GetTxTimestamp (stub_of t w) = Inr ts"
    and put: "\<And>k v. PutState (stub_of t w) k v = Inr ()"
    and ev: "\<And>n p. SetEvent (stub_of t w) n p = Inr ()"
  shows "\<exists>rec w'. serial_submit stub_of commit NewSHA1 t a w = (Inr (head_result rec), w')
    \<and> DataHash rec = arg_dataHash a
    \<and> holds_chain w' (arg_employeeID a) (arg_profileSection a) (rs @ [rec])"
proof -
  obtain k where rd: "readHead (stub_of t w) (arg_employeeID a) (arg_profileSection a) =
      Inr (if rs = [] then None else Some (last rs), k)"
    using readHead_chain [OF chain] by metis
  obtain v where v: "next_version (if rs = [] then None else Some (last rs)) (arg_prevHash a) = Inr v"
    using link by (cases "rs = []") (auto simp: next_version_def head_hash_def)
  have new: "DataHash h \<noteq> arg_dataHash a" if "(if rs = [] then None else Some (last rs)) = Some h" for h
    using that fresh by (auto simp: head_hash_def split: if_splits)
  have "\<exists>r w'. serial_submit stub_of commit NewSHA1 t a w = (Inr r, w')"
    using RecordProfileSection_write [OF guard rd new v]
    by (simp add: serial_submit_def write_version_eq time put ev Let_def)
  then obtain r w' where run: "serial_submit stub_of commit NewSHA1 t a w = (Inr r, w')" by blast
  have "\<not> (rs \<noteq> [] \<and> DataHash (last rs) = arg_dataHash a)"
    using fresh by (auto simp: head_hash_def)
  with submit_refines [OF chain args uuid run] run show ?thesis by auto
qed

lemma submit_frame:
  assumes run: "serial_submit stub_of commit NewSHA1 t a w = (r, w')"
    and other: "(emp, sec) \<noteq> (arg_employeeID a, arg_profileSection a)"
    and chain: "holds_chain w emp sec rs"
  shows "holds_chain w' emp sec rs"
  using run
proof (cases rule: submit_cases)
  case (written hd0 key ts v)
  from chain obtain k where k: "key_of profileKeyObjectType [emp, sec] = Inr k"
    by (auto simp: holds_chain_def)
  with readHead_key [OF written(2)] key_inject other have "k \<noteq> key" by fastforce
  with chain k written(6) show ?thesis by (auto simp: holds_chain_def commit_one)
qed (use chain in simp_all)

lemma submit_other_keys:
  assumes run: "serial_submit stub_of commit NewSHA1 t a w = (r, w')"
    and key: "key_of profileKeyObjectType [arg_employeeID a, arg_profileSection a] = Inr k"
    and other: "k' \<noteq> k"
  shows "committed w' k' = committed w k'"
  using run
proof (cases rule: submit_cases)
  case (written hd0 key' ts v)
  with readHead_key [OF written(2)] key other show ?thesis by (simp add: commit_one)
qed simp_all

lemma reachable_chain:
  assumes "reachable stub_of commit NewSHA1 w0 w" and "uuid_text NewSHA1"
    and "holds_chain w0 emp sec rs0"
  shows "\<exists>rs. holds_chain w emp sec (rs0 @ rs)"
  using assms(1)
proof (induction rule: reachable.induct)
  case reach_start
  show ?case using assms(3) by (metis append_Nil2)
next
  case (reach_submit w a t r w')
  then obtain rs where rs: "holds_chain w emp sec (rs0 @ rs)" by blast
  show ?case
  proof (cases "(emp, sec) = (arg_employeeID a, arg_profileSection a)")
    case True
    with submit_refines [of w a "rs0 @ rs"] rs reach_submit(2,3) assms(2) show ?thesis
      by (metis append_assoc prod.inject)
  next
    case False
    then show ?thesis using submit_frame [OF reach_submit(3) _ rs] by blast
  qed
qed

lemma query_head:
  assumes "holds_chain w emp sec rs" and "authorizeEvaluate (stub_of t w) = Inr m"
    and "IsValidProfileSection sec"
  shows "GetProfileSectionRecord (stub_of t w) ten emp sec =
    (if rs = [] then Inl ErrRecordNotFound
     else Inr \<lparr>Head_DataHash = DataHash (last rs), Head_Timestamp = Timestamp (last rs),
               Head_UpdatedBy = UpdatedBy (last rs), Head_Version = Version (last rs)\<rparr>)"
proof -
  obtain k where "readHead (stub_of t w) emp sec = Inr (if rs = [] then None else Some (last rs), k)"
    using readHead_chain [OF assms(1)] by metis
  with assms(2,3) show ?thesis by (simp add: GetProfileSectionRecord_def)
qed

lemma query_history:
  assumes "holds_chain w emp sec rs" and "authorizeEvaluate (stub_of t w) = Inr m"
    and "IsValidProfileSection sec" and "int (length rs) < 2 ^ 63"
  shows "GetProfileHistory (stub_of t w) ten emp sec = Inr (map version_entry rs)"
proof -
  from assms(1) obtain k where k: "key_of profileKeyObjectType [emp, sec] = Inr k"
    "committed w k = map marshal_record rs" and chain: "chain_ok emp sec rs"
    by (auto simp: holds_chain_def)
  obtain vs where "GetHistoryForKey (stub_of t w) k = Inr (map put_mod vs)"
    "mset vs = mset (map marshal_record rs)"
    using GetHistory_committed [of t w k] k(2) by metis
  with k assms(2,3) history_of_chain [OF chain assms(4)] show ?thesis
    by (simp add: GetProfileHistory_def stub_key)
qed

end

section \<open>A world of committed values\<close>

type_synonym world = "string \<Rightarrow> string list"

record tx =
  tx_msp :: "string res"
  tx_cid :: "string res"
  tx_time :: "(int \<times> int) res"
  tx_id :: string

definition NUL :: char where
  "NUL = CHR 0x00"

text \<open>Attributes must be valid UTF-8 without the smallest and the greatest code point.\<close>

definition key_part_ok :: "string \<Rightarrow> bool" where
  "key_part_ok s \<longleftrightarrow>
     valid_utf8 s \<and> NUL \<notin> set s \<and> \<not> contains s (map char_of [0xF4, 0x8F, 0xBF, 0xBF :: nat])"

definition composite_key :: "string \<Rightarrow> string list \<Rightarrow> string res" where
  "composite_key obj attrs =
     (if list_all key_part_ok (obj # attrs)
      then Inr (NUL # concat (map (\<lambda>s. s @ [NUL]) (obj # attrs)))
      else Inl (Plain ''not a valid composite key''))"

lemma concat_sep_inject:
  "concat (map (\<lambda>s. s @ [z]) xs) = concat (map (\<lambda>s. s @ [z]) ys) \<Longrightarrow>
   (\<And>x. x \<in> set xs \<union> set ys \<Longrightarrow> z \<notin> set x) \<Longrightarrow> xs = ys"
proof (induction xs arbitrary: ys)
  case Nil
  then show ?case by (cases ys) simp_all
next
  case (Cons x xs)
  then obtain y ys' where ys: "ys = y # ys'" by (cases ys) simp_all
  with Cons.prems have "x @ z # concat (map (\<lambda>s. s @ [z]) xs) = y @ z # concat (map (\<lambda>s. s @ [z]) ys')"
    "z \<notin> set x" "z \<notin> set y" by auto
  then have "x = y \<and> concat (map (\<lambda>s. s @ [z]) xs) = concat (map (\<lambda>s. s @ [z]) ys')"
    by (simp add: append_sep_inject)
  with Cons.IH [of ys'] Cons.prems(2) ys show ?case by simp
qed

lemma composite_key_inject:
  "composite_key obj as = Inr k \<Longrightarrow> composite_key obj' as' = Inr k \<Longrightarrow> obj = obj' \<and> as = as'"
proof -
  assume k: "composite_key obj as = Inr k" "composite_key obj' as' = Inr k"
  then have "NUL \<notin> set x" if "x \<in> set (obj # as) \<union> set (obj' # as')" for x
    using that by (auto simp: composite_key_def key_part_ok_def list_all_iff split: if_splits)
  moreover from k have "concat (map (\<lambda>s. s @ [NUL]) (obj # as)) = concat (map (\<lambda>s. s @ [NUL]) (obj' # as'))"
    by (auto simp: composite_key_def split: if_splits)
  ultimately have "obj # as = obj' # as'" by (intro concat_sep_inject)
  then show ?thesis by simp
qed

definition peer_stub :: "tx \<Rightarrow> world \<Rightarrow> stub" where
  "peer_stub t w =
     \<lparr>GetMSPID = tx_msp t, GetID = tx_cid t, CreateCompositeKey = composite_key,
      GetState = (\<lambda>k. Inr (if w k = [] then None else Some (last (w k)))),
      GetHistoryForKey = (\<lambda>k. Inr (map put_mod (rev (w k)))),
      GetTxTimestamp = tx_time t, GetTxID = tx_id t,
      PutState = (\<lambda>k v. Inr ()), SetEvent = (\<lambda>n p. Inr ())\<rparr>"

definition peer_commit :: "(string \<times> string) list \<Rightarrow> world \<Rightarrow> world" where
  "peer_commit kvs w = fold (\<lambda>(k, v) w. w(k := w k @ [v])) kvs w"

interpretation pw: peer peer_stub peer_commit "\<lambda>w. w" composite_key
proof
  fix t w k
  have "GetHistoryForKey (peer_stub t w) k = Inr (map put_mod (rev (w k)))
      \<and> mset (rev (w k)) = mset (w k)" by (simp add: peer_stub_def)
  then show "\<exists>vs. GetHistoryForKey (peer_stub t w) k = Inr (map put_mod vs) \<and> mset vs = mset (w k)" ..
qed (auto simp: peer_stub_def peer_commit_def dest: composite_key_inject)

section \<open>Properties\<close>

text \<open>C3: The ledger of one (employee, section) key is a hash chain. Starting from a ledger
  where the key has no value, after any sequence of submissions the committed values of the key are
  the JSON forms of a list of records in which every record carries the key's employee and
  section, its \<open>prevHash\<close> is the \<open>dataHash\<close> of the record before it (empty for the first),
  its digest differs from that one, and its version is its position (modulo the 64 bits of
  a Go \<open>int\<close>).\<close>

theorem ledger_hash_chain:
  assumes "peer stub_of commit committed key_of" and "uuid_text NewSHA1"
    and "reachable stub_of commit NewSHA1 w0 w"
    and "key_of profileKeyObjectType [emp, sec] = Inr k" and "committed w0 k = []"
  shows "\<exists>rs. committed w k = map marshal_record rs \<and> chain_ok emp sec rs
    \<and> (\<forall>i < length rs. Version (rs ! i) = wrap64 (int i + 1)
         \<and> PrevHash (rs ! i) = (if i = 0 then [] else DataHash (rs ! (i - 1))))"
proof -
  have "peer.holds_chain committed key_of w0 emp sec []"
    using assms(1,4,5) by (auto simp: peer.holds_chain_def chain_empty)
  from peer.reachable_chain [OF assms(1,3,2) this]
  obtain rs where "peer.holds_chain committed key_of w emp sec rs" by auto
  then have rs: "committed w k = map marshal_record rs" "chain_ok emp sec rs"
    using assms(1,4) by (auto simp: peer.holds_chain_def)
  have "PrevHash (rs ! i) = (if i = 0 then [] else DataHash (rs ! (i - 1)))" if "i < length rs" for i
    using chain_nth [OF rs(2) that] that
    by (cases i) (auto simp: may_append_def head_hash_def take_Suc_conv_app_nth)
  with rs chain_version show ?thesis by blast
qed

text \<open>A client of the enterprise organisation anchors a section twice.\<close>

definition demo_tx :: tx where
  "demo_tx = \<lparr>tx_msp = Inr ''OrgClient-tenant01MSP'', tx_cid = Inr ''x509'', tx_time = Inr (0, 0),
     tx_id = ''tx1''\<rparr>"

definition demo_args :: "string \<Rightarrow> string \<Rightarrow> submit_args" where
  "demo_args d p =
     \<lparr>arg_tenantId = ''tenant01'', arg_employeeID = ''e1'', arg_profileSection = ''PAYROLL'',
      arg_dataHash = d, arg_prevHash = p, arg_updatedBy = ''u1'', arg_ipfsCIDs = None,
      arg_canonicalizationVersion = ''v1'', arg_hashAlgo = ''sha256'', arg_clientTimestamp = []\<rparr>"

definition demo_uuid :: "string \<Rightarrow> string \<Rightarrow> string" where
  "demo_uuid ns x = ''00000000-0000-5000-8000-000000000000''"

definition demo_run :: "submit_args list \<Rightarrow> world" where
  "demo_run as =
     fold (\<lambda>a w. snd (serial_submit peer_stub peer_commit demo_uuid demo_tx a w)) as (\<lambda>k. [])"

definition demo_key :: string where
  "demo_key = NUL # concat (map (\<lambda>s. s @ [NUL]) [''profile'', ''e1'', ''PAYROLL''])"

lemma demo_uuid_text: "uuid_text demo_uuid"
  by (simp add: uuid_text_def demo_uuid_def)

lemma demo_args_wf: "is_ascii d \<Longrightarrow> is_ascii p \<Longrightarrow> wf_args (demo_args d p)"
  by (simp add: wf_args_def demo_args_def valid_utf8_ascii)

lemma demo_reachable:
  "list_all wf_args as \<Longrightarrow> reachable peer_stub peer_commit demo_uuid (\<lambda>k. []) (demo_run as)"
proof (induction as rule: rev_induct)
  case Nil
  show ?case by (simp add: demo_run_def reach_start)
next
  case (snoc a as)
  then show ?case
    by (auto simp: demo_run_def intro: reach_submit [OF _ _ prod.collapse [symmetric]])
qed

lemma demo_key_eq: "composite_key profileKeyObjectType [''e1'', ''PAYROLL''] = Inr demo_key"
  by code_simp

lemma demo_guard: "d \<noteq> [] \<Longrightarrow> submit_guard (peer_stub demo_tx w) (demo_args d p) = Inr ()"
  by (simp add: submit_guard_def demo_args_def demo_tx_def peer_stub_def requiredStringArgs_Inr
      IsValidProfileSection_def allProfileSections_def authorizeSubmit_def callerMSPID_def
      mspOrg1_def isOrgClientMSP_def orgClientPrefix_def orgClientSuffix_def go_strings)

lemma demo_submit:
  assumes "pw.holds_chain w ''e1'' ''PAYROLL'' rs" and "is_ascii d" "is_ascii p" "d \<noteq> []"
    and "p = head_hash rs" "d \<noteq> p"
  shows "\<exists>rec. pw.holds_chain (snd (serial_submit peer_stub peer_commit demo_uuid demo_tx (demo_args d p) w))
    ''e1'' ''PAYROLL'' (rs @ [rec]) \<and> DataHash rec = d"
proof -
  have "\<exists>rec w'. serial_submit peer_stub peer_commit demo_uuid demo_tx (demo_args d p) w
      = (Inr (head_result rec), w') \<and> DataHash rec = arg_dataHash (demo_args d p)
      \<and> pw.holds_chain w' (arg_employeeID (demo_args d p)) (arg_profileSection (demo_args d p)) (rs @ [rec])"
    using assms
    by (intro pw.submit_progress [where ts = "(0, 0)"])
      (simp_all add: demo_guard demo_args_wf demo_uuid_text,
       simp_all add: demo_args_def demo_tx_def peer_stub_def)
  then show ?thesis by (auto simp: demo_args_def)
qed

lemma demo_run_snoc:
  "demo_run (as @ [a]) = snd (serial_submit peer_stub peer_commit demo_uuid demo_tx a (demo_run as))"
  by (simp add: demo_run_def)

lemma demo_two:
  "\<exists>rs. pw.holds_chain (demo_run [demo_args ''h1'' [], demo_args ''h2'' ''h1'']) ''e1'' ''PAYROLL'' rs
     \<and> map DataHash rs = [''h1'', ''h2'']"
proof -
  have "pw.holds_chain (\<lambda>k. []) ''e1'' ''PAYROLL'' []"
    using demo_key_eq by (auto simp: pw.holds_chain_def chain_empty)
  then have "\<exists>rec. pw.holds_chain (demo_run ([] @ [demo_args ''h1'' []])) ''e1'' ''PAYROLL'' ([] @ [rec])
      \<and> DataHash rec = ''h1''"
    unfolding demo_run_snoc by (intro demo_submit) (simp_all add: head_hash_def demo_run_def)
  then obtain r1 where r1: "pw.holds_chain (demo_run [demo_args ''h1'' []]) ''e1'' ''PAYROLL'' [r1]"
    and d1: "DataHash r1 = ''h1''" by auto
  have "\<exists>rec. pw.holds_chain (demo_run ([demo_args ''h1'' []] @ [demo_args ''h2'' ''h1'']))
      ''e1'' ''PAYROLL'' ([r1] @ [rec]) \<and> DataHash rec = ''h2''"
    unfolding demo_run_snoc by (rule demo_submit [OF r1]) (simp_all add: head_hash_def d1)
  then obtain r2 where
    "pw.holds_chain (demo_run [demo_args ''h1'' [], demo_args ''h2'' ''h1'']) ''e1'' ''PAYROLL'' [r1, r2]"
    "DataHash r2 = ''h2''" by auto
  then show ?thesis by (intro exI [of _ "[r1, r2]"]) (simp add: d1)
qed

lemma demo_two_length:
  "length (demo_run [demo_args ''h1'' [], demo_args ''h2'' ''h1''] demo_key) = 2"
proof -
  let ?w = "demo_run [demo_args ''h1'' [], demo_args ''h2'' ''h1'']"
  from demo_two obtain qs where qs: "pw.holds_chain ?w ''e1'' ''PAYROLL'' qs"
    "map DataHash qs = [''h1'', ''h2'']" by (elim exE conjE)
  from qs(1) obtain k where "composite_key profileKeyObjectType [''e1'', ''PAYROLL''] = Inr k"
    and "?w k = map marshal_record qs" unfolding pw.holds_chain_def by blast
  then have "?w demo_key = map marshal_record qs" using demo_key_eq by (metis sum.inject(2))
  then show ?thesis using arg_cong [OF qs(2), of length] by simp
qed

theorem ledger_hash_chain_witness:
  "\<exists>rs. demo_run [demo_args ''h1'' [], demo_args ''h2'' ''h1''] demo_key = map marshal_record rs
     \<and> length rs = 2 \<and> chain_ok ''e1'' ''PAYROLL'' rs"
proof -
  let ?w = "demo_run [demo_args ''h1'' [], demo_args ''h2'' ''h1'']"
  have "reachable peer_stub peer_commit demo_uuid (\<lambda>k. []) ?w"
    by (rule demo_reachable) (simp add: demo_args_wf)
  from ledger_hash_chain [OF pw.peer_axioms demo_uuid_text this demo_key_eq]
  obtain rs where rs: "?w demo_key = map marshal_record rs" "chain_ok ''e1'' ''PAYROLL'' rs"
    by (metis (no_types, lifting))
  with demo_two_length have "length rs = 2" by (metis length_map)
  with rs show ?thesis by blast
qed

text \<open>The ledger is append-only: after any sequence of submissions the committed values a
  key had before are still there, in their order, followed by newer ones.\<close>

lemma ledger_append_only:
  assumes "peer stub_of commit committed key_of" and "reachable stub_of commit NewSHA1 w0 w"
  shows "prefix (committed w0 k) (committed w k)"
  using assms by (rule peer.reachable_append_only)

text \<open>C6: Refinement of the abstract chain. When a key holds a chain, a submission for it
  either returns an error and changes nothing, or repeats the digest of the last record and
  changes nothing, or appends one record that the abstract chain allows and that carries the
  submitted digest; the result names the record. In every case the committed values of all other keys stay.\<close>

theorem submit_refines_chain:
  assumes "peer stub_of commit committed key_of" and "uuid_text NewSHA1" and "wf_args a"
    and "key_of profileKeyObjectType [arg_employeeID a, arg_profileSection a] = Inr k"
    and "committed w k = map marshal_record rs"
    and "chain_ok (arg_employeeID a) (arg_profileSection a) rs"
    and "serial_submit stub_of commit NewSHA1 t a w = (r, w')"
  shows "(\<forall>k'. k' \<noteq> k \<longrightarrow> committed w' k' = committed w k')
    \<and> ((w' = w \<and> ((\<exists>e. r = Inl e)
            \<or> (rs \<noteq> [] \<and> DataHash (last rs) = arg_dataHash a \<and> r = Inr (head_result (last rs)))))
      \<or> (\<exists>rec. may_append (arg_employeeID a) (arg_profileSection a) rs rec
           \<and> DataHash rec = arg_dataHash a \<and> r = Inr (head_result rec)
           \<and> committed w' k = map marshal_record (rs @ [rec])))"
    (is "?frame \<and> ?outcome")
proof
  show ?frame using peer.submit_other_keys [OF assms(1,7,4)] by blast
  have "peer.holds_chain committed key_of w (arg_employeeID a) (arg_profileSection a) rs"
    using assms(1,4-6) by (auto simp: peer.holds_chain_def)
  from peer.submit_refines [OF assms(1) this assms(3,2,7)] consider
      (err) e where "r = Inl e" "w' = w"
    | (noop) "rs \<noteq> []" "DataHash (last rs) = arg_dataHash a" "r = Inr (head_result (last rs))" "w' = w"
    | (app) rec where "r = Inr (head_result rec)" "DataHash rec = arg_dataHash a"
        "peer.holds_chain committed key_of w' (arg_employeeID a) (arg_profileSection a) (rs @ [rec])"
    by blast
  then show ?outcome
  proof cases
    case (app rec)
    from app(3) assms(4) have "committed w' k = map marshal_record (rs @ [rec])"
      "chain_ok (arg_employeeID a) (arg_profileSection a) (rs @ [rec])"
      unfolding peer.holds_chain_def [OF assms(1)] by auto
    with app(1,2) show ?thesis unfolding chain_snoc by blast
  qed auto
qed

theorem submit_refines_chain_witness:
  "\<exists>r w'. serial_submit peer_stub peer_commit demo_uuid demo_tx (demo_args ''h1'' []) (\<lambda>k. []) = (r, w')
     \<and> (\<forall>k'. k' \<noteq> demo_key \<longrightarrow> w' k' = [])
     \<and> (w' = (\<lambda>k. []) \<or> (\<exists>rec. may_append ''e1'' ''PAYROLL'' [] rec \<and> DataHash rec = ''h1''
          \<and> w' demo_key = [marshal_record rec]))"
proof -
  obtain r w' where run: "serial_submit peer_stub peer_commit demo_uuid demo_tx (demo_args ''h1'' [])
      (\<lambda>k. []) = (r, w')" by (rule prod.exhaust)
  have args: "arg_employeeID (demo_args d p) = ''e1''" "arg_profileSection (demo_args d p) = ''PAYROLL''"
    "arg_dataHash (demo_args d p) = d" for d p by (simp_all add: demo_args_def)
  from submit_refines_chain [OF pw.peer_axioms demo_uuid_text _ _ _ _ run, of demo_key "[]"]
  have "(\<forall>k'. k' \<noteq> demo_key \<longrightarrow> w' k' = [])
      \<and> (w' = (\<lambda>k. []) \<or> (\<exists>rec. may_append ''e1'' ''PAYROLL'' [] rec \<and> DataHash rec = ''h1''
      \<and> w' demo_key = [marshal_record rec]))"
    using demo_key_eq by (auto simp: args demo_args_wf chain_empty)
  with run show ?thesis by blast
qed

text \<open>C8: The history query returns every version of a section, oldest first, whatever order
  the peer iterates in and whatever algorithm sorts them, as long as there are fewer than
  \<open>2^63\<close> versions.\<close>

theorem history_is_complete_and_ordered:
  assumes "peer stub_of commit committed key_of"
    and "key_of profileKeyObjectType [emp, sec] = Inr k"
    and "committed w k = map marshal_record rs" and "chain_ok emp sec rs"
    and "int (length rs) < 2 ^ 63"
    and "authorizeEvaluate (stub_of t w) = Inr m" and "IsValidProfileSection sec"
  shows "GetProfileHistory (stub_of t w) ten emp sec = Inr (map version_entry rs)
    \<and> map (Entry_Version \<circ> version_entry) rs = map (\<lambda>i. int i + 1) [0..<length rs]"
proof -
  have "peer.holds_chain committed key_of w emp sec rs"
    using assms(1-4) by (auto simp: peer.holds_chain_def)
  from peer.query_history [OF assms(1) this assms(6,7,5)] chain_versions [OF assms(4,5)]
  show ?thesis by (simp add: comp_def version_entry_def)
qed

theorem history_is_complete_and_ordered_witness:
  "\<exists>es. GetProfileHistory (peer_stub demo_tx (demo_run [demo_args ''h1'' [], demo_args ''h2'' ''h1'']))
      ''tenant01'' ''e1'' ''PAYROLL'' = Inr es \<and> map Entry_Version es = [1, 2]"
proof -
  let ?w = "demo_run [demo_args ''h1'' [], demo_args ''h2'' ''h1'']"
  from demo_two obtain qs where qs: "pw.holds_chain ?w ''e1'' ''PAYROLL'' qs"
    "map DataHash qs = [''h1'', ''h2'']" by (elim exE conjE)
  then obtain k where k: "composite_key profileKeyObjectType [''e1'', ''PAYROLL''] = Inr k"
    "?w k = map marshal_record qs" "chain_ok ''e1'' ''PAYROLL'' qs" unfolding pw.holds_chain_def by blast
  have len: "length qs = 2" using arg_cong [OF qs(2), of length] by simp
  then have len2: "int (length qs) < 2 ^ 63" by simp
  have ev: "authorizeEvaluate (peer_stub demo_tx ?w) = Inr ''OrgClient-tenant01MSP''"
    by (simp add: authorizeEvaluate_Inr callerMSPID_Inr isOrgClientMSP_def orgClientPrefix_def
        orgClientSuffix_def go_strings peer_stub_def demo_tx_def)
  have val: "IsValidProfileSection ''PAYROLL''"
    by (simp add: IsValidProfileSection_def allProfileSections_def)
  have "GetProfileHistory (peer_stub demo_tx ?w) ''tenant01'' ''e1'' ''PAYROLL'' = Inr (map version_entry qs)
      \<and> map (Entry_Version \<circ> version_entry) qs = map (\<lambda>i. int i + 1) [0..<length qs]"
    by (rule history_is_complete_and_ordered [where stub_of = peer_stub and committed = "\<lambda>w. w"
          and key_of = composite_key and w = ?w and k = k, OF pw.peer_axioms k(1) k(2) k(3) len2 ev val])
  then show ?thesis by (intro exI [of _ "map version_entry qs"]) (simp add: len upt_rec)
qed

text \<open>C20: Read your write. After a successful submission the head query returns the submitted
  digest with the time and version of the submission's own result, and submitting the same
  arguments again returns that same result and leaves the ledger as it is.\<close>

theorem submit_then_read_and_resubmit:
  assumes "peer stub_of commit committed key_of" and "uuid_text NewSHA1" and "wf_args a"
    and "key_of profileKeyObjectType [arg_employeeID a, arg_profileSection a] = Inr k"
    and "committed w k = map marshal_record rs"
    and "chain_ok (arg_employeeID a) (arg_profileSection a) rs"
    and "serial_submit stub_of commit NewSHA1 t a w = (Inr r, w')"
    and "authorizeEvaluate (stub_of q w') = Inr m" and "submit_guard (stub_of t' w') a = Inr ()"
  shows "(\<exists>h. GetProfileSectionRecord (stub_of q w') ten (arg_employeeID a) (arg_profileSection a) = Inr h
      \<and> Head_DataHash h = arg_dataHash a \<and> Head_Version h = Result_Version r
      \<and> Head_Timestamp h = Result_Timestamp r)
    \<and> serial_submit stub_of commit NewSHA1 t' a w' = (Inr r, w')"
proof -
  note ax = assms(1)
  have "peer.holds_chain committed key_of w (arg_employeeID a) (arg_profileSection a) rs"
    using assms(1,4-6) by (auto simp: peer.holds_chain_def)
  from peer.submit_refines [OF ax this assms(3,2,7)] \<open>peer.holds_chain _ _ _ _ _ rs\<close>
  obtain rs' where rs': "rs' \<noteq> []" "r = head_result (last rs')" "DataHash (last rs') = arg_dataHash a"
    "peer.holds_chain committed key_of w' (arg_employeeID a) (arg_profileSection a) rs'"
    by (metis Inl_Inr_False last_snoc snoc_eq_iff_butlast sum.inject(2))
  have val: "IsValidProfileSection (arg_profileSection a)"
    using assms(9) by (auto simp: submit_guard_def split: if_splits)
  obtain key where "readHead (stub_of t' w') (arg_employeeID a) (arg_profileSection a)
      = Inr (Some (last rs'), key)"
    using peer.readHead_chain [OF ax rs'(4), of t'] rs'(1) by auto
  from RecordProfileSection_noop [OF assms(9) this rs'(3)]
  have "serial_submit stub_of commit NewSHA1 t' a w' = (Inr r, w')"
    by (simp add: serial_submit_def no_effects_def peer.commit_none [OF ax] rs'(2))
  with peer.query_head [OF ax rs'(4) assms(8) val, of ten] rs'(1-3) show ?thesis
    by (simp add: head_result_def)
qed

theorem submit_then_read_and_resubmit_witness:
  "\<exists>r w'. serial_submit peer_stub peer_commit demo_uuid demo_tx (demo_args ''h1'' []) (\<lambda>k. []) = (Inr r, w')
     \<and> serial_submit peer_stub peer_commit demo_uuid demo_tx (demo_args ''h1'' []) w' = (Inr r, w')"
proof -
  let ?a = "demo_args ''h1'' []"
  have args: "arg_employeeID (demo_args d p) = ''e1''" "arg_profileSection (demo_args d p) = ''PAYROLL''"
    "arg_dataHash (demo_args d p) = d" "arg_prevHash (demo_args d p) = p" for d p
    by (simp_all add: demo_args_def)
  have k: "composite_key profileKeyObjectType [arg_employeeID ?a, arg_profileSection ?a] = Inr demo_key"
    using demo_key_eq by (simp add: args)
  have ch: "pw.holds_chain (\<lambda>k. []) (arg_employeeID ?a) (arg_profileSection ?a) []"
    using k unfolding pw.holds_chain_def by (auto simp: chain_empty)
  have wf: "wf_args ?a" by (simp add: demo_args_wf)
  have g: "submit_guard (peer_stub demo_tx w) ?a = Inr ()" for w by (simp add: demo_guard)
  have "\<exists>rec w'. serial_submit peer_stub peer_commit demo_uuid demo_tx ?a (\<lambda>k. []) = (Inr (head_result rec), w')"
    using pw.submit_progress [OF ch wf demo_uuid_text g, of "(0, 0)"]
    by (auto simp: args head_hash_def peer_stub_def demo_tx_def)
  then obtain r w' where run: "serial_submit peer_stub peer_commit demo_uuid demo_tx ?a (\<lambda>k. []) = (Inr r, w')"
    by blast
  have ev: "authorizeEvaluate (peer_stub demo_tx w') = Inr ''OrgClient-tenant01MSP''"
    by (simp add: authorizeEvaluate_Inr callerMSPID_Inr isOrgClientMSP_def orgClientPrefix_def
        orgClientSuffix_def go_strings peer_stub_def demo_tx_def)
  have "(\<exists>h. GetProfileSectionRecord (peer_stub demo_tx w') [] (arg_employeeID ?a) (arg_profileSection ?a) = Inr h
        \<and> Head_DataHash h = arg_dataHash ?a \<and> Head_Version h = Result_Version r
        \<and> Head_Timestamp h = Result_Timestamp r)
      \<and> serial_submit peer_stub peer_commit demo_uuid demo_tx ?a w' = (Inr r, w')"
    by (rule submit_then_read_and_resubmit [where stub_of = peer_stub and committed = "\<lambda>w. w"
          and key_of = composite_key and rs = "[]", OF pw.peer_axioms demo_uuid_text wf k _ _ run ev g]) (simp_all add: chain_empty)
  with run show ?thesis by blast
qed

end
