(* ===== verification/Go_Crypto.thy ===== *)
theory Go_Crypto
  imports Prelude
begin

unbundle bit_operations_syntax

text \<open>
  The cryptography of the Go standard library that the sources call, as executable
  definitions over machine words: SHA-256 (FIPS 180-4), HMAC-SHA-256 (RFC 2104), the AES
  block cipher (FIPS 197, encryption only) and GCM (SP 800-38D) with the 12-byte nonce and
  16-byte tag of \<open>cipher.NewGCM\<close>. Nothing is assumed about them; the facts proved are
  lengths, the round trip of GCM's seal and open, and that open rejects a wrong tag.
\<close>

section \<open>Bytes and words\<close>

definition byte :: "char \<Rightarrow> 8 word" where
  "byte c = word_of_nat (of_char c)"

definition unbyte :: "8 word \<Rightarrow> char" where
  "unbyte w = char_of (unat w)"

definition xor_char :: "char \<Rightarrow> char \<Rightarrow> char" where
  "xor_char a b = unbyte (byte a XOR byte b)"

definition xor_bytes :: "string \<Rightarrow> string \<Rightarrow> string" where
  "xor_bytes s t = map2 xor_char s t"

lemma unbyte_byte [simp]: "unbyte (byte c) = c"
proof -
  have "(of_char c :: nat) < 256" by simp
  then have "unat (word_of_nat (of_char c) :: 8 word) = of_char c"
    by (simp add: unat_of_nat)
  then show ?thesis by (simp add: unbyte_def byte_def)
qed

lemma byte_unbyte [simp]: "byte (unbyte w) = w"
proof -
  have "unat w < 256" using unsigned_less [of w] by simp
  then show ?thesis by (simp add: unbyte_def byte_def)
qed

lemma xor_char_cancel [simp]: "xor_char (xor_char a b) b = a"
  by (simp add: xor_char_def xor.assoc)

lemma length_xor_bytes [simp]: "length (xor_bytes s t) = min (length s) (length t)"
  by (simp add: xor_bytes_def)

lemma xor_bytes_cancel: "length s \<le> length t \<Longrightarrow> xor_bytes (xor_bytes s t) t = s"
  by (rule nth_equalityI) (simp_all add: xor_bytes_def)

text \<open>Big-endian numbers of a fixed number of bytes.\<close>

fun be_bytes :: "nat \<Rightarrow> nat \<Rightarrow> string" where
  "be_bytes 0 n = []"
| "be_bytes (Suc k) n = be_bytes k (n div 256) @ [char_of n]"

definition be_value :: "string \<Rightarrow> nat" where
  "be_value s = foldl (\<lambda>a c. 256 * a + of_char c) 0 s"

lemma length_be_bytes [simp]: "length (be_bytes k n) = k"
  by (induction k arbitrary: n) simp_all

lemma be_value_bytes: "n < 256 ^ k \<Longrightarrow> be_value (be_bytes k n) = n"
proof (induction k arbitrary: n)
  case (Suc k)
  then have "n div 256 < 256 ^ k" by (simp add: less_mult_imp_div_less mult.commute)
  with Suc.IH [of "n div 256"] show ?case by (simp add: be_value_def)
qed (simp add: be_value_def)

fun chunks :: "nat \<Rightarrow> 'a list \<Rightarrow> 'a list list" where
  "chunks n [] = []"
| "chunks n (x # xs) = (x # take (n - 1) xs) # chunks n (drop (n - 1) xs)"

section \<open>SHA-256\<close>

text \<open>The constants of FIPS 180-4, eight 32-bit words to a number, most significant first.\<close>

definition eight_words :: "int \<Rightarrow> 32 word list" where
  "eight_words n = map (\<lambda>i. word_of_int (n div 2 ^ (32 * i))) [7, 6, 5, 4, 3, 2, 1, 0]"

definition sha_K :: "32 word list" where
  "sha_K =
     concat (map eight_words
        [0x428a2f9871374491b5c0fbcfe9b5dba53956c25b59f111f1923f82a4ab1c5ed5,
         0xd807aa9812835b01243185be550c7dc372be5d7480deb1fe9bdc06a7c19bf174,
         0xe49b69c1efbe47860fc19dc6240ca1cc2de92c6f4a7484aa5cb0a9dc76f988da,
         0x983e5152a831c66db00327c8bf597fc7c6e00bf3d5a7914706ca635114292967,
         0x27b70a852e1b21384d2c6dfc53380d13650a7354766a0abb81c2c92e92722c85,
         0xa2bfe8a1a81a664bc24b8b70c76c51a3d192e819d6990624f40e3585106aa070,
         0x19a4c1161e376c082748774c34b0bcb5391c0cb34ed8aa4a5b9cca4f682e6ff3,
         0x748f82ee78a5636f84c878148cc7020890befffaa4506cebbef9a3f7c67178f2])"

definition sha_H0 :: "32 word list" where
  "sha_H0 = eight_words 0x6a09e667bb67ae853c6ef372a54ff53a510e527f9b05688c1f83d9ab5be0cd19"

definition Ch :: "32 word \<Rightarrow> 32 word \<Rightarrow> 32 word \<Rightarrow> 32 word" where
  "Ch x y z = (x AND y) XOR (NOT x AND z)"

definition Maj :: "32 word \<Rightarrow> 32 word \<Rightarrow> 32 word \<Rightarrow> 32 word" where
  "Maj x y z = (x AND y) XOR (x AND z) XOR (y AND z)"

definition bsig0 :: "32 word \<Rightarrow> 32 word" where
  "bsig0 x = word_rotr 2 x XOR word_rotr 13 x XOR word_rotr 22 x"

definition bsig1 :: "32 word \<Rightarrow> 32 word" where
  "bsig1 x = word_rotr 6 x XOR word_rotr 11 x XOR word_rotr 25 x"

definition ssig0 :: "32 word \<Rightarrow> 32 word" where
  "ssig0 x = word_rotr 7 x XOR word_rotr 18 x XOR drop_bit 3 x"

definition ssig1 :: "32 word \<Rightarrow> 32 word" where
  "ssig1 x = word_rotr 17 x XOR word_rotr 19 x XOR drop_bit 10 x"

text \<open>The message schedule, kept newest first while it grows.\<close>

fun sha_schedule :: "nat \<Rightarrow> 32 word list \<Rightarrow> 32 word list" where
  "sha_schedule 0 ws = rev ws"
| "sha_schedule (Suc n) ws =
     sha_schedule n ((ssig1 (ws ! 1) + ws ! 6 + ssig0 (ws ! 14) + ws ! 15) # ws)"

type_synonym sha_vars =
  "32 word \<times> 32 word \<times> 32 word \<times> 32 word \<times> 32 word \<times> 32 word \<times> 32 word \<times> 32 word"

fun sha_round :: "sha_vars \<Rightarrow> 32 word \<times> 32 word \<Rightarrow> sha_vars" where
  "sha_round (a, b, c, d, e, f, g, h) (k, w) =
     (let t1 = h + bsig1 e + Ch e f g + k + w;
          t2 = bsig0 a + Maj a b c
      in (t1 + t2, a, b, c, d + t1, e, f, g))"

definition sha_block :: "32 word list \<Rightarrow> string \<Rightarrow> 32 word list" where
  "sha_block hs blk =
     (let ws = sha_schedule 48 (rev (map (\<lambda>b. word_of_nat (be_value b)) (chunks 4 blk)));
          (a, b, c, d, e, f, g, h) =
            foldl sha_round (hs ! 0, hs ! 1, hs ! 2, hs ! 3, hs ! 4, hs ! 5, hs ! 6, hs ! 7)
              (zip sha_K ws)
      in map2 (+) hs [a, b, c, d, e, f, g, h])"

definition sha_pad :: "string \<Rightarrow> string" where
  "sha_pad m = m @ [CHR 0x80] @ replicate ((119 - length m mod 64) mod 64) (CHR 0x00)
               @ be_bytes 8 (8 * length m)"

definition sha256 :: "string \<Rightarrow> string" where
  "sha256 m =
     concat (map (\<lambda>w. be_bytes 4 (unat w)) (foldl sha_block sha_H0 (chunks 64 (sha_pad m))))"

lemma length_sha_block [simp]: "length hs = 8 \<Longrightarrow> length (sha_block hs blk) = 8"
  by (simp add: sha_block_def Let_def split: prod.splits)

lemma length_sha256 [simp]: "length (sha256 m) = 32"
proof -
  have "length (foldl sha_block hs bs) = 8" if "length hs = 8" for hs bs
    using that by (induction bs arbitrary: hs) simp_all
  then have "length (foldl sha_block sha_H0 (chunks 64 (sha_pad m))) = 8"
    by (simp add: sha_H0_def eight_words_def)
  then show ?thesis by (simp add: sha256_def length_concat comp_def sum_list_triv)
qed

section \<open>HMAC-SHA-256\<close>

definition hmac_block_key :: "string \<Rightarrow> string" where
  "hmac_block_key k =
     (let k' = (if length k > 64 then sha256 k else k) in k' @ replicate (64 - length k') (CHR 0x00))"

definition hmac_sha256 :: "string \<Rightarrow> string \<Rightarrow> string" where
  "hmac_sha256 k m =
     (let kb = hmac_block_key k
      in sha256 (xor_bytes kb (replicate 64 (CHR 0x5C))
           @ sha256 (xor_bytes kb (replicate 64 (CHR 0x36)) @ m)))"

lemma length_hmac [simp]: "length (hmac_sha256 k m) = 32"
  by (simp add: hmac_sha256_def Let_def)

section \<open>AES\<close>

definition aes_sbox :: "8 word list" where
  "aes_sbox =
     [0x63, 0x7c, 0x77, 0x7b, 0xf2, 0x6b, 0x6f, 0xc5, 0x30, 0x1, 0x67, 0x2b, 0xfe, 0xd7, 0xab, 0x76,
       0xca, 0x82, 0xc9, 0x7d, 0xfa, 0x59, 0x47, 0xf0, 0xad, 0xd4, 0xa2, 0xaf, 0x9c, 0xa4, 0x72, 0xc0,
       0xb7, 0xfd, 0x93, 0x26, 0x36, 0x3f, 0xf7, 0xcc, 0x34, 0xa5, 0xe5, 0xf1, 0x71, 0xd8, 0x31, 0x15,
       0x4, 0xc7, 0x23, 0xc3, 0x18, 0x96, 0x5, 0x9a, 0x7, 0x12, 0x80, 0xe2, 0xeb, 0x27, 0xb2, 0x75,
       0x9, 0x83, 0x2c, 0x1a, 0x1b, 0x6e, 0x5a, 0xa0, 0x52, 0x3b, 0xd6, 0xb3, 0x29, 0xe3, 0x2f, 0x84,
       0x53, 0xd1, 0x0, 0xed, 0x20, 0xfc, 0xb1, 0x5b, 0x6a, 0xcb, 0xbe, 0x39, 0x4a, 0x4c, 0x58, 0xcf,
       0xd0, 0xef, 0xaa, 0xfb, 0x43, 0x4d, 0x33, 0x85, 0x45, 0xf9, 0x2, 0x7f, 0x50, 0x3c, 0x9f, 0xa8,
       0x51, 0xa3, 0x40, 0x8f, 0x92, 0x9d, 0x38, 0xf5, 0xbc, 0xb6, 0xda, 0x21, 0x10, 0xff, 0xf3, 0xd2,
       0xcd, 0xc, 0x13, 0xec, 0x5f, 0x97, 0x44, 0x17, 0xc4, 0xa7, 0x7e, 0x3d, 0x64, 0x5d, 0x19, 0x73,
       0x60, 0x81, 0x4f, 0xdc, 0x22, 0x2a, 0x90, 0x88, 0x46, 0xee, 0xb8, 0x14, 0xde, 0x5e, 0xb, 0xdb,
       0xe0, 0x32, 0x3a, 0xa, 0x49, 0x6, 0x24, 0x5c, 0xc2, 0xd3, 0xac, 0x62, 0x91, 0x95, 0xe4, 0x79,
       0xe7, 0xc8, 0x37, 0x6d, 0x8d, 0xd5, 0x4e, 0xa9, 0x6c, 0x56, 0xf4, 0xea, 0x65, 0x7a, 0xae, 0x8,
       0xba, 0x78, 0x25, 0x2e, 0x1c, 0xa6, 0xb4, 0xc6, 0xe8, 0xdd, 0x74, 0x1f, 0x4b, 0xbd, 0x8b, 0x8a,
       0x70, 0x3e, 0xb5, 0x66, 0x48, 0x3, 0xf6, 0xe, 0x61, 0x35, 0x57, 0xb9, 0x86, 0xc1, 0x1d, 0x9e,
       0xe1, 0xf8, 0x98, 0x11, 0x69, 0xd9, 0x8e, 0x94, 0x9b, 0x1e, 0x87, 0xe9, 0xce, 0x55, 0x28, 0xdf,
       0x8c, 0xa1, 0x89, 0xd, 0xbf, 0xe6, 0x42, 0x68, 0x41, 0x99, 0x2d, 0xf, 0xb0, 0x54, 0xbb, 0x16]"

definition sub_byte :: "8 word \<Rightarrow> 8 word" where
  "sub_byte b = aes_sbox ! unat b"

definition xtime :: "8 word \<Rightarrow> 8 word" where
  "xtime b = push_bit 1 b XOR (if bit b 7 then 0x1b else 0)"

definition xor_list :: "8 word list \<Rightarrow> 8 word list \<Rightarrow> 8 word list" where
  "xor_list s t = map2 (XOR) s t"

text \<open>A key of 4, 6 or 8 words expands to \<open>4 * (rounds + 1)\<close> words, newest first.\<close>

fun aes_expand :: "nat \<Rightarrow> nat \<Rightarrow> nat \<Rightarrow> 8 word \<Rightarrow> 8 word list list \<Rightarrow> 8 word list list" where
  "aes_expand 0 nk i rc ws = rev ws"
| "aes_expand (Suc n) nk i rc ws =
     (let t = hd ws;
          t' = (if i mod nk = 0 then xor_list (map sub_byte (rotate1 t)) [rc, 0, 0, 0]
                else if nk > 6 \<and> i mod nk = 4 then map sub_byte t else t)
      in aes_expand n nk (Suc i) (if i mod nk = 0 then xtime rc else rc)
           (xor_list (ws ! (nk - 1)) t' # ws))"

definition aes_round_keys :: "8 word list \<Rightarrow> 8 word list list" where
  "aes_round_keys key =
     (let nk = length key div 4
      in map concat (chunks 4 (aes_expand (4 * (nk + 7) - nk) nk nk 1 (rev (chunks 4 key)))))"

definition shift_rows :: "8 word list \<Rightarrow> 8 word list" where
  "shift_rows s = map (\<lambda>i. s ! ((5 * i) mod 16)) [0..<16]"

fun mix_column :: "8 word list \<Rightarrow> 8 word list" where
  "mix_column [a, b, c, d] =
     [xtime a XOR (xtime b XOR b) XOR c XOR d, a XOR xtime b XOR (xtime c XOR c) XOR d,
      a XOR b XOR xtime c XOR (xtime d XOR d), (xtime a XOR a) XOR b XOR c XOR xtime d]"
| "mix_column s = s"

fun aes_rounds :: "8 word list list \<Rightarrow> 8 word list \<Rightarrow> 8 word list" where
  "aes_rounds [] s = s"
| "aes_rounds [k] s = xor_list (shift_rows (map sub_byte s)) k"
| "aes_rounds (k # k' # ks) s =
     aes_rounds (k' # ks)
       (xor_list (concat (map mix_column (chunks 4 (shift_rows (map sub_byte s))))) k)"

definition aes_encrypt :: "string \<Rightarrow> string \<Rightarrow> string" where
  "aes_encrypt key blk =
     (let rks = aes_round_keys (map byte key)
      in map unbyte (aes_rounds (tl rks) (xor_list (map byte blk) (hd rks))))"

section \<open>GCM\<close>

text \<open>Multiplication in the field of \<open>2^128\<close> elements, bit 0 being the most significant.\<close>

fun gf_mult :: "nat \<Rightarrow> 128 word \<Rightarrow> 128 word \<Rightarrow> 128 word \<Rightarrow> 128 word" where
  "gf_mult 0 x v z = z"
| "gf_mult (Suc n) x v z =
     gf_mult n x
       (if bit v 0 then drop_bit 1 v XOR push_bit 120 0xe1 else drop_bit 1 v)
       (if bit x n then z XOR v else z)"

definition pad16 :: "string \<Rightarrow> string" where
  "pad16 s = s @ replicate ((16 - length s mod 16) mod 16) (CHR 0x00)"

definition ghash :: "128 word \<Rightarrow> string \<Rightarrow> 128 word" where
  "ghash h s = foldl (\<lambda>y b. gf_mult 128 (y XOR word_of_nat (be_value b)) h 0) 0 (chunks 16 s)"

text \<open>The key stream for \<open>n\<close> bytes: the cipher on the counter blocks from \<open>ctr\<close> on.\<close>

definition gcm_stream :: "(string \<Rightarrow> string) \<Rightarrow> string \<Rightarrow> nat \<Rightarrow> string" where
  "gcm_stream E nonce n =
     take n (concat (map (\<lambda>i. take 16 (E (nonce @ be_bytes 4 (i + 2)) @ replicate 16 (CHR 0x00)))
                       [0..<(n + 15) div 16]))"

definition gcm_tag :: "(string \<Rightarrow> string) \<Rightarrow> string \<Rightarrow> string \<Rightarrow> string \<Rightarrow> string" where
  "gcm_tag E nonce aad ct =
     xor_bytes
       (be_bytes 16 (unat (ghash (word_of_nat (be_value (E (replicate 16 (CHR 0x00)))))
          (pad16 aad @ pad16 ct @ be_bytes 8 (8 * length aad) @ be_bytes 8 (8 * length ct)))))
       (take 16 (E (nonce @ be_bytes 4 1) @ replicate 16 (CHR 0x00)))"

definition gcm_seal :: "(string \<Rightarrow> string) \<Rightarrow> string \<Rightarrow> string \<Rightarrow> string \<Rightarrow> string" where
  "gcm_seal E nonce plaintext aad =
     (let ct = xor_bytes plaintext (gcm_stream E nonce (length plaintext))
      in ct @ gcm_tag E nonce aad ct)"

definition gcm_open :: "(string \<Rightarrow> string) \<Rightarrow> string \<Rightarrow> string \<Rightarrow> string \<Rightarrow> string option" where
  "gcm_open E nonce sealed aad =
     (if length sealed < 16 then None
      else let ct = take (length sealed - 16) sealed; tag = drop (length sealed - 16) sealed
           in if tag = gcm_tag E nonce aad ct
              then Some (xor_bytes ct (gcm_stream E nonce (length ct))) else None)"

lemma length_gcm_stream [simp]: "length (gcm_stream E nonce n) = n"
proof -
  have "length (concat (map (\<lambda>i. take 16 (E (nonce @ be_bytes 4 (i + 2)) @ replicate 16 (CHR 0x00))) xs))
      = 16 * length xs" for xs by (induction xs) simp_all
  then show ?thesis by (simp add: gcm_stream_def)
qed

lemma length_gcm_tag [simp]: "length (gcm_tag E nonce aad ct) = 16"
  by (simp add: gcm_tag_def)

lemma length_gcm_seal [simp]: "length (gcm_seal E nonce p aad) = length p + 16"
  by (simp add: gcm_seal_def Let_def)

lemma gcm_open_seal: "gcm_open E nonce (gcm_seal E nonce p aad) aad = Some p"
  by (simp add: gcm_open_def gcm_seal_def Let_def xor_bytes_cancel)

text \<open>What open accepts is exactly what seal produces for the plaintext it returns.\<close>

lemma gcm_open_Some:
  assumes "gcm_open E nonce s aad = Some p"
  shows "s = gcm_seal E nonce p aad"
proof -
  from assms have len: "16 \<le> length s"
    and tag: "drop (length s - 16) s = gcm_tag E nonce aad (take (length s - 16) s)"
    and p: "p = xor_bytes (take (length s - 16) s) (gcm_stream E nonce (length s - 16))"
    by (auto simp: gcm_open_def Let_def split: if_splits)
  have "xor_bytes p (gcm_stream E nonce (length p)) = take (length s - 16) s"
    by (simp add: p xor_bytes_cancel)
  with tag show ?thesis by (simp add: gcm_seal_def Let_def) (metis append_take_drop_id)
qed

end
