(* ===== verification/Filestore.thy ===== *)
theory Filestore
  imports Keystore Go_Crypto "HOL-Library.AList"
begin

text \<open>
  The encrypted file stores (keystore/filestore.go). A store is one file: the gob encoding of
  a map from names to byte strings, sealed with AES-256-GCM under a fresh nonce, written to a
  temporary file and renamed over the old one. The disk is explicit (files by path, and a
  schedule of faults for its operations), so a failed write, a failed rename and a crash
  between the two are states of the model. The result is that every store refines its
  in-memory counterpart: the locales \<open>key_store\<close> and \<open>salt_store\<close> hold for the files too.

  \<open>encoding/gob\<close> is modelled for the one type used, \<open>map[string][]byte\<close>: the type
  descriptor, then one message with the entries. The decoder accepts exactly the streams
  with that descriptor; \<open>load\<close> applies it only to text that passed authentication. A Go map is an
  association list here; its order stands for the map's iteration order, and the views
  the theorems speak about do not depend on it.
\<close>

section \<open>Package gob for \<open>map[string][]byte\<close>\<close>

fun be_min :: "nat \<Rightarrow> string" where
  "be_min n = (if n = 0 then [] else be_min (n div 256) @ [char_of n])"

declare be_min.simps [simp del]

definition gob_uint :: "nat \<Rightarrow> string" where
  "gob_uint n = (if n < 128 then [char_of n] else char_of (256 - length (be_min n)) # be_min n)"

definition gob_get_uint :: "string \<Rightarrow> (nat \<times> string) option" where
  "gob_get_uint s =
     (case s of
        [] \<Rightarrow> None
      | c # r \<Rightarrow>
          if (of_char c :: nat) < 128 then Some (of_char c, r)
          else let k = 256 - of_char c
               in if k \<le> 8 \<and> k \<le> length r then Some (be_value (take k r), drop k r) else None)"

definition gob_bytes :: "string \<Rightarrow> string" where
  "gob_bytes s = gob_uint (length s) @ s"

definition gob_get_bytes :: "string \<Rightarrow> (string \<times> string) option" where
  "gob_get_bytes s =
     (case gob_get_uint s of
        None \<Rightarrow> None
      | Some (n, r) \<Rightarrow> if n \<le> length r then Some (take n r, drop n r) else None)"

definition gob_type :: string where
  "gob_type = map char_of [0x0e, 0xff, 0x81, 0x04, 0x01, 0x02, 0xff, 0x82, 0x00, 0x01, 0x0c, 0x01, 0x0a,
     0x00, 0x00 :: nat]"

definition gob_head :: string where
  "gob_head = map char_of [0xff, 0x82, 0x00 :: nat]"

definition gob_body :: "(string \<times> string) list \<Rightarrow> string" where
  "gob_body kvs =
     gob_head @ gob_uint (length kvs) @ concat (map (\<lambda>(k, v). gob_bytes k @ gob_bytes v) kvs)"

definition gob_encode :: "(string \<times> string) list \<Rightarrow> string" where
  "gob_encode kvs = gob_type @ gob_bytes (gob_body kvs)"

fun gob_entries :: "nat \<Rightarrow> string \<Rightarrow> (string \<times> string) list option" where
  "gob_entries 0 s = Some []"
| "gob_entries (Suc n) s =
     (case gob_get_bytes s of
        None \<Rightarrow> None
      | Some (k, r) \<Rightarrow>
          (case gob_get_bytes r of
             None \<Rightarrow> None
           | Some (v, r') \<Rightarrow>
               map_option (\<lambda>kvs. if k \<in> fst ` set kvs then kvs else (k, v) # kvs) (gob_entries n r')))"

definition gob_decode :: "string \<Rightarrow> (string \<times> string) list option" where
  "gob_decode s =
     (if \<not> has_prefix s gob_type then None
      else case gob_get_bytes (drop (length gob_type) s) of
             None \<Rightarrow> None
           | Some (body, _) \<Rightarrow>
               if \<not> has_prefix body gob_head then None
               else case gob_get_uint (drop (length gob_head) body) of
                      None \<Rightarrow> None
                    | Some (n, r) \<Rightarrow> gob_entries n r)"

lemma be_value_snoc: "be_value (s @ [c]) = 256 * be_value s + of_char c"
  by (simp add: be_value_def)

lemma be_value_min [simp]: "be_value (be_min n) = n"
proof (induction n rule: be_min.induct)
  case (1 n)
  then show ?case by (subst be_min.simps) (simp add: be_value_snoc, simp add: be_value_def)
qed

lemma length_be_min: "n < 256 ^ k \<Longrightarrow> length (be_min n) \<le> k"
proof (induction n arbitrary: k rule: be_min.induct)
  case (1 n)
  show ?case
  proof (cases "n = 0")
    case False
    with "1.prems" obtain j where k: "k = Suc j" by (cases k) auto
    with "1.prems" have "n div 256 < 256 ^ j" by (simp add: less_mult_imp_div_less mult.commute)
    with "1.IH" [OF False] k False show ?thesis by (subst be_min.simps) simp
  qed (simp add: be_min.simps)
qed

lemma gob_get_uint_uint: "n < 2 ^ 64 \<Longrightarrow> gob_get_uint (gob_uint n @ r) = Some (n, r)"
proof -
  assume "n < 2 ^ 64"
  then have len: "length (be_min n) \<le> 8" using length_be_min [of n 8] by simp
  show ?thesis
  proof (cases "n < 128")
    case True
    then show ?thesis by (simp add: gob_uint_def gob_get_uint_def)
  next
    case False
    then have "0 < length (be_min n)" by (subst be_min.simps) simp
    then show ?thesis
      using False len by (simp add: gob_uint_def gob_get_uint_def Let_def)
  qed
qed

lemma gob_get_bytes_bytes: "length s < 2 ^ 64 \<Longrightarrow> gob_get_bytes (gob_bytes s @ r) = Some (s, r)"
  by (simp add: gob_bytes_def gob_get_bytes_def gob_get_uint_uint)

text \<open>Lengths the encoder can write: below \<open>2^64\<close>.\<close>

definition gob_small :: "(string \<times> string) list \<Rightarrow> bool" where
  "gob_small kvs \<longleftrightarrow>
     length (gob_body kvs) < 2 ^ 64 \<and> length kvs < 2 ^ 64
     \<and> (\<forall>(k, v) \<in> set kvs. length k < 2 ^ 64 \<and> length v < 2 ^ 64)"

lemma gob_entries_encode:
  "distinct (map fst kvs) \<Longrightarrow> (\<forall>(k, v) \<in> set kvs. length k < 2 ^ 64 \<and> length v < 2 ^ 64) \<Longrightarrow>
   \<exists>kvs'. gob_entries (length kvs) (concat (map (\<lambda>(k, v). gob_bytes k @ gob_bytes v) kvs) @ r) = Some kvs'
     \<and> map_of kvs' = map_of kvs \<and> distinct (map fst kvs')"
proof (induction kvs)
  case (Cons x kvs)
  obtain k v where x: "x = (k, v)" by (cases x)
  from Cons obtain kvs' where IH: "gob_entries (length kvs)
      (concat (map (\<lambda>(k, v). gob_bytes k @ gob_bytes v) kvs) @ r) = Some kvs'"
    "map_of kvs' = map_of kvs" "distinct (map fst kvs')" by auto
  have len: "length k < 2 ^ 64" "length v < 2 ^ 64" using Cons.prems(2) x by auto
  have "k \<notin> fst ` set kvs'"
    using Cons.prems(1) x IH(2) by (metis fst_conv distinct.simps(2) list.set_map list.simps(9)
        map_of_eq_None_iff)
  then show ?case
    using IH by (auto simp: x gob_get_bytes_bytes [OF len(1)] gob_get_bytes_bytes [OF len(2)])
qed simp

text \<open>Decoding what was encoded gives a list for the same map.\<close>

lemma gob_roundtrip:
  assumes "distinct (map fst kvs)" and "gob_small kvs"
  shows "\<exists>kvs'. gob_decode (gob_encode kvs) = Some kvs' \<and> map_of kvs' = map_of kvs
    \<and> distinct (map fst kvs')"
proof -
  have body: "gob_get_bytes (gob_bytes (gob_body kvs) @ []) = Some (gob_body kvs, [])"
    using assms(2) by (intro gob_get_bytes_bytes) (simp add: gob_small_def)
  have cnt: "gob_get_uint (gob_uint (length kvs) @ concat (map (\<lambda>(k, v). gob_bytes k @ gob_bytes v) kvs))
      = Some (length kvs, concat (map (\<lambda>(k, v). gob_bytes k @ gob_bytes v) kvs))"
    using assms(2) by (intro gob_get_uint_uint) (simp add: gob_small_def)
  have hd: "has_prefix (gob_body kvs) gob_head"
    "drop (length gob_head) (gob_body kvs) = gob_uint (length kvs)
       @ concat (map (\<lambda>(k, v). gob_bytes k @ gob_bytes v) kvs)"
    by (simp_all add: gob_body_def)
  have "gob_decode (gob_encode kvs) =
      gob_entries (length kvs) (concat (map (\<lambda>(k, v). gob_bytes k @ gob_bytes v) kvs))"
    using body cnt by (simp add: gob_decode_def gob_encode_def hd)
  with gob_entries_encode [OF assms(1), of "[]"] assms(2) show ?thesis
    by (simp add: gob_small_def)
qed

section \<open>The disk\<close>

definition ErrNotExist :: goerr where
  "ErrNotExist = Sentinel ''file does not exist''"

definition ErrFileTooLarge :: goerr where
  "ErrFileTooLarge = Sentinel ''file too large''"

text \<open>The \<open>i\<close>-th operation fails with the given error; a failing write leaves the given
  number of bytes in the file. No file reaches \<open>2^63\<close> bytes.\<close>

record disk =
  files :: "string \<rightharpoonup> string"
  fault :: "nat \<Rightarrow> (goerr \<times> nat) option"
  ops :: nat

definition os_ReadFile :: "string \<Rightarrow> (disk, goerr, string) act" where
  "os_ReadFile p d =
     (case fault d (ops d) of
        Some (e, _) \<Rightarrow> (Inl e, d\<lparr>ops := ops d + 1\<rparr>)
      | None \<Rightarrow>
          (case files d p of
             None \<Rightarrow> (Inl ErrNotExist, d\<lparr>ops := ops d + 1\<rparr>)
           | Some c \<Rightarrow> (Inr c, d\<lparr>ops := ops d + 1\<rparr>)))"

definition os_WriteFile :: "string \<Rightarrow> string \<Rightarrow> (disk, goerr, unit) act" where
  "os_WriteFile p c d =
     (case fault d (ops d) of
        Some (e, n) \<Rightarrow> (Inl e, d\<lparr>files := (files d)(p \<mapsto> take n c), ops := ops d + 1\<rparr>)
      | None \<Rightarrow>
          if 2 ^ 63 \<le> length c
          then (Inl ErrFileTooLarge, d\<lparr>files := (files d)(p \<mapsto> []), ops := ops d + 1\<rparr>)
          else (Inr (), d\<lparr>files := (files d)(p \<mapsto> c), ops := ops d + 1\<rparr>))"

definition os_Rename :: "string \<Rightarrow> string \<Rightarrow> (disk, goerr, unit) act" where
  "os_Rename p q d =
     (case fault d (ops d) of
        Some (e, _) \<Rightarrow> (Inl e, d\<lparr>ops := ops d + 1\<rparr>)
      | None \<Rightarrow>
          (case files d p of
             None \<Rightarrow> (Inl ErrNotExist, d\<lparr>ops := ops d + 1\<rparr>)
           | Some c \<Rightarrow> (Inr (), d\<lparr>files := ((files d)(p := None))(q \<mapsto> c), ops := ops d + 1\<rparr>)))"

section \<open>One encrypted file\<close>

record fileStore =
  fs_path :: string
  fs_key :: string

definition newFileStore :: "string \<Rightarrow> string \<Rightarrow> fileStore res" where
  "newFileStore path key =
     (if length key \<noteq> 32
      then Inl (Plain (''keystore: encryption key must be exactly 32 bytes (AES-256), got '' @ itoa (int (length key))))
      else Inr \<lparr>fs_path = path, fs_key = key\<rparr>)"

definition NonceSize :: nat where
  "NonceSize = 12"

text \<open>\<open>aes.NewCipher\<close> and \<open>cipher.NewGCM\<close> fail for other key lengths only.\<close>

definition NewCipher :: "string \<Rightarrow> (string \<Rightarrow> string) res" where
  "NewCipher key =
     (if length key \<in> {16, 24, 32} then Inr (aes_encrypt key)
      else Inl (Plain (''crypto/aes: invalid key size '' @ itoa (int (length key)))))"

definition unseal :: "fileStore \<Rightarrow> string \<Rightarrow> (string \<times> string) list res" where
  "unseal f raw =
     (if length raw = 0 then Inr []
      else case NewCipher (fs_key f) of
             Inl err \<Rightarrow> Inl (wrap ''keystore: constructing cipher'' err)
           | Inr E \<Rightarrow>
               if length raw < NonceSize
               then Inl (Plain (''keystore: '' @ fs_path f @ '' is corrupt (shorter than one nonce)''))
               else case gcm_open E (take NonceSize raw) (drop NonceSize raw) [] of
                      None \<Rightarrow> Inl (wrap (''keystore: decrypting '' @ fs_path f
                                 @ '' (wrong key, or the file is corrupt/tampered)'')
                               (Plain ''cipher: message authentication failed''))
                    | Some plaintext \<Rightarrow>
                        (case gob_decode plaintext of
                           None \<Rightarrow> Inl (wrap (''keystore: decoding '' @ fs_path f) (Plain ''gob: bad data''))
                         | Some data \<Rightarrow> Inr data))"

definition load :: "fileStore \<Rightarrow> (disk, goerr, (string \<times> string) list) act" where
  "load f d =
     (case os_ReadFile (fs_path f) d of
        (Inl err, d') \<Rightarrow>
          if err = ErrNotExist then (Inr [], d')
          else (Inl (wrap (''keystore: reading '' @ fs_path f) err), d')
      | (Inr raw, d') \<Rightarrow> (unseal f raw, d'))"

definition tmp_path :: "fileStore \<Rightarrow> string" where
  "tmp_path f = fs_path f @ ''.tmp''"

definition save :: "fileStore \<Rightarrow> (string \<times> string) list \<Rightarrow> (disk \<times> entropy, goerr, unit) act" where
  "save f data =
     (\<lambda>(d, ent).
        case NewCipher (fs_key f) of
          Inl err \<Rightarrow> (Inl (wrap ''keystore: constructing cipher'' err), (d, ent))
        | Inr E \<Rightarrow>
            (case rand_read NonceSize ent of
               (Inl err, ent') \<Rightarrow> (Inl (wrap ''keystore: generating nonce'' err), (d, ent'))
             | (Inr nonce, ent') \<Rightarrow>
                 (let ciphertext = nonce @ gcm_seal E nonce (gob_encode data) [] in
                  case os_WriteFile (tmp_path f) ciphertext d of
                    (Inl err, d') \<Rightarrow>
                      (Inl (wrap (''keystore: writing '' @ tmp_path f) err), (d', ent'))
                  | (Inr _, d') \<Rightarrow>
                      (case os_Rename (tmp_path f) (fs_path f) d' of
                         (Inl err, d'') \<Rightarrow>
                           (Inl (wrap (''keystore: renaming '' @ tmp_path f @ '' to '' @ fs_path f) err),
                            (d'', ent'))
                       | (Inr _, d'') \<Rightarrow> (Inr (), (d'', ent'))))))"

section \<open>The three stores\<close>

type_synonym file_state = "disk \<times> entropy"

definition load_then :: "fileStore \<Rightarrow> ((string \<times> string) list \<Rightarrow> (file_state, goerr, 'a) act)
  \<Rightarrow> (file_state, goerr, 'a) act" where
  "load_then f k =
     (\<lambda>(d, ent). case load f d of (Inl err, d') \<Rightarrow> (Inl err, (d', ent)) | (Inr data, d') \<Rightarrow> k data (d', ent))"

definition file_GetOrCreate :: "string \<Rightarrow> fileStore \<Rightarrow> string \<Rightarrow> (file_state, goerr, string) act" where
  "file_GetOrCreate what f employeeInternalID =
     load_then f (\<lambda>data (d, ent).
       case map_of data employeeInternalID of
         Some key \<Rightarrow> (Inr key, (d, ent))
       | None \<Rightarrow>
           (case rand_read MinKeyBytes ent of
              (Inl err, ent') \<Rightarrow> (Inl (wrap (''keystore: generating '' @ what) err), (d, ent'))
            | (Inr key, ent') \<Rightarrow>
                (case save f (AList.update employeeInternalID key data) (d, ent') of
                   (Inl err, s) \<Rightarrow> (Inl err, s)
                 | (Inr _, s) \<Rightarrow> (Inr key, s))))"

definition file_Delete :: "fileStore \<Rightarrow> string \<Rightarrow> (file_state, goerr, unit) act" where
  "file_Delete f employeeInternalID = load_then f (\<lambda>data. save f (AList.delete employeeInternalID data))"

definition FileEmployeeKeyStore_GetOrCreateEmployeeKey :: "fileStore \<Rightarrow> string \<Rightarrow> (file_state, goerr, string) act" where
  "FileEmployeeKeyStore_GetOrCreateEmployeeKey = file_GetOrCreate ''employeeKey_i''"

definition FileEmployeeKeyStore_DeleteEmployeeKey :: "fileStore \<Rightarrow> string \<Rightarrow> (file_state, goerr, unit) act" where
  "FileEmployeeKeyStore_DeleteEmployeeKey = file_Delete"

definition FileDocumentKeyStore_GetOrCreateDocumentKey :: "fileStore \<Rightarrow> string \<Rightarrow> (file_state, goerr, string) act" where
  "FileDocumentKeyStore_GetOrCreateDocumentKey = file_GetOrCreate ''KEY_EMPLOYEE''"

definition FileDocumentKeyStore_DeleteDocumentKey :: "fileStore \<Rightarrow> string \<Rightarrow> (file_state, goerr, unit) act" where
  "FileDocumentKeyStore_DeleteDocumentKey = file_Delete"

definition NewFileEmployeeKeyStore :: "string \<Rightarrow> string \<Rightarrow> file_state EmployeeKeyStore res" where
  "NewFileEmployeeKeyStore path encryptionKey =
     map_sum id (\<lambda>f. \<lparr>GetOrCreateEmployeeKey = FileEmployeeKeyStore_GetOrCreateEmployeeKey f,
                      DeleteEmployeeKey = FileEmployeeKeyStore_DeleteEmployeeKey f\<rparr>)
       (newFileStore path encryptionKey)"

definition NewFileDocumentKeyStore :: "string \<Rightarrow> string \<Rightarrow> file_state DocumentKeyStore res" where
  "NewFileDocumentKeyStore path encryptionKey =
     map_sum id (\<lambda>f. \<lparr>GetOrCreateDocumentKey = FileDocumentKeyStore_GetOrCreateDocumentKey f,
                      DeleteDocumentKey = FileDocumentKeyStore_DeleteDocumentKey f\<rparr>)
       (newFileStore path encryptionKey)"

definition saltFileKey :: "string \<Rightarrow> string \<Rightarrow> int \<Rightarrow> string" where
  "saltFileKey employeeID profileSection version =
     employeeID @ [CHR 0x00] @ profileSection @ [CHR 0x00] @ itoa version"

definition FileSaltStore_PutSalt :: "fileStore \<Rightarrow> string \<Rightarrow> string \<Rightarrow> int \<Rightarrow> (file_state, goerr, string) act" where
  "FileSaltStore_PutSalt f employeeID profileSection version =
     load_then f (\<lambda>data (d, ent).
       if map_of data (saltFileKey employeeID profileSection version) \<noteq> None
       then (Inl (salt_exists_error employeeID profileSection version), (d, ent))
       else case rand_read MinSaltBytes ent of
              (Inl err, ent') \<Rightarrow> (Inl (wrap ''keystore: generating salt'' err), (d, ent'))
            | (Inr salt, ent') \<Rightarrow>
                (case save f (AList.update (saltFileKey employeeID profileSection version) salt data)
                        (d, ent') of
                   (Inl err, s) \<Rightarrow> (Inl err, s)
                 | (Inr _, s) \<Rightarrow> (Inr salt, s)))"

definition FileSaltStore_GetSalt :: "fileStore \<Rightarrow> string \<Rightarrow> string \<Rightarrow> int \<Rightarrow> (file_state, goerr, string) act" where
  "FileSaltStore_GetSalt f employeeID profileSection version =
     load_then f (\<lambda>data s.
       case map_of data (saltFileKey employeeID profileSection version) of
         None \<Rightarrow> (Inl (no_salt_error employeeID profileSection version), s)
       | Some salt \<Rightarrow> (Inr salt, s))"

definition FileSaltStore_DeleteAllSaltsForEmployee :: "fileStore \<Rightarrow> string \<Rightarrow> (file_state, goerr, unit) act" where
  "FileSaltStore_DeleteAllSaltsForEmployee f employeeID =
     load_then f (\<lambda>data.
       save f (filter (\<lambda>(k, v). \<not> has_prefix k (employeeID @ [CHR 0x00])) data))"

definition NewFileSaltStore :: "string \<Rightarrow> string \<Rightarrow> file_state SaltStore res" where
  "NewFileSaltStore path encryptionKey =
     map_sum id (\<lambda>f. \<lparr>PutSalt = FileSaltStore_PutSalt f, GetSalt = FileSaltStore_GetSalt f,
                      DeleteAllSaltsForEmployee = FileSaltStore_DeleteAllSaltsForEmployee f\<rparr>)
       (newFileStore path encryptionKey)"

section \<open>The files keep the contracts of the stores\<close>

definition sealed :: "fileStore \<Rightarrow> string \<Rightarrow> (string \<times> string) list \<Rightarrow> string" where
  "sealed f nonce data = nonce @ gcm_seal (aes_encrypt (fs_key f)) nonce (gob_encode data) []"

definition file_data :: "fileStore \<Rightarrow> disk \<Rightarrow> (string \<times> string) list res" where
  "file_data f d = (case files d (fs_path f) of None \<Rightarrow> Inr [] | Some raw \<Rightarrow> unseal f raw)"

definition file_view :: "fileStore \<Rightarrow> file_state \<Rightarrow> string \<rightharpoonup> string" where
  "file_view f s = (case file_data f (fst s) of Inl _ \<Rightarrow> Map.empty | Inr data \<Rightarrow> map_of data)"

definition disk_ok :: "disk \<Rightarrow> bool" where
  "disk_ok d \<longleftrightarrow> (\<forall>i e n. fault d i = Some (e, n) \<longrightarrow> e \<noteq> ErrNotExist)"

lemma disk_ok_update [simp]:
  "disk_ok (d\<lparr>files := x\<rparr>) \<longleftrightarrow> disk_ok d" "disk_ok (d\<lparr>ops := n\<rparr>) \<longleftrightarrow> disk_ok d"
  "disk_ok (d\<lparr>files := x, ops := n\<rparr>) \<longleftrightarrow> disk_ok d"
  by (simp_all add: disk_ok_def)

definition file_inv :: "fileStore \<Rightarrow> file_state \<Rightarrow> bool" where
  "file_inv f s \<longleftrightarrow>
     wf_entropy (snd s) \<and> disk_ok (fst s) \<and> length (fs_key f) = 32
     \<and> (\<exists>data. file_data f (fst s) = Inr data \<and> distinct (map fst data))"

lemma gob_small_length:
  assumes "length (gob_encode kvs) < 2 ^ 63"
  shows "gob_small kvs"
proof -
  let ?es = "concat (map (\<lambda>(k, v). gob_bytes k @ gob_bytes v) kvs)"
  have "length (gob_body kvs) \<le> length (gob_encode kvs)" by (simp add: gob_encode_def gob_bytes_def)
  with assms have b: "length (gob_body kvs) < 2 ^ 63" by simp
  moreover have es: "length ?es \<le> length (gob_body kvs)" by (simp add: gob_body_def)
  moreover have nonempty: "1 \<le> length (gob_uint n)" for n by (simp add: gob_uint_def)
  have "length xs \<le> length (concat (map (\<lambda>(k, v). gob_bytes k @ gob_bytes v) xs))" for xs
  proof (induction xs)
    case (Cons x xs)
    then show ?case using nonempty [of "length (fst x)"] by (cases x) (simp add: gob_bytes_def)
  qed simp
  then have "length kvs \<le> length ?es" .
  moreover have "length k \<le> length ?es \<and> length v \<le> length ?es" if "(k, v) \<in> set kvs" for k v
  proof -
    from that obtain xs ys where "kvs = xs @ (k, v) # ys" by (meson split_list)
    then show ?thesis by (simp add: gob_bytes_def)
  qed
  ultimately show ?thesis by (fastforce simp: gob_small_def)
qed

lemma unseal_sealed:
  assumes "length (fs_key f) = 32" and "length nonce = NonceSize" and "distinct (map fst data)"
    and "length (gob_encode data) < 2 ^ 63"
  shows "\<exists>data'. unseal f (sealed f nonce data) = Inr data' \<and> map_of data' = map_of data
    \<and> distinct (map fst data')"
proof -
  obtain data' where d: "gob_decode (gob_encode data) = Some data'" "map_of data' = map_of data"
    "distinct (map fst data')"
    using gob_roundtrip [OF assms(3) gob_small_length [OF assms(4)]] by blast
  have "NonceSize \<noteq> 0" by (simp add: NonceSize_def)
  with assms(1,2) d show ?thesis
    by (simp add: unseal_def sealed_def NewCipher_def gcm_open_seal)
qed

lemma tmp_path_neq [simp]: "tmp_path f \<noteq> fs_path f" "fs_path f \<noteq> tmp_path f"
  by (simp_all add: tmp_path_def)

text \<open>A save leaves the file as it was, or replaces it by the new sealed content.\<close>

lemma save_outcome:
  assumes "length (fs_key f) = 32" and "wf_entropy ent" and "disk_ok d"
    and "save f data (d, ent) = (r, (d', ent'))"
  shows "wf_entropy ent' \<and> disk_ok d'
    \<and> (case r of
         Inl e \<Rightarrow> files d' (fs_path f) = files d (fs_path f)
       | Inr _ \<Rightarrow> length (gob_encode data) < 2 ^ 63
           \<and> (\<exists>nonce. length nonce = NonceSize \<and> files d' (fs_path f) = Some (sealed f nonce data)))"
proof -
  have c: "NewCipher (fs_key f) = Inr (aes_encrypt (fs_key f))" using assms(1) by (simp add: NewCipher_def)
  obtain q e1 where rnd: "rand_read NonceSize ent = (q, e1)" by (rule prod.exhaust)
  from assms(2) rnd have e1: "wf_entropy e1" by (rule rand_read_wf' [rotated])
  show ?thesis
  proof (cases q)
    case (Inl e)
    with assms(3,4) c rnd e1 show ?thesis by (auto simp: save_def)
  next
    case nonce: (Inr nonce)
    from rnd nonce assms(2) have len: "length nonce = NonceSize" by (auto dest: rand_read_length)
    from assms(4) c rnd nonce assms(3) e1 len show ?thesis
      by (auto simp: save_def Let_def os_WriteFile_def os_Rename_def sealed_def
          split: sum.splits prod.splits option.splits if_splits)
  qed
qed

lemma save_view:
  assumes inv: "file_inv f (d, ent)" and "distinct (map fst data)"
    and run: "save f data (d, ent) = (r, s')"
  shows "file_inv f s' \<and> file_view f s' = (case r of Inl e \<Rightarrow> file_view f (d, ent) | Inr _ \<Rightarrow> map_of data)"
proof -
  obtain d' ent' where s': "s' = (d', ent')" by (cases s')
  have key: "length (fs_key f) = 32" and ent: "wf_entropy ent" and dk: "disk_ok d"
    using inv by (auto simp: file_inv_def)
  note out = save_outcome [OF key ent dk run [unfolded s']]
  show ?thesis
  proof (cases r)
    case (Inl e)
    with out inv show ?thesis by (auto simp: s' file_inv_def file_view_def file_data_def)
  next
    case (Inr u)
    with out obtain nonce where n: "length nonce = NonceSize"
      "files d' (fs_path f) = Some (sealed f nonce data)" "length (gob_encode data) < 2 ^ 63" by auto
    from unseal_sealed [OF key n(1) assms(2) n(3)] obtain data' where
      "unseal f (sealed f nonce data) = Inr data'" "map_of data' = map_of data" "distinct (map fst data')"
      by blast
    with n(2) out key Inr show ?thesis by (simp add: s' file_inv_def file_view_def file_data_def)
  qed
qed

lemma load_outcome:
  assumes "file_inv f (d, ent)" and "load f d = (r, d')"
  shows "file_inv f (d', ent) \<and> file_view f (d', ent) = file_view f (d, ent)
    \<and> (\<forall>data. r = Inr data \<longrightarrow> map_of data = file_view f (d, ent) \<and> distinct (map fst data))"
proof -
  from assms(1) obtain data where data: "file_data f d = Inr data" "distinct (map fst data)"
    by (auto simp: file_inv_def)
  have d': "d' = d\<lparr>ops := ops d + 1\<rparr>"
    using assms(2) by (auto simp: load_def os_ReadFile_def split: option.splits prod.splits if_splits)
  then have "file_data f d' = Inr data" using data(1) by (simp add: file_data_def)
  moreover have "r = Inr data \<or> (\<exists>e. r = Inl e)"
  proof (cases "fault d (ops d)")
    case None
    with assms(2) data(1) show ?thesis
      by (auto simp: load_def os_ReadFile_def file_data_def split: option.splits)
  next
    case (Some x)
    obtain e n where x: "x = (e, n)" by (cases x)
    with Some assms(1) have "e \<noteq> ErrNotExist" by (auto simp: file_inv_def disk_ok_def)
    with assms(2) Some x show ?thesis by (auto simp: load_def os_ReadFile_def)
  qed
  ultimately show ?thesis
    using assms(1) data d' by (auto simp: file_inv_def file_view_def)
qed

lemma load_then_cases:
  assumes "file_inv f s" and "load_then f k s = (r, s')"
  obtains (err) e where "r = Inl e" "file_inv f s'" "file_view f s' = file_view f s"
  | (data) data s1 where "k data s1 = (r, s')" "file_inv f s1" "file_view f s1 = file_view f s"
      "map_of data = file_view f s" "distinct (map fst data)"
proof -
  obtain d ent where s: "s = (d, ent)" by (cases s)
  obtain q d' where ld: "load f d = (q, d')" by (rule prod.exhaust)
  note out = load_outcome [OF assms(1) [unfolded s] ld]
  show ?thesis
  proof (cases q)
    case (Inl e)
    with assms(2) ld out s show ?thesis by (intro err) (auto simp: load_then_def)
  next
    case (Inr dt)
    with assms(2) ld out s show ?thesis by (intro data [of dt "(d', ent)"]) (auto simp: load_then_def)
  qed
qed

lemma file_inv_entropy: "file_inv f (d, ent) \<Longrightarrow> wf_entropy ent' \<Longrightarrow> file_inv f (d, ent')"
  by (simp add: file_inv_def)

lemma file_view_entropy: "file_view f (d, ent') = file_view f (d, ent)"
  by (simp add: file_view_def)

lemma file_GetOrCreate_ok:
  assumes "file_inv f s" and "file_GetOrCreate what f k s = (r, s')"
  shows "file_inv f s'
    \<and> (case r of
         Inl e \<Rightarrow> file_view f s' = file_view f s
       | Inr v \<Rightarrow> file_view f s' = (file_view f s)(k \<mapsto> v)
           \<and> (file_view f s k = Some v \<or> file_view f s k = None \<and> length v = MinKeyBytes))"
  using assms(1) assms(2) [unfolded file_GetOrCreate_def]
proof (cases rule: load_then_cases)
  case (data dt s1)
  obtain d ent where s1: "s1 = (d, ent)" by (cases s1)
  show ?thesis
  proof (cases "map_of dt k")
    case (Some v)
    with data s1 show ?thesis by (auto simp: fun_upd_idem)
  next
    case None
    obtain q ent' where rnd: "rand_read MinKeyBytes ent = (q, ent')" by (rule prod.exhaust)
    have ent: "wf_entropy ent" using data(2) s1 by (simp add: file_inv_def)
    then have inv': "file_inv f (d, ent')"
      using rnd data(2) s1 by (auto intro: file_inv_entropy dest: rand_read_wf')
    show ?thesis
    proof (cases q)
      case (Inl e)
      with data None rnd s1 inv' show ?thesis by (auto simp: file_view_entropy [of f d ent' ent])
    next
      case (Inr v)
      obtain u s2 where sv: "save f (AList.update k v dt) (d, ent') = (u, s2)" by (rule prod.exhaust)
      have "length v = MinKeyBytes" using rnd Inr ent by (auto dest: rand_read_length)
      with save_view [OF inv' distinct_update [OF data(5)] sv] data None rnd s1 Inr sv show ?thesis
        by (cases u) (auto simp: file_view_entropy [of f d ent' ent] update_conv')
    qed
  qed
qed simp

lemma file_Delete_ok:
  assumes "file_inv f s" and "file_Delete f k s = (r, s')"
  shows "file_inv f s'
    \<and> file_view f s' = (case r of Inl e \<Rightarrow> file_view f s | Inr _ \<Rightarrow> (file_view f s)(k := None))"
  using assms(1) assms(2) [unfolded file_Delete_def]
proof (cases rule: load_then_cases)
  case (data dt s1)
  obtain d ent where s1: "s1 = (d, ent)" by (cases s1)
  from save_view [OF data(2) [unfolded s1] distinct_delete [OF data(5)], of k] data s1 show ?thesis
    by (cases r) (auto simp: delete_conv')
qed simp

text \<open>Both key files satisfy the contract of a key store, for every path and 32-byte key.\<close>

lemma file_key_store: "key_store (file_GetOrCreate what f) (file_Delete f) (file_view f) (file_inv f)"
proof
  fix s k v s'
  assume "file_inv f s" "file_GetOrCreate what f k s = (Inr v, s')"
  from file_GetOrCreate_ok [OF this]
  show "file_inv f s' \<and> file_view f s' = (file_view f s)(k \<mapsto> v)
      \<and> (file_view f s k = None \<or> file_view f s k = Some v)
      \<and> (file_view f s k = None \<longrightarrow> length v = MinKeyBytes)" by auto
next
  fix s k e s'
  assume "file_inv f s" "file_GetOrCreate what f k s = (Inl e, s')"
  from file_GetOrCreate_ok [OF this] show "file_inv f s' \<and> file_view f s' = file_view f s" by simp
next
  fix s k u s'
  assume "file_inv f s" "file_Delete f k s = (Inr u, s')"
  from file_Delete_ok [OF this] show "file_inv f s' \<and> file_view f s' = (file_view f s)(k := None)" by simp
next
  fix s k e s'
  assume "file_inv f s" "file_Delete f k s = (Inl e, s')"
  from file_Delete_ok [OF this] show "file_inv f s' \<and> file_view f s' = file_view f s" by simp
qed

interpretation file_emp: key_store "FileEmployeeKeyStore_GetOrCreateEmployeeKey f"
  "FileEmployeeKeyStore_DeleteEmployeeKey f" "file_view f" "file_inv f" for f
  by (simp only: FileEmployeeKeyStore_GetOrCreateEmployeeKey_def FileEmployeeKeyStore_DeleteEmployeeKey_def
      file_key_store)

interpretation file_doc: key_store "FileDocumentKeyStore_GetOrCreateDocumentKey f"
  "FileDocumentKeyStore_DeleteDocumentKey f" "file_view f" "file_inv f" for f
  by (simp only: FileDocumentKeyStore_GetOrCreateDocumentKey_def FileDocumentKeyStore_DeleteDocumentKey_def
      file_key_store)

section \<open>The salt file\<close>

definition nul_free :: "string \<Rightarrow> bool" where
  "nul_free s \<longleftrightarrow> CHR 0x00 \<notin> set s"

lemma split_at_nul:
  "nul_free a \<Longrightarrow> nul_free b \<Longrightarrow> a @ CHR 0x00 # x = b @ CHR 0x00 # y \<Longrightarrow> a = b \<and> x = y"
  by (simp add: nul_free_def append_sep_inject)

lemma saltFileKey_inject:
  assumes "nul_free e" "nul_free p" "nul_free e'" "nul_free p'"
    and "saltFileKey e p v = saltFileKey e' p' v'"
  shows "(e, p, v) = (e', p', v')"
proof -
  from assms(5) have "e @ CHR 0x00 # (p @ CHR 0x00 # itoa v) = e' @ CHR 0x00 # (p' @ CHR 0x00 # itoa v')"
    by (simp add: saltFileKey_def)
  from split_at_nul [OF assms(1,3) this] have "e = e'" "p @ CHR 0x00 # itoa v = p' @ CHR 0x00 # itoa v'"
    by auto
  with split_at_nul [OF assms(2,4) this(2)] show ?thesis by simp
qed

lemma saltFileKey_prefix:
  assumes "nul_free e" "nul_free e'"
  shows "has_prefix (saltFileKey e' p v) (e @ [CHR 0x00]) \<longleftrightarrow> e' = e"
proof
  assume "has_prefix (saltFileKey e' p v) (e @ [CHR 0x00])"
  then obtain x where "e' @ CHR 0x00 # (p @ CHR 0x00 # itoa v) = e @ CHR 0x00 # x"
    by (auto simp: has_prefix_iff saltFileKey_def prefix_def)
  from split_at_nul [OF assms(2,1) this] show "e' = e" by simp
qed (simp add: has_prefix_iff saltFileKey_def prefix_def)

definition file_salts :: "fileStore \<Rightarrow> file_state \<Rightarrow> recordKey \<rightharpoonup> string" where
  "file_salts f s = (\<lambda>(e, p, v). file_view f s (saltFileKey e p v))"

lemma FileSaltStore_PutSalt_ok:
  assumes "file_inv f s" and "FileSaltStore_PutSalt f e p v s = (r, s')"
  shows "file_inv f s'
    \<and> (case r of
         Inl err \<Rightarrow> file_view f s' = file_view f s
       | Inr x \<Rightarrow> file_view f s (saltFileKey e p v) = None \<and> length x = MinSaltBytes
           \<and> file_view f s' = (file_view f s)(saltFileKey e p v \<mapsto> x))"
  using assms(1) assms(2) [unfolded FileSaltStore_PutSalt_def]
proof (cases rule: load_then_cases)
  case (data dt s1)
  obtain d ent where s1: "s1 = (d, ent)" by (cases s1)
  let ?k = "saltFileKey e p v"
  show ?thesis
  proof (cases "map_of dt ?k")
    case (Some x)
    with data s1 show ?thesis by auto
  next
    case None
    obtain q ent' where rnd: "rand_read MinSaltBytes ent = (q, ent')" by (rule prod.exhaust)
    have ent: "wf_entropy ent" using data(2) s1 by (simp add: file_inv_def)
    then have inv': "file_inv f (d, ent')"
      using rnd data(2) s1 by (auto intro: file_inv_entropy dest: rand_read_wf')
    show ?thesis
    proof (cases q)
      case (Inl e)
      with data None rnd s1 inv' show ?thesis by (auto simp: file_view_entropy [of f d ent' ent])
    next
      case (Inr x)
      obtain u s2 where sv: "save f (AList.update ?k x dt) (d, ent') = (u, s2)" by (rule prod.exhaust)
      have "length x = MinSaltBytes" using rnd Inr ent by (auto dest: rand_read_length)
      with save_view [OF inv' distinct_update [OF data(5)] sv] data None rnd s1 Inr sv show ?thesis
        by (cases u) (auto simp: file_view_entropy [of f d ent' ent] update_conv')
    qed
  qed
qed simp

lemma FileSaltStore_GetSalt_ok:
  assumes "file_inv f s" and "FileSaltStore_GetSalt f e p v s = (r, s')"
  shows "file_inv f s' \<and> file_view f s' = file_view f s
    \<and> (\<forall>x. r = Inr x \<longrightarrow> file_view f s (saltFileKey e p v) = Some x)"
  using assms(1) assms(2) [unfolded FileSaltStore_GetSalt_def]
  by (cases rule: load_then_cases) (auto split: option.splits)

lemma FileSaltStore_PutSalt_exists:
  assumes "file_inv f s" and "file_view f s (saltFileKey e p v) = Some x"
  shows "\<exists>err s'. FileSaltStore_PutSalt f e p v s = (Inl err, s')"
proof -
  obtain r s' where run: "FileSaltStore_PutSalt f e p v s = (r, s')" by (rule prod.exhaust)
  from FileSaltStore_PutSalt_ok [OF assms(1) run] assms(2) run show ?thesis
    by (auto split: sum.splits)
qed

lemma map_of_filter_keys:
  "distinct (map fst xs) \<Longrightarrow> map_of (filter (\<lambda>(k, v). P k) xs) = (\<lambda>k. if P k then map_of xs k else None)"
  by (induction xs) (auto simp: fun_eq_iff map_of_eq_None_iff image_iff)

lemma FileSaltStore_DeleteAll_ok:
  assumes "file_inv f s" and "FileSaltStore_DeleteAllSaltsForEmployee f e s = (r, s')"
  shows "file_inv f s'
    \<and> file_view f s' = (case r of Inl err \<Rightarrow> file_view f s
        | Inr _ \<Rightarrow> (\<lambda>k. if has_prefix k (e @ [CHR 0x00]) then None else file_view f s k))"
  using assms(1) assms(2) [unfolded FileSaltStore_DeleteAllSaltsForEmployee_def]
proof (cases rule: load_then_cases)
  case (data dt s1)
  obtain d ent where s1: "s1 = (d, ent)" by (cases s1)
  have "distinct (map fst (filter (\<lambda>(k, v). \<not> has_prefix k (e @ [CHR 0x00])) dt))"
    using data(5) by (simp add: distinct_map_filter)
  from save_view [OF data(2) [unfolded s1] this] data s1 show ?thesis
    by (cases r) (auto simp: map_of_filter_keys [OF data(5)])
qed simp

interpretation file_salt: salt_store "FileSaltStore_PutSalt f" "FileSaltStore_GetSalt f"
  "FileSaltStore_DeleteAllSaltsForEmployee f" "file_salts f" "file_inv f" nul_free for f
proof
  fix s e p v x s'
  assume "file_inv f s" "nul_free e" "nul_free p" "FileSaltStore_PutSalt f e p v s = (Inr x, s')"
  with FileSaltStore_PutSalt_ok [of f s e p v "Inr x" s']
  show "file_inv f s' \<and> length x = MinSaltBytes \<and> file_salts f s (e, p, v) = None
    \<and> (\<forall>e' p' v'. nul_free e' \<and> nul_free p' \<longrightarrow>
          file_salts f s' (e', p', v') = (if (e', p', v') = (e, p, v) then Some x else file_salts f s (e', p', v')))"
    by (auto simp: file_salts_def dest: saltFileKey_inject)
next
  fix s e p v x
  assume "file_inv f s" "file_salts f s (e, p, v) = Some x"
  then show "\<exists>err s'. FileSaltStore_PutSalt f e p v s = (Inl err, s')"
    unfolding file_salts_def prod.case by (rule FileSaltStore_PutSalt_exists)
next
  fix s e u s'
  assume "file_inv f s" "nul_free e" "FileSaltStore_DeleteAllSaltsForEmployee f e s = (Inr u, s')"
  with FileSaltStore_DeleteAll_ok [of f s e "Inr u" s']
  show "file_inv f s' \<and> (\<forall>e' p' v'. nul_free e' \<and> nul_free p' \<longrightarrow>
      file_salts f s' (e', p', v') = (if e' = e then None else file_salts f s (e', p', v')))"
    by (auto simp: file_salts_def saltFileKey_prefix)
next
  fix s e p v err s'
  assume "file_inv f s" "FileSaltStore_PutSalt f e p v s = (Inl err, s')"
  from FileSaltStore_PutSalt_ok [OF this]
  show "file_inv f s' \<and> file_salts f s' = file_salts f s" by (simp add: file_salts_def)
next
  fix s e p v x s'
  assume "file_inv f s" "FileSaltStore_GetSalt f e p v s = (Inr x, s')"
  from FileSaltStore_GetSalt_ok [OF this]
  show "file_inv f s' \<and> file_salts f s' = file_salts f s \<and> file_salts f s (e, p, v) = Some x"
    by (simp add: file_salts_def)
next
  fix s e p v err s'
  assume "file_inv f s" "FileSaltStore_GetSalt f e p v s = (Inl err, s')"
  from FileSaltStore_GetSalt_ok [OF this]
  show "file_inv f s' \<and> file_salts f s' = file_salts f s" by (simp add: file_salts_def)
next
  fix s e err s'
  assume "file_inv f s" "FileSaltStore_DeleteAllSaltsForEmployee f e s = (Inl err, s')"
  from FileSaltStore_DeleteAll_ok [OF this]
  show "file_inv f s' \<and> file_salts f s' = file_salts f s" by (simp add: file_salts_def)
qed

section \<open>Properties\<close>

text \<open>C24: The key files refine a plain map, through every fault of the disk. A request for a
  key that succeeds returns the key on file, or a fresh 16-byte one that is on file
  afterwards; the keys of all other employees are unchanged. When it fails, at whatever
  point (reading, a partial write of the temporary file, the rename), the keys on file are
  those from before. The file always decrypts to a map.\<close>

theorem key_file_refines_map:
  assumes "file_inv f s" and "FileEmployeeKeyStore_GetOrCreateEmployeeKey f k s = (r, s')"
  shows "file_inv f s'
    \<and> (case r of
         Inl e \<Rightarrow> file_view f s' = file_view f s
       | Inr v \<Rightarrow> file_view f s' = (file_view f s)(k \<mapsto> v)
           \<and> (file_view f s k = Some v \<or> file_view f s k = None \<and> length v = 16))"
  using file_GetOrCreate_ok [OF assms [unfolded FileEmployeeKeyStore_GetOrCreateEmployeeKey_def]]
  by (simp add: MinKeyBytes_def split: sum.splits)

definition demo_store :: fileStore where
  "demo_store = \<lparr>fs_path = ''keys.bin'', fs_key = replicate 32 (CHR ''k'')\<rparr>"

definition demo_fs :: file_state where
  "demo_fs = (\<lparr>files = Map.empty, fault = (\<lambda>i. None), ops = 0\<rparr>,
     \<lparr>source = (\<lambda>i n. Inr (replicate n (CHR ''r''))), draws = 0\<rparr>)"

lemma demo_fs_inv: "file_inv demo_store demo_fs"
  by (simp add: file_inv_def demo_store_def demo_fs_def wf_entropy_def disk_ok_def file_data_def)

lemma demo_fs_empty: "file_view demo_store demo_fs = Map.empty"
  by (simp add: file_view_def demo_fs_def file_data_def)

theorem key_file_refines_map_witness:
  "\<exists>r s'. FileEmployeeKeyStore_GetOrCreateEmployeeKey demo_store ''e1'' demo_fs = (r, s')
     \<and> file_inv demo_store s'"
proof -
  obtain r s' where run: "FileEmployeeKeyStore_GetOrCreateEmployeeKey demo_store ''e1'' demo_fs = (r, s')"
    by (rule prod.exhaust)
  from key_file_refines_map [OF demo_fs_inv run] run show ?thesis by blast
qed

lemma FileSaltStore_GetSalt_reads:
  assumes "file_inv f s" and "file_salts f s (e, p, v) = Some x" and "fault (fst s) (ops (fst s)) = None"
  shows "\<exists>s'. FileSaltStore_GetSalt f e p v s = (Inr x, s')"
proof -
  obtain d ent where s: "s = (d, ent)" by (cases s)
  from assms(1) obtain data where data: "file_data f d = Inr data" by (auto simp: file_inv_def s)
  then have "load f d = (Inr data, d\<lparr>ops := ops d + 1\<rparr>)"
    using assms(3) by (auto simp: load_def os_ReadFile_def file_data_def s split: option.splits)
  moreover have "map_of data (saltFileKey e p v) = Some x"
    using assms(2) data by (simp add: file_salts_def file_view_def s)
  ultimately show ?thesis by (simp add: FileSaltStore_GetSalt_def load_then_def s)
qed

text \<open>C25: A salt is written once and read back. For identifiers without NUL bytes (the
  pseudonyms are hexadecimal and the sections are words) let \<open>PutSalt\<close> succeed: it returns a salt of
  16 bytes and leaves the salts of all other records as they were. After that, let any calls of the
  store follow, in any order, failing ones included, other than deletions of the salts of this
  employee. In every state they lead to, the salt of the record is still this one, a read
  returns it when the disk serves the read and otherwise fails, and storing another salt for
  the same record fails.\<close>

theorem salt_written_once_and_read_back:
  assumes "file_inv f s" and "nul_free e" and "nul_free p"
    and "FileSaltStore_PutSalt f e p v s = (Inr x, s1)"
    and "salt_run (FileSaltStore_PutSalt f) (FileSaltStore_GetSalt f)
      (FileSaltStore_DeleteAllSaltsForEmployee f) nul_free e s1 s2"
  shows "length x = 16
    \<and> (\<forall>e' p' v'. nul_free e' \<and> nul_free p' \<and> (e', p', v') \<noteq> (e, p, v) \<longrightarrow>
         file_salts f s1 (e', p', v') = file_salts f s (e', p', v'))
    \<and> file_salts f s2 (e, p, v) = Some x
    \<and> (\<forall>y s3. FileSaltStore_GetSalt f e p v s2 = (Inr y, s3) \<longrightarrow> y = x)
    \<and> (fault (fst s2) (ops (fst s2)) = None \<longrightarrow> (\<exists>s3. FileSaltStore_GetSalt f e p v s2 = (Inr x, s3)))
    \<and> (\<exists>err s3. FileSaltStore_PutSalt f e p v s2 = (Inl err, s3))"
proof -
  note put = file_salt.put_ok [OF assms(1-4)]
  have "file_inv f s1" "file_salts f s1 (e, p, v) = Some x" using put assms(2,3) by simp_all
  from file_salt.run_keeps [OF assms(5) this(1) assms(2,3) this(2)]
  have s2: "file_inv f s2" "file_salts f s2 (e, p, v) = Some x" by simp_all
  have "y = x" if "FileSaltStore_GetSalt f e p v s2 = (Inr y, s3)" for y s3
    using file_salt.get_ok [OF s2(1) that] s2(2) by simp
  with put s2 file_salt.put_exists [OF s2] FileSaltStore_GetSalt_reads [OF s2] show ?thesis
    by (auto simp: MinSaltBytes_def)
qed

lemma demo_put:
  "\<exists>x s1. FileSaltStore_PutSalt demo_store ''e'' ''p'' 1 demo_fs = (Inr x, s1)"
proof -
  have "length (gob_encode [(k, replicate 16 (CHR ''r''))]) < 1000" if "length k < 100" for k
    using that by (simp add: gob_encode_def gob_bytes_def gob_body_def gob_uint_def gob_type_def gob_head_def
        be_min.simps)
  then have len: "length (gob_encode [(saltFileKey ''e'' ''p'' 1, replicate 16 (CHR ''r''))]) < 1000"
    by (simp add: saltFileKey_def itoa_def nat_digits.simps)
  have c: "NewCipher (replicate 32 (CHR ''k'')) = Inr (aes_encrypt (replicate 32 (CHR ''k'')))"
    unfolding NewCipher_def by (simp only: length_replicate) simp
  have "length (replicate NonceSize (CHR ''r'') @ gcm_seal (aes_encrypt (replicate 32 (CHR ''k'')))
      (replicate NonceSize (CHR ''r''))
      (gob_encode [(saltFileKey ''e'' ''p'' 1, replicate 16 (CHR ''r''))]) []) < 2 ^ 63"
    using len by (simp add: NonceSize_def)
  then show ?thesis
    unfolding FileSaltStore_PutSalt_def load_then_def load_def os_ReadFile_def demo_fs_def demo_store_def
      save_def
    by (simp add: rand_read_def MinSaltBytes_def c Let_def os_WriteFile_def os_Rename_def tmp_path_def
        del: length_append replicate_Suc)
qed

theorem salt_written_once_and_read_back_witness:
  "\<exists>x s1 r s2. FileSaltStore_PutSalt demo_store ''e'' ''p'' 1 demo_fs = (Inr x, s1)
     \<and> FileSaltStore_PutSalt demo_store ''e'' ''p'' 2 s1 = (r, s2)
     \<and> file_salts demo_store s2 (''e'', ''p'', 1) = Some x
     \<and> (\<exists>err s3. FileSaltStore_PutSalt demo_store ''e'' ''p'' 1 s2 = (Inl err, s3))"
proof -
  obtain x s1 where run: "FileSaltStore_PutSalt demo_store ''e'' ''p'' 1 demo_fs = (Inr x, s1)"
    using demo_put by blast
  obtain r s2 where next_put: "FileSaltStore_PutSalt demo_store ''e'' ''p'' 2 s1 = (r, s2)" by (rule prod.exhaust)
  have id: "nul_free ''e''" "nul_free ''p''" by (simp_all add: nul_free_def)
  have "salt_run (FileSaltStore_PutSalt demo_store) (FileSaltStore_GetSalt demo_store)
      (FileSaltStore_DeleteAllSaltsForEmployee demo_store) nul_free ''e'' s1 s2"
    by (rule run_put [where put = "FileSaltStore_PutSalt demo_store", OF run_start id next_put])
  from salt_written_once_and_read_back [OF demo_fs_inv id run this] run next_put
  show ?thesis by blast
qed

text \<open>Erasing an employee's salts removes all of them and nothing else: no salt of that
  employee can be read afterwards, and the salts of every other employee are unchanged.\<close>

lemma erased_salts_are_gone:
  assumes "file_inv f s" and "nul_free e"
    and "FileSaltStore_DeleteAllSaltsForEmployee f e s = (Inr u, s1)"
  shows "file_inv f s1
    \<and> (\<forall>p v. nul_free p \<longrightarrow> (\<nexists>x s2. FileSaltStore_GetSalt f e p v s1 = (Inr x, s2)))
    \<and> (\<forall>e' p v. nul_free e' \<and> nul_free p \<and> e' \<noteq> e \<longrightarrow> file_salts f s1 (e', p, v) = file_salts f s (e', p, v))"
  using file_salt.delete_all_ok [OF assms] file_salt.get_after_delete [OF assms(1,2) _ assms(3)] by auto

text \<open>C26: A store file is accepted only if it is empty or is exactly a nonce followed by
  what sealing some text under the store's key gives, the text being the gob encoding the
  entries are read from: a changed byte, a truncation to a non-empty prefix or another key is
  reported as an error, unless it forges the GCM tag.\<close>

theorem store_file_is_authenticated:
  assumes "length (fs_key f) = 32" and "unseal f raw = Inr data"
  shows "(raw = [] \<and> data = [])
    \<or> (\<exists>nonce plain. length nonce = 12
         \<and> raw = nonce @ gcm_seal (aes_encrypt (fs_key f)) nonce plain [] \<and> gob_decode plain = Some data)"
proof (cases "raw = []")
  case True
  with assms(2) show ?thesis by (simp add: unseal_def)
next
  case False
  with assms have len: "12 \<le> length raw"
    by (auto simp: unseal_def NonceSize_def NewCipher_def split: if_splits)
  from assms False len obtain plain where
    op: "gcm_open (aes_encrypt (fs_key f)) (take 12 raw) (drop 12 raw) [] = Some plain"
    "gob_decode plain = Some data"
    by (auto simp: unseal_def NonceSize_def NewCipher_def split: if_splits option.splits)
  have "raw = take 12 raw @ gcm_seal (aes_encrypt (fs_key f)) (take 12 raw) plain []"
    using gcm_open_Some [OF op(1)] by (metis append_take_drop_id)
  moreover have "length (take 12 raw) = 12" using len by simp
  ultimately show ?thesis using op(2) by blast
qed

theorem store_file_is_authenticated_witness:
  "\<exists>data. unseal demo_store (sealed demo_store (replicate 12 (CHR ''n'')) []) = Inr data
     \<and> (\<exists>nonce plain. length (nonce :: string) = 12 \<and> gob_decode plain = Some data)"
proof -
  have k: "length (fs_key demo_store) = 32" by (simp add: demo_store_def)
  have "length (gob_encode []) < 2 ^ 63"
    by (simp add: gob_encode_def gob_bytes_def gob_body_def gob_uint_def gob_type_def gob_head_def be_min.simps)
  then obtain data where d: "unseal demo_store (sealed demo_store (replicate 12 (CHR ''n'')) []) = Inr data"
    using unseal_sealed [OF k, of "replicate 12 (CHR ''n'')" "[]"] by (auto simp: NonceSize_def)
  have "sealed demo_store (replicate 12 (CHR ''n'')) [] \<noteq> []" by (simp add: sealed_def)
  with store_file_is_authenticated [OF k d] obtain nonce plain where
    "length (nonce :: string) = 12" "gob_decode plain = Some data" by auto
  with d show ?thesis by (intro exI [of _ data]) auto
qed

end
