(* ===== verification/Ipfs.thy ===== *)
theory Ipfs
  imports Filestore Go_Decode
begin

text \<open>
  The document store client (ipfsclient/ipfsclient.go): encryption of a document under the
  employee's document key, adding the ciphertext to the primary IPFS node and pinning it on
  the replica, and the way back. The HTTP exchange with the nodes is the record \<open>http\<close>: checking a URL and
  doing a request over the state \<open>'n\<close> of the nodes. A response body is the bytes read and the
  error that ended the reading, if any.
\<close>

definition MinDocumentKeyBytes :: nat where
  "MinDocumentKeyBytes = 16"

record http_request =
  req_url :: string
  req_content_type :: string
  req_body :: string

record http_response =
  StatusCode :: int
  Body_bytes :: string
  Body_err :: "goerr option"

record 'n http =
  NewRequest_check :: "string \<Rightarrow> unit res"
  Do :: "http_request \<Rightarrow> ('n, goerr, http_response) act"

record 'n Client =
  PrimaryAPI :: string
  ReplicaAPI :: string
  HTTPClient :: "'n http"

definition NewIpfsClient :: "'n http \<Rightarrow> string \<Rightarrow> string \<Rightarrow> 'n Client" where
  "NewIpfsClient h primaryAPI replicaAPI =
     \<lparr>PrimaryAPI = primaryAPI, ReplicaAPI = replicaAPI, HTTPClient = h\<rparr>"

section \<open>Encryption\<close>

definition key_size_error :: "string \<Rightarrow> goerr" where
  "key_size_error key =
     Plain (''ipfsclient: KEY_EMPLOYEE must be '' @ itoa (int MinDocumentKeyBytes) @ '' bytes, got ''
            @ itoa (int (length key)))"

definition encrypt :: "string \<Rightarrow> string \<Rightarrow> (entropy, goerr, string) act" where
  "encrypt key plaintext ent =
     (if length key \<noteq> MinDocumentKeyBytes then (Inl (key_size_error key), ent)
      else case NewCipher key of
             Inl err \<Rightarrow> (Inl (wrap ''ipfsclient: creating AES cipher'' err), ent)
           | Inr E \<Rightarrow>
               (case rand_read NonceSize ent of
                  (Inl err, ent') \<Rightarrow> (Inl (wrap ''ipfsclient: generating nonce'' err), ent')
                | (Inr nonce, ent') \<Rightarrow> (Inr (nonce @ gcm_seal E nonce plaintext []), ent')))"

definition decrypt :: "string \<Rightarrow> string \<Rightarrow> string res" where
  "decrypt key ciphertext =
     (if length key \<noteq> MinDocumentKeyBytes then Inl (key_size_error key)
      else case NewCipher key of
             Inl err \<Rightarrow> Inl (wrap ''ipfsclient: creating AES cipher'' err)
           | Inr E \<Rightarrow>
               if length ciphertext < NonceSize
               then Inl (Plain ''ipfsclient: ciphertext shorter than nonce size'')
               else (case gcm_open E (take NonceSize ciphertext) (drop NonceSize ciphertext) [] of
                       None \<Rightarrow> Inl (wrap ''ipfsclient: decryption failed (wrong key or tampered ciphertext)''
                                     (Plain ''cipher: message authentication failed''))
                     | Some plaintext \<Rightarrow> Inr plaintext))"

section \<open>The node API\<close>

text \<open>The form that \<open>mime/multipart\<close> writes; its boundary is the hexadecimal form of 30
  random bytes (the Go library panics if they cannot be read, an error here).\<close>

definition crlf :: string where
  "crlf = [CHR 0x0D, CHR 0x0A]"

definition dquoted :: "string \<Rightarrow> string" where
  "dquoted s = CHR 0x22 # s @ [CHR 0x22]"

definition form_prefix :: "string \<Rightarrow> string" where
  "form_prefix boundary =
     ''--'' @ boundary @ crlf
     @ ''Content-Disposition: form-data; name='' @ dquoted ''file'' @ ''; filename='' @ dquoted ''document.bin''
     @ crlf @ ''Content-Type: application/octet-stream'' @ crlf @ crlf"

definition form_suffix :: "string \<Rightarrow> string" where
  "form_suffix boundary = crlf @ ''--'' @ boundary @ ''--'' @ crlf"

definition form_body :: "string \<Rightarrow> string \<Rightarrow> string" where
  "form_body boundary data = form_prefix boundary @ data @ form_suffix boundary"

definition add_request :: "string \<Rightarrow> string \<Rightarrow> string \<Rightarrow> http_request" where
  "add_request api boundary data =
     \<lparr>req_url = api @ ''/api/v0/add'', req_content_type = ''multipart/form-data; boundary='' @ boundary,
      req_body = form_body boundary data\<rparr>"

definition get_request :: "string \<Rightarrow> http_request" where
  "get_request url = \<lparr>req_url = url, req_content_type = [], req_body = []\<rparr>"

definition hash_of_response :: "string \<Rightarrow> string option" where
  "hash_of_response body =
     (case json_decode body of
        None \<Rightarrow> None
      | Some j \<Rightarrow> decode_struct [(''Hash'', dec_str (\<lambda>x s. x))] j [])"

definition http_post :: "'n Client \<Rightarrow> http_request \<Rightarrow> ('n, goerr, http_response) act" where
  "http_post c req n =
     (case NewRequest_check (HTTPClient c) (req_url req) of
        Inl err \<Rightarrow> (Inl err, n)
      | Inr _ \<Rightarrow> Do (HTTPClient c) req n)"

definition status_error :: "string \<Rightarrow> http_response \<Rightarrow> goerr" where
  "status_error what resp =
     Plain (what @ '': status '' @ itoa (StatusCode resp) @ '': '' @ Body_bytes resp)"

definition ipfs_add :: "'n Client \<Rightarrow> string \<Rightarrow> string \<Rightarrow> ('n \<times> entropy, goerr, string) act" where
  "ipfs_add c api data =
     (\<lambda>(n, ent).
        case rand_read 30 ent of
          (Inl err, ent') \<Rightarrow> (Inl err, (n, ent'))
        | (Inr b, ent') \<Rightarrow>
            (case http_post c (add_request api (hex_encode b) data) n of
               (Inl err, n') \<Rightarrow> (Inl err, (n', ent'))
             | (Inr resp, n') \<Rightarrow>
                 if StatusCode resp \<noteq> 200 then (Inl (status_error ''add'' resp), (n', ent'))
                 else (case hash_of_response (Body_bytes resp) of
                         None \<Rightarrow> (Inl (Plain ''json: cannot decode''), (n', ent'))
                       | Some h \<Rightarrow> (Inr h, (n', ent')))))"

definition ipfs_pin :: "'n Client \<Rightarrow> string \<Rightarrow> string \<Rightarrow> ('n, goerr, unit) act" where
  "ipfs_pin c api cid n =
     (case http_post c (get_request (api @ ''/api/v0/pin/add?arg='' @ cid)) n of
        (Inl err, n') \<Rightarrow> (Inl err, n')
      | (Inr resp, n') \<Rightarrow>
          if StatusCode resp \<noteq> 200 then (Inl (status_error ''pin/add'' resp), n') else (Inr (), n'))"

definition ipfs_cat :: "'n Client \<Rightarrow> string \<Rightarrow> string \<Rightarrow> ('n, goerr, string) act" where
  "ipfs_cat c api cid n =
     (case http_post c (get_request (api @ ''/api/v0/cat?arg='' @ cid)) n of
        (Inl err, n') \<Rightarrow> (Inl err, n')
      | (Inr resp, n') \<Rightarrow>
          if StatusCode resp \<noteq> 200 then (Inl (status_error ''cat'' resp), n')
          else (case Body_err resp of None \<Rightarrow> (Inr (Body_bytes resp), n') | Some e \<Rightarrow> (Inl e, n')))"

definition EncryptAndAdd :: "'n Client \<Rightarrow> string \<Rightarrow> string \<Rightarrow> ('n \<times> entropy, goerr, string) act" where
  "EncryptAndAdd c key plaintext =
     (\<lambda>(n, ent).
        case encrypt key plaintext ent of
          (Inl err, ent1) \<Rightarrow> (Inl err, (n, ent1))
        | (Inr ciphertext, ent1) \<Rightarrow>
            (case ipfs_add c (PrimaryAPI c) ciphertext (n, ent1) of
               (Inl err, s) \<Rightarrow> (Inl (wrap ''ipfsclient: adding to primary node'' err), s)
             | (Inr cid, (n2, ent2)) \<Rightarrow>
                 (case ipfs_pin c (ReplicaAPI c) cid n2 of
                    (Inl err, n3) \<Rightarrow> (Inl (wrap ''ipfsclient: pinning on replica node'' err), (n3, ent2))
                  | (Inr _, n3) \<Rightarrow> (Inr cid, (n3, ent2)))))"

definition FetchAndDecrypt :: "'n Client \<Rightarrow> string \<Rightarrow> string \<Rightarrow> ('n, goerr, string) act" where
  "FetchAndDecrypt c key cid n =
     (case ipfs_cat c (PrimaryAPI c) cid n of
        (Inl err, n') \<Rightarrow> (Inl (wrap (''ipfsclient: fetching '' @ cid) err), n')
      | (Inr ciphertext, n') \<Rightarrow> (decrypt key ciphertext, n'))"

section \<open>Facts\<close>

lemma encrypt_Inr:
  "encrypt key p ent = (Inr ct, ent') \<Longrightarrow> wf_entropy ent \<Longrightarrow>
   length key = 16 \<and> wf_entropy ent'
   \<and> (\<exists>nonce. length nonce = 12 \<and> ct = nonce @ gcm_seal (aes_encrypt key) nonce p [])"
  by (auto simp: encrypt_def MinDocumentKeyBytes_def NewCipher_def NonceSize_def
      dest: rand_read_length split: if_splits sum.splits prod.splits)

lemma decrypt_sealed:
  "length key = 16 \<Longrightarrow> length nonce = 12 \<Longrightarrow>
   decrypt key (nonce @ gcm_seal (aes_encrypt key) nonce p []) = Inr p"
  by (simp add: decrypt_def MinDocumentKeyBytes_def NewCipher_def NonceSize_def gcm_open_seal)

lemma decrypt_Inr:
  assumes "decrypt key ct = Inr p"
  shows "length key = 16 \<and> (\<exists>nonce. length nonce = 12 \<and> ct = nonce @ gcm_seal (aes_encrypt key) nonce p [])"
proof -
  from assms have k: "length key = 16" and len: "12 \<le> length ct"
    and op: "gcm_open (aes_encrypt key) (take 12 ct) (drop 12 ct) [] = Some p"
    by (auto simp: decrypt_def MinDocumentKeyBytes_def NewCipher_def NonceSize_def
        split: if_splits option.splits)
  have "ct = take 12 ct @ gcm_seal (aes_encrypt key) (take 12 ct) p []"
    using gcm_open_Some [OF op] by (metis append_take_drop_id)
  with k len show ?thesis by (metis length_take min.absorb2)
qed

text \<open>The documented behaviour of the nodes: stored content stays, a successful add stores
  the file of the form under the hash it returns, and a successful cat returns it.\<close>

definition content_store :: "'n http \<Rightarrow> ('n \<Rightarrow> string \<Rightarrow> string \<Rightarrow> string option) \<Rightarrow> bool" where
  "content_store h stored \<longleftrightarrow>
     (\<forall>req n r n' api cid d. Do h req n = (r, n') \<and> stored n api cid = Some d \<longrightarrow> stored n' api cid = Some d)
     \<and> (\<forall>api b data n resp n' cid.
          Do h (add_request api b data) n = (Inr resp, n') \<and> StatusCode resp = 200
          \<and> hash_of_response (Body_bytes resp) = Some cid \<longrightarrow> stored n' api cid = Some data)
     \<and> (\<forall>api cid d n resp n'.
          Do h (get_request (api @ ''/api/v0/cat?arg='' @ cid)) n = (Inr resp, n') \<and> StatusCode resp = 200
          \<and> Body_err resp = None \<and> stored n api cid = Some d \<longrightarrow> Body_bytes resp = d)"

lemma content_keeps:
  "content_store h stored \<Longrightarrow> Do h req n = (r, n') \<Longrightarrow> stored n api cid = Some d \<Longrightarrow> stored n' api cid = Some d"
  unfolding content_store_def by blast

lemma content_add:
  "content_store h stored \<Longrightarrow> Do h (add_request api b data) n = (Inr resp, n') \<Longrightarrow> StatusCode resp = 200 \<Longrightarrow>
   hash_of_response (Body_bytes resp) = Some cid \<Longrightarrow> stored n' api cid = Some data"
  unfolding content_store_def by blast

lemma content_cat:
  "content_store h stored \<Longrightarrow> Do h (get_request (api @ ''/api/v0/cat?arg='' @ cid)) n = (Inr resp, n') \<Longrightarrow>
   StatusCode resp = 200 \<Longrightarrow> Body_err resp = None \<Longrightarrow> stored n api cid = Some d \<Longrightarrow> Body_bytes resp = d"
  unfolding content_store_def by blast

lemma EncryptAndAdd_stores:
  assumes store: "content_store (HTTPClient c) stored" and ent: "wf_entropy ent"
    and run: "EncryptAndAdd c key p (n, ent) = (Inr cid, (n1, ent1))"
  shows "length key = 16 \<and> (\<exists>nonce. length nonce = 12 \<and>
    stored n1 (PrimaryAPI c) cid = Some (nonce @ gcm_seal (aes_encrypt key) nonce p []))"
proof -
  from run obtain ct ent2 n2 where enc: "encrypt key p ent = (Inr ct, ent2)"
    and add: "ipfs_add c (PrimaryAPI c) ct (n, ent2) = (Inr cid, (n2, ent1))"
    and pin: "ipfs_pin c (ReplicaAPI c) cid n2 = (Inr (), n1)"
    by (auto simp: EncryptAndAdd_def split: sum.splits prod.splits)
  from encrypt_Inr [OF enc ent] obtain nonce where k: "length key = 16" "length nonce = 12"
    "ct = nonce @ gcm_seal (aes_encrypt key) nonce p []" by auto
  from add obtain b resp where "Do (HTTPClient c) (add_request (PrimaryAPI c) b ct) n = (Inr resp, n2)"
    "StatusCode resp = 200" "hash_of_response (Body_bytes resp) = Some cid"
    by (auto simp: ipfs_add_def http_post_def split: sum.splits prod.splits if_splits option.splits)
  then have st: "stored n2 (PrimaryAPI c) cid = Some ct" by (rule content_add [OF store])
  from pin obtain resp' where
    "Do (HTTPClient c) (get_request (ReplicaAPI c @ ''/api/v0/pin/add?arg='' @ cid)) n2 = (Inr resp', n1)"
    by (auto simp: ipfs_pin_def http_post_def split: sum.splits prod.splits if_splits)
  from content_keeps [OF store this st] have "stored n1 (PrimaryAPI c) cid = Some ct" .
  with k show ?thesis by auto
qed

text \<open>The states of the nodes that later requests, of anybody, lead to.\<close>

definition later_nodes :: "'n http \<Rightarrow> 'n \<Rightarrow> 'n \<Rightarrow> bool" where
  "later_nodes h = (\<lambda>n n'. \<exists>req r. Do h req n = (r, n'))\<^sup>*\<^sup>*"

lemma later_nodes_keep:
  assumes "content_store h stored" and "later_nodes h n n'" and "stored n api cid = Some d"
  shows "stored n' api cid = Some d"
  using assms(2) unfolding later_nodes_def
proof (induction rule: rtranclp_induct)
  case base
  show ?case by (rule assms(3))
next
  case (step n1 n2)
  then show ?case using content_keeps [OF assms(1)] by blast
qed

section \<open>Properties\<close>

text \<open>C28: A document that was added comes back, on nodes that keep what they store. Let adding it
  succeed and any requests to the nodes follow. Whenever the primary node then serves the content
  identifier (the address is accepted, the answer has status 200 and its body is read without an
  error), fetching with the same key succeeds and returns the document itself; no fetch ever
  returns anything else. Decryption under the key accepts exactly what encryption under that key
  produces, so another text stored in its place is an error unless it forges the GCM tag.\<close>

theorem document_roundtrip:
  assumes "content_store (HTTPClient c) stored" and "wf_entropy ent"
    and "EncryptAndAdd c key plaintext (n, ent) = (Inr cid, (n1, ent1))"
    and "later_nodes (HTTPClient c) n1 n2"
  shows "(\<forall>resp n3. NewRequest_check (HTTPClient c) (PrimaryAPI c @ ''/api/v0/cat?arg='' @ cid) = Inr ()
            \<and> Do (HTTPClient c) (get_request (PrimaryAPI c @ ''/api/v0/cat?arg='' @ cid)) n2 = (Inr resp, n3)
            \<and> StatusCode resp = 200 \<and> Body_err resp = None
          \<longrightarrow> FetchAndDecrypt c key cid n2 = (Inr plaintext, n3))
    \<and> (\<forall>q n3. FetchAndDecrypt c key cid n2 = (Inr q, n3) \<longrightarrow> q = plaintext)
    \<and> (\<forall>ct q. decrypt key ct = Inr q \<longleftrightarrow>
         (\<exists>nonce. length nonce = 12 \<and> ct = nonce @ gcm_seal (aes_encrypt key) nonce q []))"
proof -
  obtain nonce where k: "length key = 16" "length nonce = 12"
    and "stored n1 (PrimaryAPI c) cid = Some (nonce @ gcm_seal (aes_encrypt key) nonce plaintext [])"
    using EncryptAndAdd_stores [OF assms(1-3)] by blast
  then have st: "stored n2 (PrimaryAPI c) cid = Some (nonce @ gcm_seal (aes_encrypt key) nonce plaintext [])"
    using later_nodes_keep [OF assms(1,4)] by blast
  let ?cat = "get_request (PrimaryAPI c @ ''/api/v0/cat?arg='' @ cid)"
  have served: "FetchAndDecrypt c key cid n2 = (Inr plaintext, n3)"
    if "NewRequest_check (HTTPClient c) (PrimaryAPI c @ ''/api/v0/cat?arg='' @ cid) = Inr ()"
      "Do (HTTPClient c) ?cat n2 = (Inr resp, n3)" "StatusCode resp = 200" "Body_err resp = None" for resp n3
    using that content_cat [OF assms(1) that(2-4) st] decrypt_sealed [OF k]
    by (simp add: FetchAndDecrypt_def ipfs_cat_def http_post_def get_request_def)
  moreover have "q = plaintext" if fetch: "FetchAndDecrypt c key cid n2 = (Inr q, n3)" for q n3
  proof -
    from fetch obtain ct where "ipfs_cat c (PrimaryAPI c) cid n2 = (Inr ct, n3)"
      by (auto simp: FetchAndDecrypt_def split: sum.splits prod.splits)
    then obtain resp where "NewRequest_check (HTTPClient c) (PrimaryAPI c @ ''/api/v0/cat?arg='' @ cid) = Inr ()"
      "Do (HTTPClient c) ?cat n2 = (Inr resp, n3)" "StatusCode resp = 200" "Body_err resp = None"
      by (auto simp: ipfs_cat_def http_post_def get_request_def
          split: sum.splits prod.splits if_splits option.splits)
    from served [OF this] fetch show ?thesis by simp
  qed
  ultimately show ?thesis using decrypt_Inr decrypt_sealed [OF k(1)] by blast
qed

text \<open>Nodes whose content identifier is the hexadecimal form of the content.\<close>

definition form_file :: "http_request \<Rightarrow> string" where
  "form_file req =
     (let b = drop (length ''multipart/form-data; boundary='') (req_content_type req);
          body = drop (length (form_prefix b)) (req_body req)
      in take (length body - length (form_suffix b)) body)"

definition last_hex :: "string \<Rightarrow> string" where
  "last_hex url = rev (takeWhile (\<lambda>c. hex_val c \<noteq> None) (rev url))"

definition demo_http :: "unit http" where
  "demo_http =
     \<lparr>NewRequest_check = (\<lambda>u. Inr ()),
      Do = (\<lambda>req n.
        (Inr \<lparr>StatusCode = 200,
              Body_bytes =
                (if req_content_type req = []
                 then (case hex_decode (last_hex (req_url req)) of None \<Rightarrow> [] | Some d \<Rightarrow> d)
                 else json_print (JObj [(''Hash'', JStr (hex_encode (form_file req)))])),
              Body_err = None\<rparr>, n))\<rparr>"

lemma form_file_add [simp]: "form_file (add_request api b data) = data"
  unfolding form_file_def Let_def add_request_def http_request.simps form_body_def by simp

lemma hex_decode_hex: "hex_decode s = Some d \<Longrightarrow> list_all (\<lambda>c. hex_val c \<noteq> None) s"
  by (induction s arbitrary: d rule: hex_decode.induct) (auto split: option.splits)

lemma last_hex_append: "hex_decode s = Some d \<Longrightarrow> last_hex (pre @ CHR ''='' # s) = s"
proof -
  assume "hex_decode s = Some d"
  then have "\<forall>c \<in> set (rev s). hex_val c \<noteq> None" using hex_decode_hex by (simp add: list_all_iff)
  moreover have "hex_val (CHR ''='') = None" by (simp add: hex_val_def)
  ultimately have "takeWhile (\<lambda>c. hex_val c \<noteq> None) (rev s @ CHR ''='' # rev pre) = rev s"
    by (subst takeWhile_append2) auto
  then show ?thesis by (simp add: last_hex_def)
qed

lemma demo_do_add:
  "Do demo_http (add_request api b data) n =
     (Inr \<lparr>StatusCode = 200, Body_bytes = json_print (JObj [(''Hash'', JStr (hex_encode data))]),
           Body_err = None\<rparr>, n)"
proof -
  have "req_content_type (add_request api b data) \<noteq> []" by (simp add: add_request_def)
  then show ?thesis by (simp add: demo_http_def del: json_print.simps)
qed

lemma hash_of_printed: "is_ascii h \<Longrightarrow> hash_of_response (json_print (JObj [(''Hash'', JStr h)])) = Some h"
  using decode_print [of "JObj [(''Hash'', JStr h)]" "[]"]
  by (simp add: hash_of_response_def valid_utf8_ascii del: json_print.simps)

lemma is_ascii_hex: "is_ascii (hex_encode s)"
  using hex_encode_hexdigs [of s] by (auto simp: is_ascii_def list_all_iff is_hexdig_def)

lemma demo_content_store: "content_store demo_http (\<lambda>n api cid. hex_decode cid)"
proof -
  have "Body_bytes resp = d"
    if "Do demo_http (get_request (api @ ''/api/v0/cat?arg='' @ cid)) n = (Inr resp, n')" "hex_decode cid = Some d"
    for api cid d n resp n'
    using that last_hex_append [OF that(2), of "api @ ''/api/v0/cat?arg''"]
    by (auto simp: demo_http_def get_request_def)
  moreover have "hex_decode cid = Some data"
    if "Do demo_http (add_request api b data) n = (Inr resp, n')"
      "hash_of_response (Body_bytes resp) = Some cid" for api b data n resp n' cid
  proof -
    from that(1) have "Body_bytes resp = json_print (JObj [(''Hash'', JStr (hex_encode data))])"
      unfolding demo_do_add by (auto simp del: json_print.simps)
    with that(2) hash_of_printed [OF is_ascii_hex, of data] show ?thesis by simp
  qed
  ultimately show ?thesis unfolding content_store_def by blast
qed

definition demo_client :: "unit Client" where
  "demo_client = NewIpfsClient demo_http ''http://a'' ''http://b''"

definition demo_entropy :: entropy where
  "demo_entropy = \<lparr>source = (\<lambda>i n. Inr (replicate n (CHR ''r''))), draws = 0\<rparr>"

lemma demo_add:
  "\<exists>cid s. EncryptAndAdd demo_client (replicate 16 (CHR ''k'')) p ((), demo_entropy) = (Inr cid, s)"
proof -
  have c: "NewCipher (replicate 16 (CHR ''k'')) = Inr (aes_encrypt (replicate 16 (CHR ''k'')))"
    unfolding NewCipher_def by (simp only: length_replicate) simp
  have enc: "\<exists>ct e. encrypt (replicate 16 (CHR ''k'')) p demo_entropy = (Inr ct, e)
      \<and> source e = source demo_entropy"
    unfolding encrypt_def c
    by (simp only: length_replicate MinDocumentKeyBytes_def) (simp add: rand_read_def demo_entropy_def)
  then obtain ct e where e: "encrypt (replicate 16 (CHR ''k'')) p demo_entropy = (Inr ct, e)"
    "source e = source demo_entropy" by blast
  have http: "HTTPClient demo_client = demo_http" "NewRequest_check demo_http u = Inr ()" for u
    by (simp_all add: demo_client_def NewIpfsClient_def demo_http_def)
  have "\<exists>cid s. ipfs_add demo_client (PrimaryAPI demo_client) ct ((), e) = (Inr cid, s)"
    using e(2)
    by (simp add: ipfs_add_def rand_read_def demo_entropy_def http_post_def http demo_do_add
        hash_of_printed [OF is_ascii_hex] del: json_print.simps)
  then obtain cid n e2 where a: "ipfs_add demo_client (PrimaryAPI demo_client) ct ((), e) = (Inr cid, (n, e2))"
    by (metis prod.collapse)
  have "\<exists>n'. ipfs_pin demo_client (ReplicaAPI demo_client) cid n = (Inr (), n')"
    by (simp add: ipfs_pin_def http_post_def demo_client_def NewIpfsClient_def demo_http_def)
  then show ?thesis using e(1) a by (auto simp: EncryptAndAdd_def)
qed

lemma demo_serves:
  "\<exists>resp. Do demo_http (get_request url) n = (Inr resp, n) \<and> StatusCode resp = 200 \<and> Body_err resp = None"
  by (simp add: demo_http_def)

theorem document_roundtrip_witness:
  "\<exists>cid n1 ent1. EncryptAndAdd demo_client (replicate 16 (CHR ''k'')) ''doc'' ((), demo_entropy)
       = (Inr cid, (n1, ent1))
     \<and> FetchAndDecrypt demo_client (replicate 16 (CHR ''k'')) cid n1 = (Inr ''doc'', n1)"
proof -
  obtain cid n1 ent1 where run: "EncryptAndAdd demo_client (replicate 16 (CHR ''k'')) ''doc'' ((), demo_entropy)
      = (Inr cid, (n1, ent1))" using demo_add by (metis prod.collapse)
  have http: "HTTPClient demo_client = demo_http" "NewRequest_check demo_http u = Inr ()" for u
    by (simp_all add: demo_client_def NewIpfsClient_def demo_http_def)
  have store: "content_store (HTTPClient demo_client) (\<lambda>n api cid. hex_decode cid)"
    by (simp add: http demo_content_store)
  have ent: "wf_entropy demo_entropy" by (simp add: wf_entropy_def demo_entropy_def)
  have "later_nodes (HTTPClient demo_client) n1 n1" by (simp add: later_nodes_def)
  from document_roundtrip [OF store ent run this, THEN conjunct1, rule_format] run demo_serves http
  show ?thesis by metis
qed

end
