(* ===== verification/Digest.thy ===== *)
theory Digest
  imports Go_Errors Go_Crypto
begin

text \<open>
  The digest builder of the gateway client (gateway-client/digestbuilder.go): the salted
  digest of a profile section and the two HMAC pseudonyms. \<open>jsoncanonicalizer.Transform\<close> is
  third-party code and the argument \<open>Transform\<close> here. No cryptographic hardness is assumed:
  where the code relies on SHA-256, the theorems end in "or here is a SHA-256 collision".
\<close>

definition CanonicalizationVersion_const :: string where
  "CanonicalizationVersion_const = ''JCS-RFC8785-v1''"

definition HashAlgo_const :: string where
  "HashAlgo_const = ''SHA-256''"

definition MinSaltBytes :: nat where
  "MinSaltBytes = 16"

definition ErrSaltTooShort :: goerr where
  "ErrSaltTooShort = Sentinel ''gatewayclient: salt must be at least 128 bits (16 bytes)''"

definition ErrEmptyEmployeeKey :: goerr where
  "ErrEmptyEmployeeKey = Sentinel ''gatewayclient: employeeKey_i must not be empty''"

definition ComputeDataHash :: "(string \<Rightarrow> string res) \<Rightarrow> string \<Rightarrow> string \<Rightarrow> string res" where
  "ComputeDataHash Transform salt sectionJSON =
     (if length salt < MinSaltBytes then Inl ErrSaltTooShort
      else case Transform sectionJSON of
             Inl err \<Rightarrow> Inl (wrap ''gatewayclient: canonicalizing section'' err)
           | Inr canonical \<Rightarrow> Inr (''sha256:'' @ hex_encode (sha256 (salt @ canonical))))"

definition ComputeEmployeeID :: "string \<Rightarrow> string res" where
  "ComputeEmployeeID employeeKeyI =
     (if length employeeKeyI = 0 then Inl ErrEmptyEmployeeKey
      else Inr (hex_encode (hmac_sha256 employeeKeyI ''id'')))"

definition ComputeUpdatedBy :: "string \<Rightarrow> string \<Rightarrow> string res" where
  "ComputeUpdatedBy employeeKeyI userID =
     (if length employeeKeyI = 0 then Inl ErrEmptyEmployeeKey
      else Inr (hex_encode (hmac_sha256 employeeKeyI (''actor'' @ userID))))"

section \<open>Facts\<close>

definition sha_collision :: "string \<Rightarrow> string \<Rightarrow> bool" where
  "sha_collision x y \<longleftrightarrow> x \<noteq> y \<and> sha256 x = sha256 y"

lemma ComputeDataHash_Inr:
  "ComputeDataHash T salt x = Inr h \<longleftrightarrow>
     MinSaltBytes \<le> length salt
     \<and> (\<exists>c. T x = Inr c \<and> h = ''sha256:'' @ hex_encode (sha256 (salt @ c)))"
  by (auto simp: ComputeDataHash_def split: sum.splits if_splits)

text \<open>The shape \<open>sha256:\<close> and 64 lower-case hexadecimal digits.\<close>

definition is_digest :: "string \<Rightarrow> bool" where
  "is_digest h \<longleftrightarrow>
     take 7 h = ''sha256:'' \<and> length h = 71 \<and> list_all is_hexdig (drop 7 h)"

lemma ComputeDataHash_digest: "ComputeDataHash T salt x = Inr h \<Longrightarrow> is_digest h"
  by (auto simp: ComputeDataHash_Inr is_digest_def hex_encode_hexdigs)

lemma ComputeDataHash_binding:
  assumes "ComputeDataHash T s x = Inr h" and "ComputeDataHash T s' y = Inr h"
    and "length s = length s'"
  shows "(s = s' \<and> T x = T y) \<or> (\<exists>cx cy. T x = Inr cx \<and> T y = Inr cy \<and> sha_collision (s @ cx) (s' @ cy))"
proof -
  obtain cx cy where c: "T x = Inr cx" "T y = Inr cy"
    and h: "h = ''sha256:'' @ hex_encode (sha256 (s @ cx))" "h = ''sha256:'' @ hex_encode (sha256 (s' @ cy))"
    using assms(1,2) unfolding ComputeDataHash_Inr by metis
  then have "sha256 (s @ cx) = sha256 (s' @ cy)" by (metis hex_encode_inject same_append_eq)
  show ?thesis
  proof (cases "s @ cx = s' @ cy")
    case True
    then show ?thesis using assms(3) c by simp
  next
    case False
    then show ?thesis using c \<open>sha256 (s @ cx) = sha256 (s' @ cy)\<close> unfolding sha_collision_def by blast
  qed
qed

lemma is_digest_chars: "is_digest h \<Longrightarrow> c \<in> set h \<Longrightarrow> is_hexdig c \<or> c \<in> set ''sha256:''"
proof -
  assume "is_digest h" and "c \<in> set h"
  then have "c \<in> set (take 7 h) \<or> c \<in> set (drop 7 h)" by (metis Un_iff append_take_drop_id set_append)
  with \<open>is_digest h\<close> show ?thesis by (auto simp: is_digest_def list_all_iff)
qed

lemma ComputeEmployeeID_Inr:
  "ComputeEmployeeID k = Inr i \<longleftrightarrow> k \<noteq> [] \<and> i = hex_encode (hmac_sha256 k ''id'')"
  by (auto simp: ComputeEmployeeID_def)

section \<open>Properties\<close>

text \<open>The data hash binds the salt and the canonical form of the section. It has the shape
  \<open>sha256:\<close> followed by 64 hexadecimal digits, is refused for a salt under 128 bits, and two
  sections with the same hash under salts of one length have the same salt and the same canonical
  form, or give an explicit SHA-256 collision.\<close>

lemma data_hash_binds_section:
  assumes "ComputeDataHash Transform salt x = Inr h"
  shows "16 \<le> length salt \<and> is_digest h
    \<and> (\<forall>salt' y. length salt' = length salt \<and> ComputeDataHash Transform salt' y = Inr h \<longrightarrow>
         (salt' = salt \<and> Transform y = Transform x)
         \<or> (\<exists>cx cy. Transform x = Inr cx \<and> Transform y = Inr cy
              \<and> sha_collision (salt @ cx) (salt' @ cy)))"
proof (intro conjI allI impI)
  show "16 \<le> length salt" using assms by (simp add: ComputeDataHash_Inr MinSaltBytes_def)
  show "is_digest h" by (rule ComputeDataHash_digest [OF assms])
  fix salt' y
  assume "length salt' = length salt \<and> ComputeDataHash Transform salt' y = Inr h"
  with ComputeDataHash_binding [OF assms, of salt' y]
  show "(salt' = salt \<and> Transform y = Transform x)
    \<or> (\<exists>cx cy. Transform x = Inr cx \<and> Transform y = Inr cy \<and> sha_collision (salt @ cx) (salt' @ cy))"
    by (elim conjE) metis
qed

text \<open>The two pseudonyms of one employee key are 64 hexadecimal digits each, are refused
  for an empty key, and are computed from different messages: an \<open>employeeID\<close> equals an
  \<open>updatedBy\<close> value under the same key only through an HMAC collision.\<close>

lemma pseudonyms_are_separated:
  assumes "ComputeEmployeeID key = Inr i" and "ComputeUpdatedBy key user = Inr u"
  shows "key \<noteq> [] \<and> length i = 64 \<and> length u = 64
    \<and> list_all is_hexdig i \<and> list_all is_hexdig u
    \<and> (i = u \<longleftrightarrow> hmac_sha256 key ''id'' = hmac_sha256 key (''actor'' @ user))
    \<and> ''id'' \<noteq> ''actor'' @ user"
  using assms
  by (auto simp: ComputeEmployeeID_def ComputeUpdatedBy_def hex_encode_hexdigs split: if_splits)

end
