(* ===== verification/Gateway.thy ===== *)
theory Gateway
  imports Digest Go_Decode
begin

text \<open>
  The gateway client (gateway-client/gatewayclient.go and verify.go): connection set-up with
  its clean-up, the submit loop that retries on the two expected rejections, the evaluate
  calls, and the client-side verification of a section. The Fabric gateway's contract handle
  is the record \<open>contract\<close> of two actions over the state \<open>'s\<close> of the network; reading files,
  parsing certificates and dialling are the record \<open>dialer\<close>.
\<close>

section \<open>Connecting\<close>

record ('cert, 'key, 'id, 'sign, 'pair, 'conn, 'gw) dialer =
  ReadFile :: "string \<Rightarrow> string res"
  CertificateFromPEM :: "string \<Rightarrow> 'cert res"
  NewX509Identity :: "string \<Rightarrow> 'cert \<Rightarrow> 'id res"
  PrivateKeyFromPEM :: "string \<Rightarrow> 'key res"
  NewPrivateKeySign :: "'key \<Rightarrow> 'sign res"
  X509KeyPair :: "string \<Rightarrow> string \<Rightarrow> 'pair res"
  NewClient :: "string \<Rightarrow> 'cert \<times> 'pair \<times> string \<Rightarrow> 'conn res"
  Connect :: "'id \<Rightarrow> 'sign \<Rightarrow> 'conn \<Rightarrow> 'gw res"
  CloseConn :: "'conn \<Rightarrow> unit res"

type_synonym ('cert, 'pair) tls_config = "'cert \<times> 'pair \<times> string"

text \<open>The path of a PEM file.\<close>

type_synonym pem_path = string

definition bind_res :: "'a res \<Rightarrow> ('a \<Rightarrow> 'b res) \<Rightarrow> 'b res" where
  "bind_res r f = (case r of Inl e \<Rightarrow> Inl e | Inr x \<Rightarrow> f x)"

definition wrap_res :: "string \<Rightarrow> 'a res \<Rightarrow> 'a res" where
  "wrap_res msg r = map_sum (wrap msg) id r"

definition loadIdentity ::
  "('cert, 'key, 'id, 'sign, 'pair, 'conn, 'gw) dialer \<Rightarrow> string \<Rightarrow> string \<Rightarrow> string \<Rightarrow> ('id \<times> 'sign) res" where
  "loadIdentity d mspID certPEMPath keyPEMPath =
     bind_res (ReadFile d certPEMPath) (\<lambda>certPEM.
     bind_res (wrap_res ''parsing certificate'' (CertificateFromPEM d certPEM)) (\<lambda>cert.
     bind_res (wrap_res ''creating X509 identity'' (NewX509Identity d mspID cert)) (\<lambda>i.
     bind_res (ReadFile d keyPEMPath) (\<lambda>keyPEM.
     bind_res (wrap_res ''parsing private key'' (PrivateKeyFromPEM d keyPEM)) (\<lambda>privateKey.
     bind_res (wrap_res ''creating signer'' (NewPrivateKeySign d privateKey)) (\<lambda>sign.
     Inr (i, sign)))))))"

definition loadTLSCredentials ::
  "('cert, 'key, 'id, 'sign, 'pair, 'conn, 'gw) dialer \<Rightarrow> string \<Rightarrow> string \<Rightarrow> string \<Rightarrow> string
   \<Rightarrow> ('cert, 'pair) tls_config res" where
  "loadTLSCredentials d caCertPEMPath clientCertPEMPath clientKeyPEMPath serverNameOverride =
     bind_res (ReadFile d caCertPEMPath) (\<lambda>caCertPEM.
     bind_res (wrap_res ''parsing TLS CA certificate'' (CertificateFromPEM d caCertPEM)) (\<lambda>caCert.
     bind_res (ReadFile d clientCertPEMPath) (\<lambda>clientCertPEM.
     bind_res (ReadFile d clientKeyPEMPath) (\<lambda>clientKeyPEM.
     bind_res (wrap_res ''parsing client TLS cert/key pair'' (X509KeyPair d clientCertPEM clientKeyPEM)) (\<lambda>pair.
     Inr (caCert, pair, serverNameOverride))))))"

text \<open>The state is the list of open connections.\<close>

definition NewGatewayClient ::
  "('cert, 'key, 'id, 'sign, 'pair, 'conn, 'gw) dialer \<Rightarrow> string \<Rightarrow> string \<Rightarrow> pem_path \<Rightarrow> pem_path
   \<Rightarrow> pem_path \<Rightarrow> string \<Rightarrow> pem_path \<Rightarrow> pem_path \<Rightarrow> string \<Rightarrow> string
   \<Rightarrow> ('conn list, goerr, 'conn \<times> 'gw \<times> string \<times> string) act" where
  "NewGatewayClient d peerEndpoint tlsServerNameOverride tlsCACertPEMPath clientTLSCertPEMPath
     clientTLSKeyPEMPath mspID certPEMPath keyPEMPath channelName chaincodeName open =
     (case loadTLSCredentials d tlsCACertPEMPath clientTLSCertPEMPath clientTLSKeyPEMPath
             tlsServerNameOverride of
        Inl err \<Rightarrow> (Inl (wrap ''gatewayclient: loading TLS credentials'' err), open)
      | Inr tlsCreds \<Rightarrow>
          (case NewClient d peerEndpoint tlsCreds of
             Inl err \<Rightarrow> (Inl (wrap (''gatewayclient: dialing '' @ peerEndpoint) err), open)
           | Inr conn \<Rightarrow>
               (case loadIdentity d mspID certPEMPath keyPEMPath of
                  Inl err \<Rightarrow> (Inl (wrap ''gatewayclient: loading identity'' err),
                              remove1 conn (conn # open))
                | Inr (i, sign) \<Rightarrow>
                    (case Connect d i sign conn of
                       Inl err \<Rightarrow> (Inl (wrap ''gatewayclient: client.Connect'' err),
                                   remove1 conn (conn # open))
                     | Inr gw \<Rightarrow> (Inr (conn, gw, channelName, chaincodeName), conn # open)))))"

definition Close ::
  "('cert, 'key, 'id, 'sign, 'pair, 'conn, 'gw) dialer \<Rightarrow> 'conn \<times> 'gw \<times> string \<times> string
   \<Rightarrow> ('conn list, goerr, unit) act" where
  "Close d g open = (CloseConn d (fst g), remove1 (fst g) open)"

section \<open>Submitting and evaluating\<close>

record 's contract =
  SubmitTransaction :: "string \<Rightarrow> string list \<Rightarrow> ('s, goerr, string) act"
  EvaluateWithContext :: "string \<Rightarrow> string list \<Rightarrow> ('s, goerr, string) act"

definition MaxSubmitRetries :: nat where
  "MaxSubmitRetries = 3"

definition evaluate :: "'s contract \<Rightarrow> string \<Rightarrow> string list \<Rightarrow> ('s, goerr, string) act" where
  "evaluate c fn args = mapErr LedgerError (EvaluateWithContext c fn args)"

definition EvaluateGetProfileSectionRecord ::
  "'s contract \<Rightarrow> string \<Rightarrow> string \<Rightarrow> string \<Rightarrow> ('s, goerr, string) act" where
  "EvaluateGetProfileSectionRecord c tenantID employeeID profileSection =
     evaluate c ''GetProfileSectionRecord'' [tenantID, employeeID, profileSection]"

definition EvaluateGetProfileHistory ::
  "'s contract \<Rightarrow> string \<Rightarrow> string \<Rightarrow> string \<Rightarrow> ('s, goerr, string) act" where
  "EvaluateGetProfileHistory c tenantID employeeID profileSection =
     evaluate c ''GetProfileHistory'' [tenantID, employeeID, profileSection]"

definition EvaluateGetEmployeeProfileSummary ::
  "'s contract \<Rightarrow> string \<Rightarrow> string \<Rightarrow> ('s, goerr, string) act" where
  "EvaluateGetEmployeeProfileSummary c tenantID employeeID =
     evaluate c ''GetEmployeeProfileSummary'' [tenantID, employeeID]"

text \<open>\<open>peer.TxValidationCode_MVCC_READ_CONFLICT\<close>.\<close>

definition MVCC_READ_CONFLICT :: int where
  "MVCC_READ_CONFLICT = 11"

fun is_commit_error :: "goerr \<Rightarrow> bool" where
  "is_commit_error (CommitError c m) = True"
| "is_commit_error _ = False"

fun is_endorse_error :: "goerr \<Rightarrow> bool" where
  "is_endorse_error (EndorseError m) = True"
| "is_endorse_error _ = False"

definition isExpectedRetryableRejection :: "goerr \<Rightarrow> bool" where
  "isExpectedRetryableRejection err \<longleftrightarrow>
     (case find is_commit_error (err_chain err) of
        Some (CommitError code m) \<Rightarrow> code = MVCC_READ_CONFLICT
      | _ \<Rightarrow> False)
     \<or> (case find is_endorse_error (err_chain err) of
          Some e \<Rightarrow> contains (error_text e) ''stale chain reference''
        | None \<Rightarrow> False)"

definition dataHash_marker :: string where
  "dataHash_marker = [CHR 0x22] @ ''dataHash'' @ [CHR 0x22, CHR '':'', CHR 0x22]"

definition extractDataHash :: "string \<Rightarrow> string" where
  "extractDataHash s =
     (case index_of s dataHash_marker of
        None \<Rightarrow> []
      | Some idx \<Rightarrow>
          (let rest = drop (idx + length dataHash_marker) s in
           case index_of rest [CHR 0x22] of
             None \<Rightarrow> []
           | Some e \<Rightarrow> take e rest))"

text \<open>The loop of attempts: \<open>n\<close> is the number of retries still allowed after this one. The
  head is read again after every retryable rejection, also after the last.\<close>

fun submit_loop ::
  "'s contract \<Rightarrow> string \<Rightarrow> string \<Rightarrow> string \<Rightarrow> (string \<Rightarrow> string list) \<Rightarrow> nat \<Rightarrow> string
   \<Rightarrow> ('s, goerr, string) act" where
  "submit_loop c tenantID employeeID profileSection buildArgs n prevHash s =
     (case SubmitTransaction c ''RecordProfileSection'' (buildArgs prevHash) s of
        (Inr result, s1) \<Rightarrow> (Inr result, s1)
      | (Inl err, s1) \<Rightarrow>
          if \<not> isExpectedRetryableRejection err then (Inl (LedgerError err), s1)
          else
            (case EvaluateGetProfileSectionRecord c tenantID employeeID profileSection s1 of
               (Inl headErr, s2) \<Rightarrow>
                 (Inl (LedgerError (Wrapf ''re-read after retryable rejection failed: '' headErr
                         ('' (original: '' @ error_text err @ '')''))), s2)
             | (Inr head, s2) \<Rightarrow>
                 (case n of
                    0 \<Rightarrow> (Inl (LedgerError (Wrapf (''exhausted '' @ itoa (int MaxSubmitRetries)
                           @ '' retries on the expected MVCC/stale-prevHash path: '') err [])), s2)
                  | Suc m \<Rightarrow>
                      submit_loop c tenantID employeeID profileSection buildArgs m
                        (extractDataHash head) s2)))"

declare submit_loop.simps [simp del]

definition SubmitRecordProfileSection ::
  "'s contract \<Rightarrow> string \<Rightarrow> string \<Rightarrow> string \<Rightarrow> (string \<Rightarrow> string list) \<Rightarrow> ('s, goerr, string) act" where
  "SubmitRecordProfileSection c tenantID employeeID profileSection buildArgs s =
     (case EvaluateGetProfileSectionRecord c tenantID employeeID profileSection s of
        (Inr head, s1) \<Rightarrow>
          submit_loop c tenantID employeeID profileSection buildArgs MaxSubmitRetries
            (extractDataHash head) s1
      | (Inl _, s1) \<Rightarrow>
          submit_loop c tenantID employeeID profileSection buildArgs MaxSubmitRetries [] s1)"

section \<open>verify.go\<close>

record VerificationResult =
  Found :: bool
  Matched :: bool
  OnChainHash :: string
  RecomputedHash :: string
  OnChainVersion :: int
  Verified_UpdatedBy :: string
  Verified_Timestamp :: string

definition not_found_result :: VerificationResult where
  "not_found_result =
     \<lparr>Found = False, Matched = False, OnChainHash = [], RecomputedHash = [], OnChainVersion = 0,
      Verified_UpdatedBy = [], Verified_Timestamp = []\<rparr>"

record onChainRecord =
  oc_DataHash :: string
  oc_Version :: int
  oc_UpdatedBy :: string
  oc_Timestamp :: string

definition onChainRecord_fields :: "(json, onChainRecord) fields" where
  "onChainRecord_fields =
     [(''dataHash'', dec_str (\<lambda>x r. r\<lparr>oc_DataHash := x\<rparr>)),
      (''version'', dec_int (\<lambda>x r. r\<lparr>oc_Version := x\<rparr>)),
      (''updatedBy'', dec_str (\<lambda>x r. r\<lparr>oc_UpdatedBy := x\<rparr>)),
      (''timestamp'', dec_str (\<lambda>x r. r\<lparr>oc_Timestamp := x\<rparr>))]"

definition unmarshal_onChainRecord :: "string \<Rightarrow> onChainRecord option" where
  "unmarshal_onChainRecord data =
     (case json_unmarshal data of
        None \<Rightarrow> None
      | Some j \<Rightarrow> decode_struct onChainRecord_fields j
                   \<lparr>oc_DataHash = [], oc_Version = 0, oc_UpdatedBy = [], oc_Timestamp = []\<rparr>)"

definition isNotFoundRejection :: "goerr \<Rightarrow> bool" where
  "isNotFoundRejection err \<longleftrightarrow> contains (error_text err) ''profile section record not found''"

definition Verify ::
  "(string \<Rightarrow> string res) \<Rightarrow> 's contract \<Rightarrow> string \<Rightarrow> string \<Rightarrow> string \<Rightarrow> string \<Rightarrow> string
   \<Rightarrow> ('s, goerr, VerificationResult) act" where
  "Verify Transform c tenantID employeeID profileSection salt currentValueJSON s =
     (case ComputeDataHash Transform salt currentValueJSON of
        Inl err \<Rightarrow> (Inl (wrap ''gatewayclient: recomputing DataHash locally'' err), s)
      | Inr recomputed \<Rightarrow>
          (case EvaluateGetProfileSectionRecord c tenantID employeeID profileSection s of
             (Inl err, s1) \<Rightarrow>
               if isNotFoundRejection err then (Inr not_found_result, s1)
               else (Inl (wrap ''gatewayclient: reading on-chain record'' err), s1)
           | (Inr onChainJSON, s1) \<Rightarrow>
               (case unmarshal_onChainRecord onChainJSON of
                  None \<Rightarrow> (Inl (wrap ''gatewayclient: parsing on-chain record''
                                  (Plain ''json: cannot unmarshal'')), s1)
                | Some rec \<Rightarrow>
                    (Inr \<lparr>Found = True, Matched = (recomputed = oc_DataHash rec),
                          OnChainHash = oc_DataHash rec, RecomputedHash = recomputed,
                          OnChainVersion = oc_Version rec, Verified_UpdatedBy = oc_UpdatedBy rec,
                          Verified_Timestamp = oc_Timestamp rec\<rparr>, s1))))"

section \<open>Facts about the submit loop\<close>

lemma index_of_char: "c \<notin> set s \<Longrightarrow> index_of (s @ c # r) [c] = Some (length s)"
  by (induction s) (auto simp: has_prefix_def)

text \<open>Characters that the JSON printer copies.\<close>

definition plain_char :: "char \<Rightarrow> bool" where
  "plain_char c \<longleftrightarrow>
     32 \<le> (of_char c :: nat) \<and> (of_char c :: nat) < 128
     \<and> c \<notin> {CHR 0x22, CHR 0x5C, CHR ''<'', CHR ''>'', CHR ''&''}"

lemma json_chars_plain: "list_all plain_char s \<Longrightarrow> json_chars s = s"
proof (induction s)
  case (Cons c s)
  then have c: "plain_char c" by simp
  moreover have "\<not> plain_char (CHR 0x0A)" "\<not> plain_char (CHR 0x0D)" "\<not> plain_char (CHR 0x09)"
    by (simp_all add: plain_char_def)
  ultimately have "c \<noteq> CHR 0x0A" "c \<noteq> CHR 0x0D" "c \<noteq> CHR 0x09" by metis+
  with c have "json_escape c = [c]" by (simp add: plain_char_def json_escape_def)
  with Cons show ?case by (simp add: plain_char_def)
qed simp

lemma plain_hexdig: "is_hexdig c \<Longrightarrow> plain_char c"
proof -
  assume c: "is_hexdig c"
  then have "c \<notin> {CHR 0x22, CHR 0x5C, CHR ''<'', CHR ''>'', CHR ''&''}" by (auto simp: is_hexdig_def)
  with c show ?thesis by (auto simp: is_hexdig_def plain_char_def)
qed

lemma plain_digest: "is_digest h \<Longrightarrow> list_all plain_char h"
proof -
  have "list_all plain_char ''sha256:''" by (simp add: plain_char_def)
  moreover assume "is_digest h"
  ultimately show ?thesis
    using is_digest_chars [of h] plain_hexdig by (auto simp: list_all_iff)
qed

lemma extractDataHash_object:
  assumes "list_all plain_char h"
  shows "extractDataHash (json_print (JObj ((''dataHash'', JStr h) # kvs))) = h"
proof -
  let ?m = dataHash_marker
  have dh: "json_quote ''dataHash'' = [CHR 0x22] @ ''dataHash'' @ [CHR 0x22]"
    unfolding json_quote_def by (subst json_chars_plain) (simp_all add: plain_char_def)
  have h: "json_chars h = h" by (rule json_chars_plain [OF assms])
  obtain r where tx: "json_print (JObj ((''dataHash'', JStr h) # kvs)) = CHR 0x7B # ?m @ h @ CHR 0x22 # r"
    by (cases kvs) (simp_all add: dh json_quote_def [of h] h dataHash_marker_def)
  have "index_of (CHR 0x7B # ?m @ h @ CHR 0x22 # r) ?m = Some 1"
  proof -
    have "\<not> has_prefix (CHR 0x7B # ?m @ h @ CHR 0x22 # r) ?m"
      by (simp add: has_prefix_def dataHash_marker_def)
    moreover have "index_of (?m @ h @ CHR 0x22 # r) ?m = Some 0"
      using has_prefix_append [of ?m "h @ CHR 0x22 # r"]
      by (cases "?m @ h @ CHR 0x22 # r") (simp_all add: dataHash_marker_def)
    ultimately show ?thesis by simp
  qed
  moreover have "CHR 0x22 \<notin> set h" using assms by (auto simp: list_all_iff plain_char_def)
  ultimately show ?thesis
    unfolding tx extractDataHash_def by (simp add: index_of_char Let_def)
qed

text \<open>A contract handle that also records every attempt with its outcome.\<close>

definition traced :: "'s contract \<Rightarrow> ('s \<times> (string list \<times> string res) list) contract" where
  "traced c =
     \<lparr>SubmitTransaction = (\<lambda>fn args (s, log).
        case SubmitTransaction c fn args s of (r, s') \<Rightarrow> (r, (s', log @ [(args, r)]))),
      EvaluateWithContext = (\<lambda>fn args (s, log).
        case EvaluateWithContext c fn args s of (r, s') \<Rightarrow> (r, (s', log)))\<rparr>"

lemma traced_evaluate:
  "EvaluateGetProfileSectionRecord (traced c) t e p (s, log) =
     (case EvaluateGetProfileSectionRecord c t e p s of (r, s') \<Rightarrow> (r, (s', log)))"
  by (simp add: EvaluateGetProfileSectionRecord_def evaluate_def mapErr_def traced_def
      split: prod.splits sum.splits)

definition retried :: "string list \<times> string res \<Rightarrow> bool" where
  "retried x \<longleftrightarrow> (case snd x of Inl e \<Rightarrow> isExpectedRetryableRejection e | Inr _ \<Rightarrow> False)"

text \<open>What the loop adds to the record of attempts.\<close>

definition attempts_ok :: "(string \<Rightarrow> string list) \<Rightarrow> nat \<Rightarrow> (string list \<times> string res) list \<Rightarrow> string res \<Rightarrow> bool" where
  "attempts_ok build n xs r \<longleftrightarrow>
     xs \<noteq> [] \<and> length xs \<le> Suc n \<and> list_all retried (butlast xs)
     \<and> (\<forall>x \<in> set xs. \<exists>p. fst x = build p)
     \<and> (\<forall>v. r = Inr v \<longleftrightarrow> snd (last xs) = Inr v)"

lemma attempts_ok_Cons:
  "retried x \<Longrightarrow> fst x = build p \<Longrightarrow> attempts_ok build n xs r \<Longrightarrow> attempts_ok build (Suc n) (x # xs) r"
  by (auto simp: attempts_ok_def)

lemma submit_loop_traced:
  "\<exists>xs s'. submit_loop (traced c) t e sec build n p (s, log) =
       (fst (submit_loop c t e sec build n p s), (s', log @ xs))
     \<and> s' = snd (submit_loop c t e sec build n p s)
     \<and> attempts_ok build n xs (fst (submit_loop c t e sec build n p s))"
proof (induction n arbitrary: p s log)
  case (0 p s log)
  obtain r s1 where sub: "SubmitTransaction c ''RecordProfileSection'' (build p) s = (r, s1)"
    by (rule prod.exhaust)
  obtain h s2 where ev: "EvaluateGetProfileSectionRecord c t e sec s1 = (h, s2)" by (rule prod.exhaust)
  from sub have tsub: "SubmitTransaction (traced c) ''RecordProfileSection'' (build p) (s, log)
      = (r, (s1, log @ [(build p, r)]))" by (simp add: traced_def)
  show ?case
    by (rule exI [of _ "[(build p, r)]"], cases r; cases h)
      (auto simp: submit_loop.simps [of _ _ _ _ _ 0] sub tsub ev traced_evaluate attempts_ok_def)
next
  case (Suc n p s log)
  obtain r s1 where sub: "SubmitTransaction c ''RecordProfileSection'' (build p) s = (r, s1)"
    by (rule prod.exhaust)
  obtain h s2 where ev: "EvaluateGetProfileSectionRecord c t e sec s1 = (h, s2)" by (rule prod.exhaust)
  from sub have tsub: "SubmitTransaction (traced c) ''RecordProfileSection'' (build p) (s, log)
      = (r, (s1, log @ [(build p, r)]))" by (simp add: traced_def)
  note eqs = submit_loop.simps [of _ _ _ _ _ "Suc n"] sub tsub ev traced_evaluate
  show ?case
  proof (cases "\<exists>er hd0. r = Inl er \<and> isExpectedRetryableRejection er \<and> h = Inr hd0")
    case True
    then obtain er hd0 where r: "r = Inl er" "isExpectedRetryableRejection er" "h = Inr hd0" by blast
    from Suc.IH [of "extractDataHash hd0" s2 "log @ [(build p, r)]"] obtain xs where
      xs: "submit_loop (traced c) t e sec build n (extractDataHash hd0) (s2, log @ [(build p, r)])
        = (fst (submit_loop c t e sec build n (extractDataHash hd0) s2),
           (snd (submit_loop c t e sec build n (extractDataHash hd0) s2), (log @ [(build p, r)]) @ xs))"
      "attempts_ok build n xs (fst (submit_loop c t e sec build n (extractDataHash hd0) s2))" by blast
    have "attempts_ok build (Suc n) ((build p, r) # xs)
        (fst (submit_loop c t e sec build n (extractDataHash hd0) s2))"
      by (rule attempts_ok_Cons [OF _ _ xs(2)]) (simp_all add: retried_def r)
    then show ?thesis
      using xs(1) r by (intro exI [of _ "(build p, r) # xs"]) (simp add: eqs)
  next
    case False
    then show ?thesis
      by (intro exI [of _ "[(build p, r)]"], cases r; cases h) (auto simp: eqs attempts_ok_def)
  qed
qed

lemma SubmitRecordProfileSection_traced:
  "\<exists>xs. SubmitRecordProfileSection (traced c) t e sec build (s, log)
       = (fst (SubmitRecordProfileSection c t e sec build s),
          (snd (SubmitRecordProfileSection c t e sec build s), log @ xs))
     \<and> attempts_ok build MaxSubmitRetries xs (fst (SubmitRecordProfileSection c t e sec build s))"
proof -
  obtain h s1 where ev: "EvaluateGetProfileSectionRecord c t e sec s = (h, s1)" by (rule prod.exhaust)
  define p where "p = (case h of Inl _ \<Rightarrow> [] | Inr x \<Rightarrow> extractDataHash x)"
  have eq: "SubmitRecordProfileSection c t e sec build s = submit_loop c t e sec build MaxSubmitRetries p s1"
    and eqt: "SubmitRecordProfileSection (traced c) t e sec build (s, log)
      = submit_loop (traced c) t e sec build MaxSubmitRetries p (s1, log)"
    by (cases h; simp add: SubmitRecordProfileSection_def ev traced_evaluate p_def)+
  from submit_loop_traced [of c t e sec build MaxSubmitRetries p s1 log] show ?thesis unfolding eq eqt by blast
qed

section \<open>Properties\<close>

text \<open>C23: The submit loop makes at least one and at most four attempts, builds the arguments
  of every attempt with the caller's function, retries only after one of the two expected
  rejections, and returns a result exactly when its last attempt succeeded. (The recording
  of attempts does not change what the loop does.)\<close>

theorem submit_attempts_bounded:
  assumes "SubmitRecordProfileSection (traced c) tenantID employeeID profileSection buildArgs (s, [])
    = (r, (s', log))"
  shows "SubmitRecordProfileSection c tenantID employeeID profileSection buildArgs s = (r, s')
    \<and> 1 \<le> length log \<and> length log \<le> 4 \<and> list_all retried (butlast log)
    \<and> (\<forall>x \<in> set log. \<exists>p. fst x = buildArgs p)
    \<and> (\<forall>v. r = Inr v \<longleftrightarrow> snd (last log) = Inr v)"
  using SubmitRecordProfileSection_traced [of c tenantID employeeID profileSection buildArgs s "[]"] assms
  by (auto simp: attempts_ok_def MaxSubmitRetries_def Suc_le_eq prod_eq_iff)

text \<open>A network that always answers with a read conflict.\<close>

definition busy_contract :: "unit contract" where
  "busy_contract =
     \<lparr>SubmitTransaction = (\<lambda>fn args. throwE (CommitError 11 ''MVCC'')),
      EvaluateWithContext = (\<lambda>fn args. returnE ''x'')\<rparr>"

theorem submit_attempts_bounded_witness:
  "\<exists>r s' log. SubmitRecordProfileSection (traced busy_contract) ''t'' ''e'' ''PAYROLL'' (\<lambda>p. [p]) ((), [])
     = (r, (s', log)) \<and> 1 \<le> length log \<and> length log \<le> 4"
proof -
  obtain r q where "SubmitRecordProfileSection (traced busy_contract) ''t'' ''e'' ''PAYROLL''
      (\<lambda>p. [p]) ((), []) = (r, q)" by (rule prod.exhaust)
  moreover obtain s' log where "q = (s', log)" by (rule prod.exhaust)
  ultimately have run: "SubmitRecordProfileSection (traced busy_contract) ''t'' ''e'' ''PAYROLL''
      (\<lambda>p. [p]) ((), []) = (r, (s', log))" by simp
  from submit_attempts_bounded [OF run] run show ?thesis by blast
qed

text \<open>The hash the submit loop reads from a head record is the head's \<open>dataHash\<close>, for every
  digest the digest builder makes: the text search agrees with decoding the JSON.\<close>

lemma extracted_hash_is_the_head_hash:
  assumes "ComputeDataHash Transform salt x = Inr h"
  shows "extractDataHash (json_print (JObj ((''dataHash'', JStr h) # kvs))) = h"
  by (rule extractDataHash_object [OF plain_digest [OF ComputeDataHash_digest [OF assms]]])

text \<open>The two calls between \<open>Verify\<close> and the ledger only wrap the error of the contract
  call, and the wrapping text cannot produce the not-found phrase.\<close>

lemma head_read_of_contract:
  "EvaluateWithContext c ''GetProfileSectionRecord'' [t, e, p] s = (ans, s1) \<Longrightarrow>
   EvaluateGetProfileSectionRecord c t e p s =
     (case ans of Inl err \<Rightarrow> Inl (LedgerError err) | Inr js \<Rightarrow> Inr js, s1)"
  by (simp add: EvaluateGetProfileSectionRecord_def evaluate_def mapErr_def split: sum.split)

lemma contains_skip_prefix: "c \<notin> set pre \<Longrightarrow> contains (pre @ s) (c # cs) \<longleftrightarrow> contains s (c # cs)"
  by (induction pre) (auto simp: contains_iff_sublist sublist_Cons_right)

lemma isNotFoundRejection_LedgerError:
  "isNotFoundRejection (LedgerError err) \<longleftrightarrow> contains (error_text err) ''profile section record not found''"
  unfolding isNotFoundRejection_def error_text.simps by (rule contains_skip_prefix) simp

text \<open>C9: Verification is sound and complete with respect to what the ledger answers to the
  one query it makes, \<open>GetProfileSectionRecord\<close> for the tenant, the employee and the section,
  once the digest of the given salt and value can be computed. It reports a record exactly when
  the ledger answers one, with that record's own digest and version, and marks it as matched
  exactly when that digest is the digest of the given salt and value; so whenever the ledger
  answers the digest of the given salt and value the result is found and matched. A matched
  digest that was computed for another salt of the same length and another value means that
  the canonical forms agree or exhibits a SHA-256 collision of the two salted forms. It reports
  that there is no record exactly when the ledger rejects the query with the text of the
  not-found error; every other rejection and every answer that is not a record is an error.\<close>

theorem verify_sound_and_complete:
  assumes digest: "ComputeDataHash Transform salt v = Inr d"
    and ask: "EvaluateWithContext c ''GetProfileSectionRecord'' [tenantID, employeeID, profileSection] s
      = (ans, s1)"
  shows "(\<forall>res s'. Verify Transform c tenantID employeeID profileSection salt v s = (Inr res, s') \<and> Found res
            \<longrightarrow> (\<exists>js. ans = Inr js \<and> unmarshal_onChainRecord js \<noteq> None))
    \<and> (\<forall>js rec. ans = Inr js \<and> unmarshal_onChainRecord js = Some rec \<longrightarrow>
         (\<exists>res. Verify Transform c tenantID employeeID profileSection salt v s = (Inr res, s1)
            \<and> Found res \<and> RecomputedHash res = d \<and> OnChainHash res = oc_DataHash rec
            \<and> OnChainVersion res = oc_Version rec \<and> (Matched res \<longleftrightarrow> d = oc_DataHash rec)
            \<and> (\<forall>salt0 x. Matched res \<and> length salt0 = length salt
                  \<and> ComputeDataHash Transform salt0 x = Inr (oc_DataHash rec) \<longrightarrow>
                 (salt0 = salt \<and> Transform x = Transform v)
                 \<or> (\<exists>cv cx. Transform v = Inr cv \<and> Transform x = Inr cx
                      \<and> sha_collision (salt @ cv) (salt0 @ cx)))))
    \<and> ((\<exists>res s'. Verify Transform c tenantID employeeID profileSection salt v s = (Inr res, s') \<and> \<not> Found res)
         \<longleftrightarrow> (\<exists>err. ans = Inl err \<and> contains (error_text err) ''profile section record not found''))"
    (is "?sound \<and> ?complete \<and> ?absent")
proof (intro conjI)
  note run = Verify_def digest head_read_of_contract [OF ask] isNotFoundRejection_LedgerError
  show ?sound by (auto simp: run not_found_result_def split: sum.splits option.splits if_splits)
  show ?absent by (auto simp: run not_found_result_def split: sum.splits option.splits if_splits)
  have "(salt0 = salt \<and> Transform x = Transform v)
      \<or> (\<exists>cv cx. Transform v = Inr cv \<and> Transform x = Inr cx \<and> sha_collision (salt @ cv) (salt0 @ cx))"
    if "ComputeDataHash Transform salt0 x = Inr d" "length salt0 = length salt" for salt0 x
    using ComputeDataHash_binding [OF digest that(1)] that(2) by metis
  then show ?complete by (simp add: run)
qed

lemma digest_ascii:
  assumes "ComputeDataHash T salt x = Inr hash"
  shows "is_ascii hash" "hash \<noteq> []"
proof -
  note d = ComputeDataHash_digest [OF assms]
  show "is_ascii hash"
    using plain_digest [OF d] unfolding is_ascii_def by (rule list.pred_mono_strong) (simp add: plain_char_def)
  show "hash \<noteq> []" using assms by (auto simp: ComputeDataHash_Inr)
qed

definition one_head :: "string \<Rightarrow> unit contract" where
  "one_head js =
     \<lparr>SubmitTransaction = (\<lambda>fn args. throwE (Plain ''read only'')),
      EvaluateWithContext = (\<lambda>fn args. returnE js)\<rparr>"

lemma unmarshal_head:
  "valid_utf8 h \<Longrightarrow> unmarshal_onChainRecord (json_print (JObj [(''dataHash'', JStr h)])) =
     Some \<lparr>oc_DataHash = h, oc_Version = 0, oc_UpdatedBy = [], oc_Timestamp = []\<rparr>"
  by (simp add: unmarshal_onChainRecord_def parse_print onChainRecord_fields_def del: json_print.simps)

lemma one_head_answers: "EvaluateWithContext (one_head js) fn args () = (Inr js, ())"
  by (simp add: one_head_def)

theorem verify_sound_and_complete_witness:
  "\<exists>h res res'. ComputeDataHash Inr (replicate 16 (CHR ''s'')) ''x'' = Inr h
     \<and> Verify Inr (one_head (json_print (JObj [(''dataHash'', JStr h)]))) ''t'' ''e'' ''PAYROLL''
         (replicate 16 (CHR ''s'')) ''x'' () = (Inr res, ()) \<and> Found res \<and> Matched res
     \<and> Verify Inr (one_head (json_print (JObj [(''dataHash'', JStr ''other'')]))) ''t'' ''e'' ''PAYROLL''
         (replicate 16 (CHR ''s'')) ''x'' () = (Inr res', ()) \<and> Found res' \<and> OnChainHash res' = ''other''"
proof -
  obtain h where h: "ComputeDataHash Inr (replicate 16 (CHR ''s'')) ''x'' = Inr h"
    by (metis ComputeDataHash_Inr MinSaltBytes_def length_replicate order_refl)
  have utf: "valid_utf8 h" "valid_utf8 ''other''"
    using digest_ascii(1) [OF h] by (simp_all add: valid_utf8_ascii)
  let ?run = "\<lambda>js. Verify Inr (one_head js) ''t'' ''e'' ''PAYROLL'' (replicate 16 (CHR ''s'')) ''x'' ()"
  have found: "\<exists>res. ?run (json_print (JObj [(''dataHash'', JStr d)])) = (Inr res, ())
      \<and> Found res \<and> OnChainHash res = d \<and> (Matched res \<longleftrightarrow> h = d)" if "valid_utf8 d" for d
  proof -
    from verify_sound_and_complete [where tenantID = "''t''" and employeeID = "''e''"
          and profileSection = "''PAYROLL''", OF h one_head_answers,
        THEN conjunct2, THEN conjunct1, rule_format, OF conjI, OF refl unmarshal_head [OF that]]
    obtain res where "?run (json_print (JObj [(''dataHash'', JStr d)])) = (Inr res, ())"
      "Found res" "OnChainHash res = d" "Matched res \<longleftrightarrow> h = d"
      by (simp only: onChainRecord.simps) blast
    then show ?thesis by blast
  qed
  from found [OF utf(1)] found [OF utf(2)] h show ?thesis by (simp del: json_print.simps) blast
qed

text \<open>Connecting leaks no connection: when it fails, the connections that are open are
  those that were open before; when it succeeds exactly one more is open, and \<open>Close\<close> takes
  the list back to what it was.\<close>

lemma connect_leaks_no_connection:
  assumes "NewGatewayClient d ep sn ca cc ck msp cert key chan name opened = (r, opened')"
  shows "case r of
           Inl e \<Rightarrow> opened' = opened
         | Inr g \<Rightarrow> opened' = fst g # opened \<and> snd (Close d g opened') = opened"
  using assms
  by (auto simp: NewGatewayClient_def Close_def split: sum.splits prod.splits)

end
