(* ===== verification/Writepaths.thy ===== *)
theory Writepaths
  imports Ipfs Gateway
begin

text \<open>
  The write path (writepaths/writepaths.go, erasure.go, ports.go): the operational store, the
  resolution of an employee's pseudonym, the six hooks that save a section and anchor it on
  the ledger, the partial-failure contract, and the crypto-shred erasure. The ports of the
  hooks are Go interfaces, so \<open>Hooks\<close> is a record of actions over a state \<open>'s\<close>; an interface
  that may be nil is an option, and calling through nil is the error \<open>NilPointer\<close>, which no
  caller turns into an ordinary error. The locale \<open>hooks_env\<close> states what the hooks rely on:
  each port changes its own part of the view and no other. Its laws for salts hold for the
  identifiers that satisfy \<open>okid\<close>, which the pseudonyms and the section names do. It is
  interpreted here on the in-memory stores and in theory Bridge on the wiring of the bridge.
\<close>

definition NilPointer :: goerr where
  "NilPointer = Sentinel ''runtime error: invalid memory address or nil pointer dereference''"

definition AllProfileSections :: "string list" where
  "AllProfileSections = [''PERSONAL'', ''EMPLOYMENT'', ''EDUCATION'', ''ADDITIONAL'', ''PAYROLL'']"

section \<open>Pseudonyms\<close>

definition key_lookup_id :: "string \<Rightarrow> string \<Rightarrow> string" where
  "key_lookup_id employeeInternalID recordIdentity =
     (if recordIdentity \<noteq> [] then employeeInternalID @ [CHR 0x00] @ recordIdentity
      else employeeInternalID)"

definition ResolveEmployeeKey ::
  "(string \<Rightarrow> ('s, goerr, string) act) \<Rightarrow> string \<Rightarrow> string \<Rightarrow> ('s, goerr, string) act" where
  "ResolveEmployeeKey GetOrCreate employeeInternalID recordIdentity =
     mapErr (wrap ''writepaths: fetching employeeKey_i'')
       (GetOrCreate (key_lookup_id employeeInternalID recordIdentity))"

definition ResolveEmployeeID ::
  "(string \<Rightarrow> ('s, goerr, string) act) \<Rightarrow> string \<Rightarrow> string \<Rightarrow> ('s, goerr, string) act" where
  "ResolveEmployeeID GetOrCreate employeeInternalID recordIdentity =
     bindE (ResolveEmployeeKey GetOrCreate employeeInternalID recordIdentity) (\<lambda>employeeKey.
       mapErr (wrap ''writepaths: computing EmployeeID'') (liftE (ComputeEmployeeID employeeKey)))"

section \<open>The operational store\<close>

record 's OperationalStore =
  SaveSection :: "string \<Rightarrow> string \<Rightarrow> string \<Rightarrow> ('s, goerr, int) act"
  DeleteSection :: "string \<Rightarrow> string \<Rightarrow> ('s, goerr, unit) act"

record op_state =
  versions :: "string \<rightharpoonup> int"
  vals :: "string \<rightharpoonup> string"

definition NewInMemoryOperationalStore :: op_state where
  "NewInMemoryOperationalStore = \<lparr>versions = Map.empty, vals = Map.empty\<rparr>"

definition op_key :: "string \<Rightarrow> string \<Rightarrow> string" where
  "op_key employeeInternalID profileSection = employeeInternalID @ ''/'' @ profileSection"

text \<open>\<open>s.versions[key]++\<close>: an absent entry counts as 0.\<close>

definition next_op_version :: "op_state \<Rightarrow> string \<Rightarrow> int" where
  "next_op_version s k = wrap64 ((case versions s k of None \<Rightarrow> 0 | Some v \<Rightarrow> v) + 1)"

definition InMemoryOperationalStore_SaveSection ::
  "string \<Rightarrow> string \<Rightarrow> string \<Rightarrow> (op_state, goerr, int) act" where
  "InMemoryOperationalStore_SaveSection employeeInternalID profileSection valueJSON s =
     (let key = op_key employeeInternalID profileSection; v = next_op_version s key
      in (Inr v, s\<lparr>versions := (versions s)(key \<mapsto> v), vals := (vals s)(key \<mapsto> valueJSON)\<rparr>))"

definition InMemoryOperationalStore_DeleteSection :: "string \<Rightarrow> string \<Rightarrow> (op_state, goerr, unit) act" where
  "InMemoryOperationalStore_DeleteSection employeeInternalID profileSection s =
     (Inr (), s\<lparr>vals := (vals s)(op_key employeeInternalID profileSection := None)\<rparr>)"

definition HasValue :: "op_state \<Rightarrow> string \<Rightarrow> string \<Rightarrow> bool" where
  "HasValue s employeeInternalID profileSection =
     (vals s (op_key employeeInternalID profileSection) \<noteq> None)"

section \<open>Hooks\<close>

record 's Hooks =
  Store :: "'s OperationalStore"
  Keys :: "'s EmployeeKeyStore"
  Salts :: "'s SaltStore"
  DocumentKeys :: "'s DocumentKeyStore option"
  IPFS :: "(string \<Rightarrow> string \<Rightarrow> ('s, goerr, string) act) option"
  LedgerAnchorer :: "string \<Rightarrow> string \<Rightarrow> string \<Rightarrow> (string \<Rightarrow> string list) \<Rightarrow> ('s, goerr, string) act"
  Hooks_TenantID :: string
  OnPartialFailure :: "(string \<Rightarrow> string \<Rightarrow> int \<Rightarrow> goerr \<Rightarrow> 's \<Rightarrow> 's) option"

definition anchor_document :: "'s Hooks \<Rightarrow> string \<Rightarrow> string \<Rightarrow> ('s, goerr, string) act" where
  "anchor_document h employeeInternalID document =
     (if length document = 0 then returnE ''[]''
      else case DocumentKeys h of
             None \<Rightarrow> throwE NilPointer
           | Some dk \<Rightarrow>
               bindE (mapErr (wrap ''writepaths: fetching KEY_EMPLOYEE'')
                        (GetOrCreateDocumentKey dk employeeInternalID)) (\<lambda>documentKey.
               case IPFS h of
                 None \<Rightarrow> throwE NilPointer
               | Some encrypt_and_add \<Rightarrow>
                   bindE (mapErr (wrap ''writepaths: encrypting+pinning supporting document'')
                            (encrypt_and_add documentKey document)) (\<lambda>cid.
                   returnE (json_print (JArr [JStr cid])))))"

definition build_args :: "string \<Rightarrow> string \<Rightarrow> string \<Rightarrow> string \<Rightarrow> string \<Rightarrow> string \<Rightarrow> string \<Rightarrow> string list" where
  "build_args tenantID employeeID profileSection dataHash updatedBy ipfsCIDsJSON prevHash =
     [tenantID, employeeID, profileSection, dataHash, prevHash, updatedBy, ipfsCIDsJSON,
      CanonicalizationVersion_const, HashAlgo_const, []]"

definition doAnchor ::
  "(string \<Rightarrow> string res) \<Rightarrow> 's Hooks \<Rightarrow> string \<Rightarrow> string \<Rightarrow> string \<Rightarrow> string \<Rightarrow> string \<Rightarrow> int \<Rightarrow> string
   \<Rightarrow> ('s, goerr, string) act" where
  "doAnchor Transform h employeeInternalID userID profileSection recordIdentity sectionValueJSON version
     document =
     bindE (ResolveEmployeeKey (GetOrCreateEmployeeKey (Keys h)) employeeInternalID recordIdentity)
       (\<lambda>employeeKey.
     bindE (mapErr (wrap ''writepaths: computing EmployeeID'') (liftE (ComputeEmployeeID employeeKey)))
       (\<lambda>employeeID.
     bindE (mapErr (wrap ''writepaths: generating salt'')
              (PutSalt (Salts h) employeeID profileSection version)) (\<lambda>salt.
     bindE (mapErr (wrap ''writepaths: computing DataHash'')
              (liftE (ComputeDataHash Transform salt sectionValueJSON))) (\<lambda>dataHash.
     bindE (mapErr (wrap ''writepaths: computing UpdatedBy'')
              (liftE (ComputeUpdatedBy employeeKey userID))) (\<lambda>updatedBy.
     bindE (anchor_document h employeeInternalID document) (\<lambda>ipfsCIDsJSON.
     LedgerAnchorer h (Hooks_TenantID h) employeeID profileSection
       (build_args (Hooks_TenantID h) employeeID profileSection dataHash updatedBy ipfsCIDsJSON)))))))"

definition anchor ::
  "(string \<Rightarrow> string res) \<Rightarrow> 's Hooks \<Rightarrow> string \<Rightarrow> string \<Rightarrow> string \<Rightarrow> string \<Rightarrow> string \<Rightarrow> int \<Rightarrow> string
   \<Rightarrow> ('s, goerr, string) act" where
  "anchor Transform h employeeInternalID userID profileSection recordIdentity sectionValueJSON version
     document s =
     (case doAnchor Transform h employeeInternalID userID profileSection recordIdentity sectionValueJSON
             version document s of
        (Inr result, s') \<Rightarrow> (Inr result, s')
      | (Inl err, s') \<Rightarrow>
          if err = NilPointer then (Inl err, s')
          else
            (let pfErr = PartialFailureError employeeInternalID profileSection version err
             in case OnPartialFailure h of
                  None \<Rightarrow> (Inl pfErr, s')
                | Some f \<Rightarrow> (Inl pfErr, f employeeInternalID profileSection version pfErr s')))"

definition save_and_anchor ::
  "string \<Rightarrow> (string \<Rightarrow> string res) \<Rightarrow> 's Hooks \<Rightarrow> string \<Rightarrow> string \<Rightarrow> string \<Rightarrow> string \<Rightarrow> string
   \<Rightarrow> ('s, goerr, string) act" where
  "save_and_anchor profileSection Transform h employeeInternalID userID recordIdentity newValue document =
     bindE (mapErr (wrap (''writepaths: saving '' @ profileSection @ '' to operational store''))
              (SaveSection (Store h) employeeInternalID profileSection newValue)) (\<lambda>version.
     anchor Transform h employeeInternalID userID profileSection recordIdentity newValue version document)"

definition UpdatePersonalData :: "(string \<Rightarrow> string res) \<Rightarrow> 's Hooks \<Rightarrow> string \<Rightarrow> string \<Rightarrow> string \<Rightarrow> string \<Rightarrow> string \<Rightarrow> ('s, goerr, string) act" where
  "UpdatePersonalData = save_and_anchor ''PERSONAL''"

definition ApproveEmploymentTransfer :: "(string \<Rightarrow> string res) \<Rightarrow> 's Hooks \<Rightarrow> string \<Rightarrow> string \<Rightarrow> string \<Rightarrow> string \<Rightarrow> string \<Rightarrow> ('s, goerr, string) act" where
  "ApproveEmploymentTransfer = save_and_anchor ''EMPLOYMENT''"

definition RecordEducationHistory :: "(string \<Rightarrow> string res) \<Rightarrow> 's Hooks \<Rightarrow> string \<Rightarrow> string \<Rightarrow> string \<Rightarrow> string \<Rightarrow> string \<Rightarrow> ('s, goerr, string) act" where
  "RecordEducationHistory = save_and_anchor ''EDUCATION''"

definition ApproveFamilyDataChange :: "(string \<Rightarrow> string res) \<Rightarrow> 's Hooks \<Rightarrow> string \<Rightarrow> string \<Rightarrow> string \<Rightarrow> string \<Rightarrow> string \<Rightarrow> ('s, goerr, string) act" where
  "ApproveFamilyDataChange = save_and_anchor ''ADDITIONAL''"

definition UpdateAdditionalInfo :: "(string \<Rightarrow> string res) \<Rightarrow> 's Hooks \<Rightarrow> string \<Rightarrow> string \<Rightarrow> string \<Rightarrow> string \<Rightarrow> string \<Rightarrow> ('s, goerr, string) act" where
  "UpdateAdditionalInfo = save_and_anchor ''ADDITIONAL''"

definition UpdatePayrollBankAccount :: "(string \<Rightarrow> string res) \<Rightarrow> 's Hooks \<Rightarrow> string \<Rightarrow> string \<Rightarrow> string \<Rightarrow> string \<Rightarrow> string \<Rightarrow> ('s, goerr, string) act" where
  "UpdatePayrollBankAccount = save_and_anchor ''PAYROLL''"

section \<open>Erasure\<close>

fun erase_sections :: "'s Hooks \<Rightarrow> string \<Rightarrow> string list \<Rightarrow> ('s, goerr, unit) act" where
  "erase_sections h employeeInternalID [] = returnE ()"
| "erase_sections h employeeInternalID (section # ss) =
     bindE (mapErr (wrap (''writepaths: erasure step 1 (operational-DB field, '' @ section @ '')''))
              (DeleteSection (Store h) employeeInternalID section))
       (\<lambda>_. erase_sections h employeeInternalID ss)"

definition Erase :: "'s Hooks \<Rightarrow> string \<Rightarrow> ('s, goerr, unit) act" where
  "Erase h employeeInternalID =
     bindE (erase_sections h employeeInternalID AllProfileSections) (\<lambda>_.
     bindE (case DocumentKeys h of
              None \<Rightarrow> returnE ()
            | Some dk \<Rightarrow> mapErr (wrap ''writepaths: erasure step 2 (KEY_EMPLOYEE)'')
                           (DeleteDocumentKey dk employeeInternalID)) (\<lambda>_.
     bindE (mapErr (wrap (''writepaths: erasure '' @ map char_of [0xE2, 0x80, 0x94 :: nat]
                          @ '' fetching employeeKey_i to derive EmployeeID before destroying it''))
              (GetOrCreateEmployeeKey (Keys h) employeeInternalID)) (\<lambda>employeeKey.
     bindE (mapErr (wrap (''writepaths: erasure '' @ map char_of [0xE2, 0x80, 0x94 :: nat]
                          @ '' deriving EmployeeID'')) (liftE (ComputeEmployeeID employeeKey))) (\<lambda>employeeID.
     bindE (mapErr (wrap ''writepaths: erasure step 3 (DataHash salts)'')
              (DeleteAllSaltsForEmployee (Salts h) employeeID)) (\<lambda>_.
     mapErr (wrap ''writepaths: erasure step 4 (employeeKey_i)'')
       (DeleteEmployeeKey (Keys h) employeeInternalID))))))"

section \<open>What the hooks rely on\<close>

record hook_view =
  v_keys :: "string \<rightharpoonup> string"
  v_docs :: "string \<rightharpoonup> string"
  v_salts :: "recordKey \<rightharpoonup> string"
  v_vals :: "string \<times> string \<rightharpoonup> string"

locale hooks_env =
  fixes h :: "'s Hooks" and view :: "'s \<Rightarrow> hook_view" and inv :: "'s \<Rightarrow> bool" and okid :: "string \<Rightarrow> bool"
  assumes save_law:
      "inv s \<Longrightarrow> sec \<in> set AllProfileSections \<Longrightarrow> SaveSection (Store h) i sec x s = (rv, s') \<Longrightarrow>
       inv s' \<and> (case rv of Inl e \<Rightarrow> view s' = view s
         | Inr v \<Rightarrow> view s' = (view s)\<lparr>v_vals := (v_vals (view s))((i, sec) \<mapsto> x)\<rparr>)"
    and unsave_law:
      "inv s \<Longrightarrow> sec \<in> set AllProfileSections \<Longrightarrow> DeleteSection (Store h) i sec s = (ru, s') \<Longrightarrow>
       inv s' \<and> (case ru of Inl e \<Rightarrow> view s' = view s
         | Inr u \<Rightarrow> view s' = (view s)\<lparr>v_vals := (v_vals (view s))((i, sec) := None)\<rparr>)"
    and key_law:
      "inv s \<Longrightarrow> GetOrCreateEmployeeKey (Keys h) k s = (r, s') \<Longrightarrow>
       inv s' \<and> (case r of Inl e \<Rightarrow> view s' = view s
         | Inr v \<Rightarrow> view s' = (view s)\<lparr>v_keys := (v_keys (view s))(k \<mapsto> v)\<rparr>
             \<and> (v_keys (view s) k = None \<or> v_keys (view s) k = Some v))"
    and unkey_law:
      "inv s \<Longrightarrow> DeleteEmployeeKey (Keys h) k s = (ru, s') \<Longrightarrow>
       inv s' \<and> (case ru of Inl e \<Rightarrow> view s' = view s
         | Inr u \<Rightarrow> view s' = (view s)\<lparr>v_keys := (v_keys (view s))(k := None)\<rparr>)"
    and salt_law:
      "inv s \<Longrightarrow> okid e \<Longrightarrow> okid p \<Longrightarrow> PutSalt (Salts h) e p v s = (r, s') \<Longrightarrow>
       inv s' \<and> (case r of Inl err \<Rightarrow> view s' = view s
         | Inr x \<Rightarrow> view s' = (view s)\<lparr>v_salts := (v_salts (view s))((e, p, v) \<mapsto> x)\<rparr>
             \<and> v_salts (view s) (e, p, v) = None)"
    and unsalt_law:
      "inv s \<Longrightarrow> okid e \<Longrightarrow> DeleteAllSaltsForEmployee (Salts h) e s = (ru, s') \<Longrightarrow>
       inv s' \<and> (case ru of Inl err \<Rightarrow> view s' = view s
         | Inr u \<Rightarrow> view s' = (view s)\<lparr>v_salts := (\<lambda>k. if fst k = e then None else v_salts (view s) k)\<rparr>)"
    and doc_law:
      "inv s \<Longrightarrow> DocumentKeys h = Some dk \<Longrightarrow> GetOrCreateDocumentKey dk k s = (r, s') \<Longrightarrow>
       inv s' \<and> (case r of Inl e \<Rightarrow> view s' = view s
         | Inr v \<Rightarrow> view s' = (view s)\<lparr>v_docs := (v_docs (view s))(k \<mapsto> v)\<rparr>)"
    and undoc_law:
      "inv s \<Longrightarrow> DocumentKeys h = Some dk \<Longrightarrow> DeleteDocumentKey dk k s = (ru, s') \<Longrightarrow>
       inv s' \<and> (case ru of Inl e \<Rightarrow> view s' = view s
         | Inr u \<Rightarrow> view s' = (view s)\<lparr>v_docs := (v_docs (view s))(k := None)\<rparr>)"
    and ipfs_law:
      "inv s \<Longrightarrow> IPFS h = Some add \<Longrightarrow> add k d s = (r, s') \<Longrightarrow> inv s' \<and> view s' = view s"
    and ledger_law:
      "inv s \<Longrightarrow> LedgerAnchorer h t e p b s = (r, s') \<Longrightarrow> inv s' \<and> view s' = view s"
    and notify_law:
      "inv s \<Longrightarrow> OnPartialFailure h = Some f \<Longrightarrow> inv (f i p v err s) \<and> view (f i p v err s) = view s"
    and okid_employee: "ComputeEmployeeID key = Inr e \<Longrightarrow> okid e"
    and okid_section: "p \<in> set AllProfileSections \<Longrightarrow> okid p"
begin

lemma anchor_document_view:
  assumes "inv s" and "anchor_document h i d s = (r, s')"
  shows "inv s' \<and> (\<exists>m. view s' = (view s)\<lparr>v_docs := m\<rparr>)"
proof -
  have self: "\<exists>m. view s = (view s)\<lparr>v_docs := m\<rparr>" for s by (rule exI [of _ "v_docs (view s)"]) simp
  show ?thesis
  proof (cases "length d = 0 \<or> DocumentKeys h = None")
    case True
    then have "s' = s" using assms(2) by (cases "length d = 0") (auto simp: anchor_document_def)
    with assms(1) self show ?thesis by blast
  next
    case False
    then obtain dk where dk: "DocumentKeys h = Some dk" and d: "length d \<noteq> 0" by auto
    obtain q s1 where g: "GetOrCreateDocumentKey dk i s = (q, s1)" by (rule prod.exhaust)
    from doc_law [OF assms(1) dk g] have s1: "inv s1" "\<exists>m. view s1 = (view s)\<lparr>v_docs := m\<rparr>"
      using self [of s] by (cases q; auto)+
    show ?thesis
    proof (cases "\<exists>key add. q = Inr key \<and> IPFS h = Some add")
      case True
      then obtain key add where k: "q = Inr key" "IPFS h = Some add" by blast
      obtain u s2 where a: "add key d s1 = (u, s2)" by (rule prod.exhaust)
      from ipfs_law [OF s1(1) k(2) a] s1 assms(2) d dk g k a show ?thesis
        by (cases u) (auto simp: anchor_document_def bindE_def mapErr_def)
    next
      case False
      with s1 assms(2) d dk g show ?thesis
        by (cases q) (auto simp: anchor_document_def bindE_def mapErr_def split: option.splits)
    qed
  qed
qed

text \<open>A successful anchoring: the salt is on record under the version of the operational
  store, and what went to the ledger is the digest of the value under that salt.\<close>

lemma doAnchor_success:
  assumes "inv s" and "doAnchor T h i user sec recid x v doc s = (Inr res, s')" and "sec \<in> set AllProfileSections"
  shows "inv s' \<and> (\<exists>key e salt hash upd cids s1.
    v_keys (view s') (key_lookup_id i recid) = Some key
    \<and> (v_keys (view s) (key_lookup_id i recid) \<in> {None, Some key})
    \<and> ComputeEmployeeID key = Inr e \<and> ComputeUpdatedBy key user = Inr upd
    \<and> v_salts (view s) (e, sec, v) = None \<and> v_salts (view s') (e, sec, v) = Some salt
    \<and> ComputeDataHash T salt x = Inr hash \<and> v_vals (view s') = v_vals (view s)
    \<and> v_salts (view s') = (v_salts (view s))((e, sec, v) \<mapsto> salt)
    \<and> LedgerAnchorer h (Hooks_TenantID h) e sec (build_args (Hooks_TenantID h) e sec hash upd cids) s1 = (Inr res, s'))"
proof -
  from assms(2) obtain key s1 e salt s2 hash upd cids s3 where
    k: "GetOrCreateEmployeeKey (Keys h) (key_lookup_id i recid) s = (Inr key, s1)"
    and e: "ComputeEmployeeID key = Inr e" and p: "PutSalt (Salts h) e sec v s1 = (Inr salt, s2)"
    and hh: "ComputeDataHash T salt x = Inr hash" and u: "ComputeUpdatedBy key user = Inr upd"
    and d: "anchor_document h i doc s2 = (Inr cids, s3)"
    and l: "LedgerAnchorer h (Hooks_TenantID h) e sec (build_args (Hooks_TenantID h) e sec hash upd cids) s3 = (Inr res, s')"
    unfolding doAnchor_def ResolveEmployeeKey_def by (auto elim!: bindE_InrE dest!: mapErr_InrD)
  from key_law [OF assms(1) k] have v1: "inv s1" "view s1 = (view s)\<lparr>v_keys := (v_keys (view s))(key_lookup_id i recid \<mapsto> key)\<rparr>"
    "v_keys (view s) (key_lookup_id i recid) \<in> {None, Some key}" by auto
  from salt_law [OF v1(1) okid_employee [OF e] okid_section [OF assms(3)] p] have v2: "inv s2" "view s2 = (view s1)\<lparr>v_salts := (v_salts (view s1))((e, sec, v) \<mapsto> salt)\<rparr>"
    "v_salts (view s1) (e, sec, v) = None" by auto
  from anchor_document_view [OF v2(1) d] obtain m where v3: "inv s3" "view s3 = (view s2)\<lparr>v_docs := m\<rparr>" by blast
  from ledger_law [OF v3(1) l] have v4: "inv s'" "view s' = view s3" by auto
  have "v_keys (view s') (key_lookup_id i recid) = Some key \<and> v_salts (view s) (e, sec, v) = None
      \<and> v_salts (view s') (e, sec, v) = Some salt \<and> v_vals (view s') = v_vals (view s)
      \<and> v_salts (view s') = (v_salts (view s))((e, sec, v) \<mapsto> salt)"
    using v1(2) v2(2,3) v3(2) v4(2) by simp
  with v1(3) v4(1) e u hh l show ?thesis by blast
qed

lemma erase_sections_ok:
  "inv s \<Longrightarrow> set ss \<subseteq> set AllProfileSections \<Longrightarrow> erase_sections h i ss s = (Inr u, s') \<Longrightarrow>
   inv s' \<and> view s' = (view s)\<lparr>v_vals := (\<lambda>k. if fst k = i \<and> snd k \<in> set ss then None else v_vals (view s) k)\<rparr>"
proof (induction ss arbitrary: s)
  case (Cons sec ss)
  from Cons.prems(3) obtain s1 where d: "DeleteSection (Store h) i sec s = (Inr (), s1)"
    and r: "erase_sections h i ss s1 = (Inr u, s')"
    by (auto elim!: bindE_InrE dest!: mapErr_InrD)
  from unsave_law [OF Cons.prems(1) _ d] Cons.prems(2) have s1: "inv s1"
    "view s1 = (view s)\<lparr>v_vals := (v_vals (view s))((i, sec) := None)\<rparr>" by auto
  from Cons.IH [OF s1(1) _ r] Cons.prems(2) s1(2) show ?case
    by (auto simp: fun_eq_iff)
qed simp

lemma Erase_success:
  assumes "inv s" and "Erase h i s = (Inr u, s')"
  shows "inv s' \<and> (\<exists>key e. v_keys (view s) i \<in> {None, Some key} \<and> ComputeEmployeeID key = Inr e
    \<and> view s' = (view s)
        \<lparr>v_keys := (v_keys (view s))(i := None),
         v_docs := (if DocumentKeys h = None then v_docs (view s) else (v_docs (view s))(i := None)),
         v_salts := (\<lambda>k. if fst k = e then None else v_salts (view s) k),
         v_vals := (\<lambda>k. if fst k = i \<and> snd k \<in> set AllProfileSections then None else v_vals (view s) k)\<rparr>)"
proof -
  from assms(2) obtain s1 s2 key s3 e s4 where
    a: "erase_sections h i AllProfileSections s = (Inr (), s1)"
    and b: "(case DocumentKeys h of None \<Rightarrow> returnE ()
            | Some dk \<Rightarrow> mapErr (wrap ''writepaths: erasure step 2 (KEY_EMPLOYEE)'') (DeleteDocumentKey dk i)) s1 = (Inr (), s2)"
    and c: "GetOrCreateEmployeeKey (Keys h) i s2 = (Inr key, s3)" and e: "ComputeEmployeeID key = Inr e"
    and d: "DeleteAllSaltsForEmployee (Salts h) e s3 = (Inr (), s4)"
    and f: "DeleteEmployeeKey (Keys h) i s4 = (Inr u, s')"
    unfolding Erase_def by (auto elim!: bindE_InrE dest!: mapErr_InrD)
  from erase_sections_ok [OF assms(1) _ a] have v1: "inv s1"
    "view s1 = (view s)\<lparr>v_vals := (\<lambda>k. if fst k = i \<and> snd k \<in> set AllProfileSections then None else v_vals (view s) k)\<rparr>"
    by auto
  have v2: "inv s2 \<and> view s2 = (view s1)\<lparr>v_docs := (if DocumentKeys h = None then v_docs (view s1)
      else (v_docs (view s1))(i := None))\<rparr>"
  proof (cases "DocumentKeys h")
    case None
    with b v1(1) show ?thesis by simp
  next
    case (Some dk)
    with b have "DeleteDocumentKey dk i s1 = (Inr (), s2)" by (auto dest!: mapErr_InrD)
    from undoc_law [OF v1(1) Some this] Some show ?thesis by simp
  qed
  then have i2: "inv s2" by simp
  from key_law [OF i2 c] have v3: "inv s3" "view s3 = (view s2)\<lparr>v_keys := (v_keys (view s2))(i \<mapsto> key)\<rparr>"
    "v_keys (view s2) i = None \<or> v_keys (view s2) i = Some key" by auto
  from unsalt_law [OF v3(1) okid_employee [OF e] d] have v4: "inv s4"
    "view s4 = (view s3)\<lparr>v_salts := (\<lambda>k. if fst k = e then None else v_salts (view s3) k)\<rparr>" by auto
  from unkey_law [OF v4(1) f] have v5: "inv s'" "view s' = (view s4)\<lparr>v_keys := (v_keys (view s4))(i := None)\<rparr>"
    by auto
  have "view s' = (view s)
        \<lparr>v_keys := (v_keys (view s))(i := None),
         v_docs := (if DocumentKeys h = None then v_docs (view s) else (v_docs (view s))(i := None)),
         v_salts := (\<lambda>k. if fst k = e then None else v_salts (view s) k),
         v_vals := (\<lambda>k. if fst k = i \<and> snd k \<in> set AllProfileSections then None else v_vals (view s) k)\<rparr>"
    unfolding v5(2) v4(2) v3(2) conjunct2 [OF v2] v1(2)
    by (rule hook_view.equality) (auto simp: fun_eq_iff)
  moreover have "v_keys (view s) i \<in> {None, Some key}" using v3(3) v2 v1(2) by auto
  ultimately show ?thesis using e v5(1) by blast
qed

end

section \<open>The hooks over the in-memory stores\<close>

record 'w env =
  e_op :: op_state
  e_keys :: mem_keys
  e_docs :: mem_keys
  e_salts :: mem_salts
  e_net :: 'w
  e_alerts :: "(string \<times> string \<times> int \<times> goerr) list"

text \<open>Run an action of one part inside the whole state.\<close>

definition on_part :: "('s \<Rightarrow> 'p) \<Rightarrow> (('p \<Rightarrow> 'p) \<Rightarrow> 's \<Rightarrow> 's) \<Rightarrow> ('p, goerr, 'a) act \<Rightarrow> ('s, goerr, 'a) act" where
  "on_part get upd m s = (case m (get s) of (r, p) \<Rightarrow> (r, upd (\<lambda>_. p) s))"

text \<open>The hooks over the in-memory stores of the packages, which cannot fail, with a partial-failure
  callback that records. The bridge wires the encrypted files and no callback (\<open>wire_hooks\<close> of theory
  Bridge); what holds of every wiring is stated over any \<open>Hooks\<close>.\<close>

definition mem_hooks ::
  "'w contract \<Rightarrow> (string \<Rightarrow> string \<Rightarrow> ('w, goerr, string) act) \<Rightarrow> string \<Rightarrow> 'w env Hooks" where
  "mem_hooks c add tenantID =
     \<lparr>Store = \<lparr>SaveSection = (\<lambda>i p x. on_part e_op e_op_update (InMemoryOperationalStore_SaveSection i p x)),
                DeleteSection = (\<lambda>i p. on_part e_op e_op_update (InMemoryOperationalStore_DeleteSection i p))\<rparr>,
      Keys = \<lparr>GetOrCreateEmployeeKey =
                 (\<lambda>k. on_part e_keys e_keys_update (InMemoryEmployeeKeyStore_GetOrCreateEmployeeKey k)),
               DeleteEmployeeKey =
                 (\<lambda>k. on_part e_keys e_keys_update (InMemoryEmployeeKeyStore_DeleteEmployeeKey k))\<rparr>,
      Salts = \<lparr>PutSalt = (\<lambda>e p v. on_part e_salts e_salts_update (InMemorySaltStore_PutSalt e p v)),
                GetSalt = (\<lambda>e p v. on_part e_salts e_salts_update (InMemorySaltStore_GetSalt e p v)),
                DeleteAllSaltsForEmployee =
                  (\<lambda>e. on_part e_salts e_salts_update (InMemorySaltStore_DeleteAllSaltsForEmployee e))\<rparr>,
      DocumentKeys = Some
        \<lparr>GetOrCreateDocumentKey =
            (\<lambda>k. on_part e_docs e_docs_update (InMemoryDocumentKeyStore_GetOrCreateDocumentKey k)),
          DeleteDocumentKey =
            (\<lambda>k. on_part e_docs e_docs_update (InMemoryDocumentKeyStore_DeleteDocumentKey k))\<rparr>,
      IPFS = Some (\<lambda>k d. on_part e_net e_net_update (add k d)),
      LedgerAnchorer = (\<lambda>t e p b. on_part e_net e_net_update (SubmitRecordProfileSection c t e p b)),
      Hooks_TenantID = tenantID,
      OnPartialFailure = Some (\<lambda>i p v e s. s\<lparr>e_alerts := e_alerts s @ [(i, p, v, e)]\<rparr>)\<rparr>"

definition op_view :: "op_state \<Rightarrow> string \<times> string \<rightharpoonup> string" where
  "op_view s = (\<lambda>(i, sec). if sec \<in> set AllProfileSections then vals s (op_key i sec) else None)"

definition mem_view :: "'w env \<Rightarrow> hook_view" where
  "mem_view s =
     \<lparr>v_keys = fst (e_keys s), v_docs = fst (e_docs s), v_salts = fst (e_salts s),
      v_vals = op_view (e_op s)\<rparr>"

definition mem_inv :: "'w env \<Rightarrow> bool" where
  "mem_inv s \<longleftrightarrow> wf_entropy (snd (e_keys s)) \<and> wf_entropy (snd (e_docs s)) \<and> wf_entropy (snd (e_salts s))"

lemma section_no_slash: "sec \<in> set AllProfileSections \<Longrightarrow> CHR ''/'' \<notin> set sec"
  by (auto simp: AllProfileSections_def)

lemma op_key_inject:
  assumes "sec \<in> set AllProfileSections" "sec' \<in> set AllProfileSections"
  shows "op_key i sec = op_key i' sec' \<longleftrightarrow> i = i' \<and> sec = sec'"
proof
  assume "op_key i sec = op_key i' sec'"
  then have "rev (op_key i sec) = rev (op_key i' sec')" by simp
  then have "rev sec @ CHR ''/'' # rev i = rev sec' @ CHR ''/'' # rev i'" by (simp add: op_key_def)
  moreover have "CHR ''/'' \<notin> set (rev sec)" "CHR ''/'' \<notin> set (rev sec')"
    using section_no_slash assms by auto
  ultimately show "i = i' \<and> sec = sec'" by (simp add: append_sep_inject)
qed simp

lemma op_view_upd:
  "sec \<in> set AllProfileSections \<Longrightarrow> vals o' = (vals o1)(op_key i sec := x) \<Longrightarrow>
   op_view o' = (op_view o1)((i, sec) := x)"
  by (auto simp: fun_eq_iff op_view_def op_key_inject)

interpretation mem: hooks_env "mem_hooks c add tenantID" mem_view mem_inv "\<lambda>_. True"
  for c add tenantID
proof
  fix s i sec x rv s'
  assume "mem_inv s" "sec \<in> set AllProfileSections"
    "SaveSection (Store (mem_hooks c add tenantID)) i sec x s = (rv, s')"
  then show "mem_inv s' \<and> (case rv of Inl e \<Rightarrow> mem_view s' = mem_view s
      | Inr v \<Rightarrow> mem_view s' = (mem_view s)\<lparr>v_vals := (v_vals (mem_view s))((i, sec) \<mapsto> x)\<rparr>)"
    by (auto simp: mem_hooks_def on_part_def InMemoryOperationalStore_SaveSection_def Let_def mem_inv_def
        mem_view_def intro!: op_view_upd)
next
  fix s i sec ru s'
  assume "mem_inv s" "sec \<in> set AllProfileSections"
    "DeleteSection (Store (mem_hooks c add tenantID)) i sec s = (ru, s')"
  then show "mem_inv s' \<and> (case ru of Inl e \<Rightarrow> mem_view s' = mem_view s
      | Inr u \<Rightarrow> mem_view s' = (mem_view s)\<lparr>v_vals := (v_vals (mem_view s))((i, sec) := None)\<rparr>)"
    by (auto simp: mem_hooks_def on_part_def InMemoryOperationalStore_DeleteSection_def mem_inv_def
        mem_view_def intro!: op_view_upd)
next
  fix s dk k r s'
  assume inv: "mem_inv s" and dk: "DocumentKeys (mem_hooks c add tenantID) = Some dk"
    and run: "GetOrCreateDocumentKey dk k s = (r, s')"
  from dk run obtain m where m: "InMemoryDocumentKeyStore_GetOrCreateDocumentKey k (e_docs s) = (r, m)"
    and s': "s' = s\<lparr>e_docs := m\<rparr>"
    by (auto simp: mem_hooks_def on_part_def split: prod.splits)
  have "wf_entropy (snd (e_docs s))" using inv by (simp add: mem_inv_def)
  from mem_doc.get_ok [OF this, of k _ m] mem_doc.get_err [OF this, of k _ m] m s' inv
  show "mem_inv s' \<and> (case r of Inl e \<Rightarrow> mem_view s' = mem_view s
      | Inr v \<Rightarrow> mem_view s' = (mem_view s)\<lparr>v_docs := (v_docs (mem_view s))(k \<mapsto> v)\<rparr>)"
    by (cases r) (auto simp: mem_inv_def mem_view_def)
qed (auto simp: mem_hooks_def on_part_def mem_inv_def mem_view_def mem_defs
      split: prod.splits sum.splits option.splits if_splits dest: rand_read_wf')

section \<open>Properties\<close>

text \<open>What a successful hook leaves behind. The new value is in the operational store; the
  salt of the record is on file under the employee's pseudonym and the version the
  operational store assigned, where none was before; and the ledger was given the digest of
  exactly this value under exactly this salt, with the pseudonym and the actor's digest.\<close>

lemma anchored_hash_matches_stored_value:
  assumes "mem_inv s" and "sec \<in> set AllProfileSections"
    and "save_and_anchor sec Transform (mem_hooks c add tenantID) i user recid x doc s = (Inr res, s')"
  shows "\<exists>key e salt hash upd cids v n n'.
      fst (e_keys s') (key_lookup_id i recid) = Some key \<and> ComputeEmployeeID key = Inr e
      \<and> v = next_op_version (e_op s) (op_key i sec)
      \<and> fst (e_salts s) (e, sec, v) = None \<and> fst (e_salts s') (e, sec, v) = Some salt
      \<and> ComputeDataHash Transform salt x = Inr hash
      \<and> vals (e_op s') (op_key i sec) = Some x
      \<and> SubmitRecordProfileSection c tenantID e sec (build_args tenantID e sec hash upd cids) n = (Inr res, n')"
proof -
  let ?h = "mem_hooks c add tenantID"
  let ?v = "next_op_version (e_op s) (op_key i sec)"
  from assms(3) obtain v s1 where sv: "SaveSection (Store ?h) i sec x s = (Inr v, s1)"
    and an: "anchor Transform ?h i user sec recid x v doc s1 = (Inr res, s')"
    unfolding save_and_anchor_def by (auto elim!: bindE_InrE dest!: mapErr_InrD)
  have v: "v = ?v" and salts1: "e_salts s1 = e_salts s"
    using sv by (auto simp: mem_hooks_def on_part_def InMemoryOperationalStore_SaveSection_def Let_def)
  from mem.save_law [OF assms(1,2) sv] have s1: "mem_inv s1"
    "v_vals (mem_view s1) (i, sec) = Some x" by simp_all
  from an have "doAnchor Transform ?h i user sec recid x v doc s1 = (Inr res, s')"
    by (auto simp: anchor_def Let_def split: prod.splits sum.splits if_splits option.splits)
  from mem.doAnchor_success [OF s1(1) this assms(2)] obtain key e salt hash upd cids s2 where
    k: "v_keys (mem_view s') (key_lookup_id i recid) = Some key" "ComputeEmployeeID key = Inr e"
    "v_salts (mem_view s1) (e, sec, v) = None" "v_salts (mem_view s') (e, sec, v) = Some salt"
    "ComputeDataHash Transform salt x = Inr hash" "v_vals (mem_view s') = v_vals (mem_view s1)"
    and l: "LedgerAnchorer ?h (Hooks_TenantID ?h) e sec (build_args (Hooks_TenantID ?h) e sec hash upd cids) s2
      = (Inr res, s')" by blast
  from l obtain n n' where "SubmitRecordProfileSection c tenantID e sec
      (build_args tenantID e sec hash upd cids) n = (Inr res, n')"
    by (auto simp: mem_hooks_def on_part_def split: prod.splits)
  moreover have "vals (e_op s') (op_key i sec) = Some x"
    using fun_cong [OF k(6), of "(i, sec)"] s1(2) assms(2) by (simp add: mem_view_def op_view_def)
  ultimately show ?thesis using k v salts1 by (auto simp: mem_view_def)
qed

text \<open>A network that accepts everything, and an environment with nothing in it.\<close>

definition ok_contract :: "unit contract" where
  "ok_contract =
     \<lparr>SubmitTransaction = (\<lambda>fn args. returnE ''ok''), EvaluateWithContext = (\<lambda>fn args. returnE [])\<rparr>"

definition demo_random :: entropy where
  "demo_random = \<lparr>source = (\<lambda>i n. Inr (replicate n (CHR ''r''))), draws = 0\<rparr>"

definition demo_env :: "unit env" where
  "demo_env = \<lparr>e_op = NewInMemoryOperationalStore, e_keys = (Map.empty, demo_random),
     e_docs = (Map.empty, demo_random), e_salts = (Map.empty, demo_random), e_net = (), e_alerts = []\<rparr>"

abbreviation demo_hooks :: "unit env Hooks" where
  "demo_hooks \<equiv> mem_hooks ok_contract (\<lambda>k d. returnE ''cid'') ''t''"

lemma demo_env_inv: "mem_inv demo_env"
  by (simp add: mem_inv_def demo_env_def wf_entropy_def demo_random_def)

lemma demo_payroll_section: "''PAYROLL'' \<in> set AllProfileSections"
  by (simp add: AllProfileSections_def)

lemma submit_loop_error: "submit_loop c t e p b n q s = (Inl err, s') \<Longrightarrow> \<exists>x. err = LedgerError x"
proof (induction n arbitrary: q s)
  case 0
  then show ?case by (subst (asm) submit_loop.simps) (auto split: prod.splits sum.splits if_splits)
next
  case (Suc n)
  from Suc.prems show ?case
    by (subst (asm) submit_loop.simps) (auto split: prod.splits sum.splits if_splits dest: Suc.IH)
qed

lemma SubmitRecordProfileSection_error:
  "SubmitRecordProfileSection c t e p b s = (Inl err, s') \<Longrightarrow> \<exists>x. err = LedgerError x"
  by (auto simp: SubmitRecordProfileSection_def dest: submit_loop_error split: prod.splits sum.splits)

text \<open>An action that keeps a component \<open>f\<close> of the state.\<close>

definition keeps :: "('s \<Rightarrow> 'p) \<Rightarrow> ('s, 'e, 'a) act \<Rightarrow> bool" where
  "keeps f m \<longleftrightarrow> (\<forall>s. f (snd (m s)) = f s)"

lemma keepsD: "keeps f m \<Longrightarrow> m s = (r, s') \<Longrightarrow> f s' = f s"
  unfolding keeps_def by (metis snd_conv)

lemma keeps_basic [intro!, simp]: "keeps f (returnE x)" "keeps f (throwE e)" "keeps f (liftE r)" "keeps f (Pair r)"
  by (simp_all add: keeps_def returnE_def throwE_def liftE_def)

lemma keeps_mapErr [intro!]: "keeps f m \<Longrightarrow> keeps f (mapErr g m)"
  by (auto simp: keeps_def mapErr_def split: prod.splits sum.splits) (metis snd_conv)+

lemma keeps_bindE [intro!]: "keeps f m \<Longrightarrow> (\<And>x. keeps f (k x)) \<Longrightarrow> keeps f (bindE m k)"
  by (auto simp: keeps_def bindE_def split: prod.splits sum.splits) (metis snd_conv)+

lemma keeps_on_part: "(\<And>p s. f (upd (\<lambda>_. p) s) = f s) \<Longrightarrow> keeps f (on_part get upd m)"
  by (auto simp: keeps_def on_part_def split: prod.splits)

text \<open>The operational store is apart from the rest: no call of the hooks but its own, and not
  the alert function, changes the part \<open>op\<close> of the state.\<close>

definition store_apart :: "'s Hooks \<Rightarrow> ('s \<Rightarrow> 'p) \<Rightarrow> bool" where
  "store_apart h op \<longleftrightarrow>
     (\<forall>k. keeps op (GetOrCreateEmployeeKey (Keys h) k)) \<and> (\<forall>e p v. keeps op (PutSalt (Salts h) e p v))
     \<and> (\<forall>dk k. DocumentKeys h = Some dk \<longrightarrow> keeps op (GetOrCreateDocumentKey dk k))
     \<and> (\<forall>add k d. IPFS h = Some add \<longrightarrow> keeps op (add k d))
     \<and> (\<forall>t e p b. keeps op (LedgerAnchorer h t e p b))
     \<and> (\<forall>f i p v e s. OnPartialFailure h = Some f \<longrightarrow> op (f i p v e s) = op s)"

lemma doAnchor_keeps: "store_apart h op \<Longrightarrow> keeps op (doAnchor T h i u p r x v d)"
  unfolding doAnchor_def ResolveEmployeeKey_def anchor_document_def
  by (auto simp: store_apart_def split: option.split intro!: keeps_mapErr keeps_bindE)

section \<open>Observing the hooks\<close>

text \<open>The hooks with a log beside their state: every store works as before and leaves the log
  alone, the call to the ledger and the alert function are given.\<close>

definition quiet :: "('s, 'e, 'a) act \<Rightarrow> ('s \<times> 'l, 'e, 'a) act" where
  "quiet m = (\<lambda>(s, l). case m s of (r, s') \<Rightarrow> (r, (s', l)))"

definition with_log ::
  "'s Hooks \<Rightarrow> (string \<Rightarrow> string \<Rightarrow> string \<Rightarrow> (string \<Rightarrow> string list) \<Rightarrow> ('s \<times> 'l, goerr, string) act)
   \<Rightarrow> (string \<Rightarrow> string \<Rightarrow> int \<Rightarrow> goerr \<Rightarrow> 's \<times> 'l \<Rightarrow> 's \<times> 'l) option \<Rightarrow> ('s \<times> 'l) Hooks" where
  "with_log h anchorer notify =
     \<lparr>Store = \<lparr>SaveSection = (\<lambda>i p x. quiet (SaveSection (Store h) i p x)),
                DeleteSection = (\<lambda>i p. quiet (DeleteSection (Store h) i p))\<rparr>,
      Keys = \<lparr>GetOrCreateEmployeeKey = (\<lambda>k. quiet (GetOrCreateEmployeeKey (Keys h) k)),
               DeleteEmployeeKey = (\<lambda>k. quiet (DeleteEmployeeKey (Keys h) k))\<rparr>,
      Salts = \<lparr>PutSalt = (\<lambda>e p v. quiet (PutSalt (Salts h) e p v)),
                GetSalt = (\<lambda>e p v. quiet (GetSalt (Salts h) e p v)),
                DeleteAllSaltsForEmployee = (\<lambda>e. quiet (DeleteAllSaltsForEmployee (Salts h) e))\<rparr>,
      DocumentKeys = map_option (\<lambda>dk. \<lparr>GetOrCreateDocumentKey = (\<lambda>k. quiet (GetOrCreateDocumentKey dk k)),
                                       DeleteDocumentKey = (\<lambda>k. quiet (DeleteDocumentKey dk k))\<rparr>) (DocumentKeys h),
      IPFS = map_option (\<lambda>add k d. quiet (add k d)) (IPFS h),
      LedgerAnchorer = anchorer, Hooks_TenantID = Hooks_TenantID h, OnPartialFailure = notify\<rparr>"

lemma quiet_simps [simp]:
  "quiet m (s, l) = (fst (m s), (snd (m s), l))"
  "mapErr w (quiet m) = quiet (mapErr w m)" "bindE (quiet m) (\<lambda>x. quiet (f x)) = quiet (bindE m f)"
  by (auto simp: quiet_def mapErr_def bindE_def fun_eq_iff split: prod.splits sum.splits)

lemma anchor_document_with_log:
  "anchor_document (with_log h an nt) i d = quiet (anchor_document h i d)"
proof (rule ext)
  fix q
  show "anchor_document (with_log h an nt) i d q = quiet (anchor_document h i d) q"
    by (cases q; cases "DocumentKeys h"; cases "IPFS h")
      (auto simp: anchor_document_def with_log_def bindE_def mapErr_def quiet_def split: prod.splits sum.splits)
qed

text \<open>Anchoring either fails before the ledger is called, with the log as it was, or ends in one
  call to the ledger, with the arguments that were computed.\<close>

lemma doAnchor_with_log:
  obtains (before) err s2 where "doAnchor T h i user sec recid x v doc s = (Inl err, s2)"
      "\<And>l. doAnchor T (with_log h an nt) i user sec recid x v doc (s, l) = (Inl err, (s2, l))"
  | (call) key e upd salt hash cids s3 where "ComputeEmployeeID key = Inr e" "ComputeUpdatedBy key user = Inr upd"
      "ComputeDataHash T salt x = Inr hash"
      "doAnchor T h i user sec recid x v doc s = LedgerAnchorer h (Hooks_TenantID h) e sec
         (build_args (Hooks_TenantID h) e sec hash upd cids) s3"
      "\<And>l. doAnchor T (with_log h an nt) i user sec recid x v doc (s, l) = an (Hooks_TenantID h) e sec
         (build_args (Hooks_TenantID h) e sec hash upd cids) (s3, l)"
proof -
  let ?H = "with_log h an nt"
  note run = doAnchor_def ResolveEmployeeKey_def
  obtain k s1 where k: "GetOrCreateEmployeeKey (Keys h) (key_lookup_id i recid) s = (k, s1)" by (rule prod.exhaust)
  show ?thesis
  proof (cases "\<exists>key e. k = Inr key \<and> ComputeEmployeeID key = Inr e")
    case False
    with k before show ?thesis
      by (cases k; cases "ComputeEmployeeID (projr k)") (auto simp: run with_log_def bindE_def mapErr_def)
  next
    case True
    then obtain key e where e: "k = Inr key" "ComputeEmployeeID key = Inr e" by blast
    obtain q s2 where q: "PutSalt (Salts h) e sec v s1 = (q, s2)" by (rule prod.exhaust)
    obtain d s3 where d: "anchor_document h i doc s2 = (d, s3)" by (rule prod.exhaust)
    have tail: "anchor_document ?H i doc (s2, l) = (d, (s3, l))" for l
      by (simp add: anchor_document_with_log d)
    show ?thesis
    proof (cases "\<exists>salt hash upd cids. q = Inr salt \<and> ComputeDataHash T salt x = Inr hash
        \<and> ComputeUpdatedBy key user = Inr upd \<and> d = Inr cids")
      case True
      then obtain salt hash upd cids where "q = Inr salt" "ComputeDataHash T salt x = Inr hash"
        "ComputeUpdatedBy key user = Inr upd" "d = Inr cids" by blast
      with k e q d tail call [of key e upd salt hash cids s3] show ?thesis
        by (simp add: run bindE_def mapErr_def) (simp add: with_log_def)
    next
      case False
      with k e q d tail before show ?thesis
        by (cases q; cases "ComputeDataHash T (projr q) x"; cases "ComputeUpdatedBy key user"; cases d)
          (auto simp: run bindE_def mapErr_def, auto simp: with_log_def)
    qed
  qed
qed

text \<open>What the observer of a hook writes down: the anchoring attempts and the alerts, in their order.\<close>

datatype hook_call =
    is_Anchoring: Anchoring string string string
  | Alerting string string int goerr

definition log_anchor ::
  "'s Hooks \<Rightarrow> string \<Rightarrow> string \<Rightarrow> string \<Rightarrow> (string \<Rightarrow> string list) \<Rightarrow> ('s \<times> hook_call list, goerr, string) act" where
  "log_anchor h t e p b =
     (\<lambda>(s, l). case LedgerAnchorer h t e p b s of (r, s') \<Rightarrow> (r, (s', l @ [Anchoring t e p])))"

definition observed :: "'s Hooks \<Rightarrow> ('s \<times> hook_call list) Hooks" where
  "observed h = with_log h (log_anchor h)
     (map_option (\<lambda>f i p v e (s, l). (f i p v e s, l @ [Alerting i p v e])) (OnPartialFailure h))"

lemma doAnchor_observed:
  assumes "doAnchor T h i user sec recid x v doc s = (q, s2)"
  shows "\<exists>tries. doAnchor T (observed h) i user sec recid x v doc (s, l) = (q, (s2, l @ tries))
    \<and> list_all is_Anchoring tries \<and> length tries \<le> 1 \<and> (\<forall>out. q = Inr out \<longrightarrow> tries \<noteq> [])"
proof (cases rule: doAnchor_with_log [where T = T and h = h and i = i and user = user and sec = sec
      and recid = recid and x = x and v = v and doc = doc and s = s and an = "log_anchor h"
      and nt = "map_option (\<lambda>f i p v e (s, l). (f i p v e s, l @ [Alerting i p v e])) (OnPartialFailure h)"])
  case (before err s3)
  with assms show ?thesis unfolding observed_def by (intro exI [of _ "[]"]) auto
next
  case (call key e upd salt hash cids s3)
  with assms show ?thesis unfolding observed_def
    by (intro exI [of _ "[Anchoring (Hooks_TenantID h) e sec]"]) (simp add: log_anchor_def)
qed

text \<open>C10: The partial-failure contract, for any stores, any ledger and any alert function or none.
  When the operational write fails, its error is returned, nothing is anchored and nobody is
  alerted. When it succeeds, one anchoring at most is attempted, and the operational part of the
  state stays as the write left it, whatever happens afterwards. If the anchoring succeeds, its
  result is returned, with no alert. If it fails, the caller gets a partial-failure error that
  names the employee, the section and the version that was saved and carries exactly the error of
  the anchoring; the alert function, where one is configured, is called exactly once, after the
  attempt, with that error (the bridge configures none). Only a nil document store or IPFS
  client reaches the caller as it is: the run panics.\<close>

theorem partial_failure_is_reported_once:
  assumes "save_and_anchor sec Transform (observed h) i user recid x doc (s, []) = (r, (s', calls))"
  shows "(\<exists>e. SaveSection (Store h) i sec x s = (Inl e, s') \<and> calls = []
            \<and> r = Inl (wrap (''writepaths: saving '' @ sec @ '' to operational store'') e))
    \<or> (\<exists>v s1 q s2 tries. SaveSection (Store h) i sec x s = (Inr v, s1)
         \<and> doAnchor Transform h i user sec recid x v doc s1 = (q, s2)
         \<and> list_all is_Anchoring tries \<and> length tries \<le> 1 \<and> (store_apart h op \<longrightarrow> op s' = op s1)
         \<and> (case q of
              Inr out \<Rightarrow> r = Inr out \<and> s' = s2 \<and> calls = tries \<and> tries \<noteq> []
            | Inl cause \<Rightarrow>
                if cause = NilPointer then r = Inl NilPointer \<and> s' = s2 \<and> calls = tries
                else r = Inl (PartialFailureError i sec v cause)
                  \<and> (case OnPartialFailure h of
                       None \<Rightarrow> s' = s2 \<and> calls = tries
                     | Some f \<Rightarrow> s' = f i sec v (PartialFailureError i sec v cause) s2
                         \<and> calls = tries @ [Alerting i sec v (PartialFailureError i sec v cause)])))"
proof -
  obtain u s1 where sv: "SaveSection (Store h) i sec x s = (u, s1)" by (rule prod.exhaust)
  have svo: "SaveSection (Store (observed h)) i sec x (s, []) = (u, (s1, []))"
    by (simp add: observed_def with_log_def sv)
  show ?thesis
  proof (cases u)
    case (Inl e)
    with assms sv svo show ?thesis by (simp add: save_and_anchor_def bindE_def mapErr_def)
  next
    case (Inr v)
    obtain q s2 where d: "doAnchor Transform h i user sec recid x v doc s1 = (q, s2)" by (rule prod.exhaust)
    from doAnchor_observed [OF d, of "[]"] obtain tries where
      t: "doAnchor Transform (observed h) i user sec recid x v doc (s1, []) = (q, (s2, tries))"
        "list_all is_Anchoring tries" "length tries \<le> 1" "\<forall>out. q = Inr out \<longrightarrow> tries \<noteq> []" by auto
    from assms svo Inr have an: "anchor Transform (observed h) i user sec recid x v doc (s1, []) = (r, (s', calls))"
      by (simp add: save_and_anchor_def bindE_def mapErr_def)
    have note_: "OnPartialFailure (observed h)
        = map_option (\<lambda>f i p v e (s, l). (f i p v e s, l @ [Alerting i p v e])) (OnPartialFailure h)"
      by (simp add: observed_def with_log_def)
    have "op s' = op s1" if apart: "store_apart h op"
      using keepsD [OF doAnchor_keeps [OF apart] d] an t(1) apart
      by (auto simp: anchor_def note_ Let_def store_apart_def split: sum.splits if_splits option.splits)
    moreover have "case q of
              Inr out \<Rightarrow> r = Inr out \<and> s' = s2 \<and> calls = tries \<and> tries \<noteq> []
            | Inl cause \<Rightarrow>
                if cause = NilPointer then r = Inl NilPointer \<and> s' = s2 \<and> calls = tries
                else r = Inl (PartialFailureError i sec v cause)
                  \<and> (case OnPartialFailure h of
                       None \<Rightarrow> s' = s2 \<and> calls = tries
                     | Some f \<Rightarrow> s' = f i sec v (PartialFailureError i sec v cause) s2
                         \<and> calls = tries @ [Alerting i sec v (PartialFailureError i sec v cause)])"
      using an t(1,4)
      by (auto simp: anchor_def note_ Let_def split: sum.splits if_splits option.splits)
    ultimately show ?thesis using sv Inr d t(2,3) by blast
  qed
qed

text \<open>A network whose peers cannot be reached.\<close>

definition down_contract :: "unit contract" where
  "down_contract =
     \<lparr>SubmitTransaction = (\<lambda>fn args. throwE (Plain ''unreachable'')),
      EvaluateWithContext = (\<lambda>fn args. throwE (Plain ''unreachable''))\<rparr>"

abbreviation down_hooks :: "unit env Hooks" where
  "down_hooks \<equiv> mem_hooks down_contract (\<lambda>k d. returnE ''cid'') ''t''"

lemma demo_submit_fails: "\<exists>err. SubmitRecordProfileSection down_contract t e p b () = (Inl err, ())"
  by (cases "SubmitRecordProfileSection down_contract t e p b ()")
    (auto simp: SubmitRecordProfileSection_def EvaluateGetProfileSectionRecord_def evaluate_def mapErr_def
      down_contract_def submit_loop.simps isExpectedRetryableRejection_def)

lemma demo_doAnchor_fails:
  "\<exists>err s'. doAnchor Inr down_hooks ''i'' ''u'' p r x v [] s = (Inl err, s')"
proof (cases "doAnchor Inr down_hooks ''i'' ''u'' p r x v [] s")
  case (Pair res s')
  have "False" if ok: "res = Inr y" for y
  proof -
    from Pair ok obtain e b s1 where "LedgerAnchorer down_hooks ''t'' e p b s1 = (Inr y, s')"
      unfolding doAnchor_def by (auto simp: mem_hooks_def elim!: bindE_InrE)
    then show False using demo_submit_fails [of "''t''" e p b]
      by (auto simp: mem_hooks_def on_part_def split: prod.splits)
  qed
  then show ?thesis using Pair by (cases res) auto
qed

lemma mem_hooks_apart: "store_apart (mem_hooks c add t) e_op"
  by (auto simp: store_apart_def mem_hooks_def intro!: keeps_on_part)

lemma doAnchor_not_nil:
  "doAnchor T (mem_hooks c add t) i u p r x v d s = (Inl err, s') \<Longrightarrow> err \<noteq> NilPointer"
  unfolding doAnchor_def ResolveEmployeeKey_def
  by (auto simp: anchor_document_def mem_hooks_def on_part_def wrap_def NilPointer_def
      elim!: bindE_InlE mapErr_InlE dest!: SubmitRecordProfileSection_error split: if_splits prod.splits)

theorem partial_failure_is_reported_once_witness:
  "\<exists>s' cause tries. save_and_anchor ''PAYROLL'' Inr (observed down_hooks) ''i'' ''u'' [] ''x'' [] (demo_env, [])
       = (Inl (PartialFailureError ''i'' ''PAYROLL'' 1 cause),
          (s', tries @ [Alerting ''i'' ''PAYROLL'' 1 (PartialFailureError ''i'' ''PAYROLL'' 1 cause)]))
     \<and> HasValue (e_op s') ''i'' ''PAYROLL''"
proof -
  obtain r s' calls where run: "save_and_anchor ''PAYROLL'' Inr (observed down_hooks) ''i'' ''u'' [] ''x'' []
      (demo_env, []) = (r, (s', calls))" by (metis prod.exhaust)
  let ?s1 = "demo_env\<lparr>e_op := \<lparr>versions = [''i/PAYROLL'' \<mapsto> 1], vals = [''i/PAYROLL'' \<mapsto> ''x'']\<rparr>\<rparr>"
  have sv: "SaveSection (Store down_hooks) ''i'' ''PAYROLL'' ''x'' demo_env = (Inr 1, ?s1)"
    by (simp add: mem_hooks_def on_part_def InMemoryOperationalStore_SaveSection_def Let_def demo_env_def
        NewInMemoryOperationalStore_def next_op_version_def is_int64_def op_key_def)
  obtain cause s2 where d: "doAnchor Inr down_hooks ''i'' ''u'' ''PAYROLL'' [] ''x'' 1 [] ?s1 = (Inl cause, s2)"
    using demo_doAnchor_fails by blast
  obtain f where f: "OnPartialFailure down_hooks = Some f" by (simp add: mem_hooks_def)
  from partial_failure_is_reported_once [OF run, where op = e_op]
  obtain tries where "r = Inl (PartialFailureError ''i'' ''PAYROLL'' 1 cause)" "e_op s' = e_op ?s1"
    "calls = tries @ [Alerting ''i'' ''PAYROLL'' 1 (PartialFailureError ''i'' ''PAYROLL'' 1 cause)]"
    unfolding sv using d doAnchor_not_nil [OF d] mem_hooks_apart f by auto
  with run show ?thesis by (auto simp: HasValue_def op_key_def)
qed

lemma Erase_keeps_net: "keeps e_net (Erase (mem_hooks c add t) i)"
proof -
  have "keeps e_net (erase_sections (mem_hooks c add t) i ss)" for ss
    by (induction ss) (auto simp: mem_hooks_def intro!: keeps_on_part)
  then show ?thesis unfolding Erase_def by (auto simp: mem_hooks_def intro!: keeps_on_part)
qed

text \<open>An employee with a plain key and a key for the record identity \<open>r\<close>.\<close>

definition demo_two_keys :: "unit env" where
  "demo_two_keys = demo_env\<lparr>e_keys :=
     ([''i'' \<mapsto> replicate 16 (CHR ''k''), key_lookup_id ''i'' ''r'' \<mapsto> replicate 16 (CHR ''l'')], demo_random),
     e_op := \<lparr>versions = [''i/PAYROLL'' \<mapsto> 1], vals = [''i/PAYROLL'' \<mapsto> ''x'']\<rparr>\<rparr>"

lemma demo_two_keys_inv: "mem_inv demo_two_keys"
  using demo_env_inv by (simp add: mem_inv_def demo_two_keys_def demo_env_def)

lemma demo_erase_run: "\<exists>s'. Erase demo_hooks ''i'' demo_two_keys = (Inr (), s')"
proof -
  have id: "ComputeEmployeeID (replicate 16 (CHR ''k'')) = Inr (hex_encode (hmac_sha256 (replicate 16 (CHR ''k'')) ''id''))"
    by (simp add: ComputeEmployeeID_def)
  show ?thesis
    by (simp add: Erase_def AllProfileSections_def bindE_def mapErr_def mem_hooks_def on_part_def
        InMemoryOperationalStore_DeleteSection_def mem_defs demo_two_keys_def demo_env_def id key_lookup_id_def)
qed

text \<open>Erasure is a complete crypto-shred for the plain identity. When \<open>Erase\<close> succeeds, the
  employee key, the document key, the values of all five sections and every salt under the
  employee's pseudonym are gone; the keys, values and salts of everybody else are as before,
  and the network, so the ledger, was not touched.\<close>

lemma erase_shreds:
  assumes "mem_inv s" and "Erase (mem_hooks c add tenantID) i s = (Inr u, s')"
  shows "\<exists>key e. fst (e_keys s) i \<in> {None, Some key} \<and> ComputeEmployeeID key = Inr e
    \<and> fst (e_keys s') = (fst (e_keys s))(i := None) \<and> fst (e_docs s') = (fst (e_docs s))(i := None)
    \<and> (\<forall>p v. fst (e_salts s') (e, p, v) = None)
    \<and> (\<forall>e' p v. e' \<noteq> e \<longrightarrow> fst (e_salts s') (e', p, v) = fst (e_salts s) (e', p, v))
    \<and> (\<forall>p\<in>set AllProfileSections. \<not> HasValue (e_op s') i p
         \<and> (\<forall>j. j \<noteq> i \<longrightarrow> vals (e_op s') (op_key j p) = vals (e_op s) (op_key j p)))
    \<and> e_net s' = e_net s"
proof -
  let ?h = "mem_hooks c add tenantID"
  have dk: "DocumentKeys ?h \<noteq> None" by (simp add: mem_hooks_def)
  from mem.Erase_success [OF assms] dk obtain key e where
    k: "v_keys (mem_view s) i \<in> {None, Some key}" "ComputeEmployeeID key = Inr e"
    and v: "mem_view s' = (mem_view s)
        \<lparr>v_keys := (v_keys (mem_view s))(i := None), v_docs := (v_docs (mem_view s))(i := None),
         v_salts := (\<lambda>k. if fst k = e then None else v_salts (mem_view s) k),
         v_vals := (\<lambda>k. if fst k = i \<and> snd k \<in> set AllProfileSections then None else v_vals (mem_view s) k)\<rparr>"
    by auto
  have w: "op_view (e_op s') (j, p) = (if j = i then None else op_view (e_op s) (j, p))"
    if "p \<in> set AllProfileSections" for j p
    using arg_cong [OF v, of v_vals] that by (simp add: mem_view_def fun_eq_iff)
  have vals: "vals (e_op s') (op_key j p) = (if j = i then None else vals (e_op s) (op_key j p))"
    if "p \<in> set AllProfileSections" for j p
    using w [OF that, of j] that by (simp add: op_view_def)
  have "fst (e_keys s') = (fst (e_keys s))(i := None)" "fst (e_docs s') = (fst (e_docs s))(i := None)"
    "fst (e_salts s') = (\<lambda>k. if fst k = e then None else fst (e_salts s) k)"
    using v by (simp_all add: mem_view_def cong: if_cong)
  moreover from keepsD [OF Erase_keeps_net assms(2)] have "e_net s' = e_net s" .
  ultimately show ?thesis using k vals by (auto simp: mem_view_def HasValue_def)
qed

text \<open>C22: The limit of erasure. \<open>Erase\<close> knows only the plain identity of an employee. A record
  written under a record identity has its own key, found under the compound identity; after
  a successful erasure that key is still there, so the pseudonym of the record is still
  resolved from it, and its salts are still there whenever the two pseudonyms differ.\<close>

theorem erase_keeps_record_identities:
  assumes "mem_inv s" and "recid \<noteq> []" and "fst (e_keys s) (key_lookup_id i recid) = Some key"
    and "ComputeEmployeeID key = Inr e" and "fst (e_keys s) i = Some plain"
    and "Erase (mem_hooks c add tenantID) i s = (Inr u, s')"
  shows "ResolveEmployeeID (GetOrCreateEmployeeKey (Keys (mem_hooks c add tenantID))) i recid s' = (Inr e, s')
    \<and> (ComputeEmployeeID plain \<noteq> Inr e \<longrightarrow> fst (e_salts s') (e, p, v) = fst (e_salts s) (e, p, v))"
proof -
  from mem.Erase_success [OF assms(1,6)] assms(5) obtain e0 where
    e0: "ComputeEmployeeID plain = Inr e0"
    and k: "fst (e_keys s') = (fst (e_keys s))(i := None)"
    and sl: "fst (e_salts s') = (\<lambda>k. if fst k = e0 then None else fst (e_salts s) k)"
    by (auto simp: mem_view_def cong: if_cong)
  have ne: "key_lookup_id i recid \<noteq> i" using assms(2) by (simp add: key_lookup_id_def)
  have same: "e_keys_update (\<lambda>_. e_keys s') s' = s'" by simp
  show ?thesis using e0 k sl ne assms(3,4)
    by (cases "e_keys s'") (auto simp: ResolveEmployeeID_def ResolveEmployeeKey_def mem_hooks_def on_part_def
        mem_defs bindE_def mapErr_def)
qed

theorem erase_keeps_record_identities_witness:
  "\<exists>s' e. Erase demo_hooks ''i'' demo_two_keys = (Inr (), s')
     \<and> ResolveEmployeeID (GetOrCreateEmployeeKey (Keys demo_hooks)) ''i'' ''r'' s' = (Inr e, s')"
proof -
  obtain s' where run: "Erase demo_hooks ''i'' demo_two_keys = (Inr (), s')" using demo_erase_run by blast
  let ?k = "replicate 16 (CHR ''l'')"
  have id: "ComputeEmployeeID ?k = Inr (hex_encode (hmac_sha256 ?k ''id''))"
    by (simp add: ComputeEmployeeID_def)
  have "fst (e_keys demo_two_keys) (key_lookup_id ''i'' ''r'') = Some ?k"
    "fst (e_keys demo_two_keys) ''i'' = Some (replicate 16 (CHR ''k''))"
    by (simp_all add: demo_two_keys_def key_lookup_id_def)
  from erase_keeps_record_identities [OF demo_two_keys_inv _ this(1) id this(2) run] run
  show ?thesis by blast
qed

end
