(* ===== verification/Pipeline.thy ===== *)
theory Pipeline
  imports Writepaths "HOL-Library.Char_ord" "HOL-Library.List_Lexorder" "HOL-Library.Multiset"
begin

text \<open>
  The request pipeline of the integration bridge (internal/pipeline): authentication,
  validation, dispatch under a time budget, classification of the outcome and the response,
  for the write routes; and the two read routes for history and verification. A handler is
  a function from the request and the state to a response and a new state; the response is
  \<^const>\<open>None\<close> when the handler panics, since \<open>net/http\<close> then drops the connection. Texts of
  errors that \<open>encoding/json\<close> and \<open>encoding/base64\<close> make are represented by one fixed text each.
\<close>

section \<open>Requests and responses\<close>

text \<open>\<open>header\<close> and \<open>query\<close> are the methods \<open>Header.Get\<close> and \<open>URL.Query().Get\<close>: the first
  value, or the empty string.\<close>

record request =
  header :: "string \<Rightarrow> string"
  query :: "string \<Rightarrow> string"
  body :: string

record response =
  status_code :: int
  content_type :: string
  payload :: string

definition StatusOK :: int where "StatusOK = 200"
definition StatusBadRequest :: int where "StatusBadRequest = 400"
definition StatusInternalServerError :: int where "StatusInternalServerError = 500"

text \<open>The three calls that end every handler: content type, status code, encoded body.\<close>

definition write_json :: "int \<Rightarrow> json \<Rightarrow> response" where
  "write_json code j =
     \<lparr>status_code = code, content_type = ''application/json'', payload = json_print j @ [CHR 0x0A]\<rparr>"

definition omitempty :: "string \<Rightarrow> string \<Rightarrow> (string \<times> json) list" where
  "omitempty k v = (if v = [] then [] else [(k, JStr v)])"

section \<open>auth.go\<close>

record AuthConfig =
  APIKey :: string
  CompanyID :: string

definition errMissingOrIncorrectCredentials :: goerr where
  "errMissingOrIncorrectCredentials = Sentinel ''integrationbridge: missing or incorrect credentials''"

text \<open>\<open>subtle.ConstantTimeCompare\<close> is 1 exactly on equal byte strings.\<close>

definition authenticate :: "request \<Rightarrow> AuthConfig \<Rightarrow> goerr option" where
  "authenticate r cfg =
     (let apiKey = header r ''X-Api-Key''; companyID = header r ''X-Company-ID''
      in if apiKey = [] \<or> apiKey \<noteq> APIKey cfg then Some (AuthError errMissingOrIncorrectCredentials)
         else if companyID = [] \<or> companyID \<noteq> CompanyID cfg
         then Some (AuthError errMissingOrIncorrectCredentials)
         else None)"

section \<open>classify.go\<close>

definition classify :: "goerr option \<Rightarrow> string" where
  "classify err =
     (case err of
        None \<Rightarrow> ''committed''
      | Some e \<Rightarrow>
          if errors_as is_auth_error e then ''error''
          else if errors_as is_validation_error e then ''rejected''
          else if errors_is e DeadlineExceeded then ''partial_failure''
          else if errors_as is_partial_failure e then ''partial_failure''
          else ''error'')"

section \<open>validate.go\<close>

record requestEnvelope =
  env_EmployeeInternalID :: string
  env_UserID :: string
  env_NewValue :: string
  env_Document :: string
  env_RecordIdentity :: string

text \<open>A string field of a struct that also has raw fields ignores the raw text.\<close>

definition dec_str' :: "(string \<Rightarrow> 's \<Rightarrow> 's) \<Rightarrow> json \<times> string \<Rightarrow> 's \<Rightarrow> 's option" where
  "dec_str' upd p s = dec_str upd (fst p) s"

definition requestEnvelope_fields :: "(json \<times> string, requestEnvelope) fields" where
  "requestEnvelope_fields =
     [(''employeeInternalID'', dec_str' (\<lambda>x r. r\<lparr>env_EmployeeInternalID := x\<rparr>)),
      (''userID'', dec_str' (\<lambda>x r. r\<lparr>env_UserID := x\<rparr>)),
      (''newValue'', dec_raw (\<lambda>x r. r\<lparr>env_NewValue := x\<rparr>)),
      (''document'', dec_str' (\<lambda>x r. r\<lparr>env_Document := x\<rparr>)),
      (''recordIdentity'', dec_str' (\<lambda>x r. r\<lparr>env_RecordIdentity := x\<rparr>))]"

definition zero_envelope :: requestEnvelope where
  "zero_envelope = \<lparr>env_EmployeeInternalID = [], env_UserID = [], env_NewValue = [], env_Document = [],
     env_RecordIdentity = []\<rparr>"

definition maxRequestBodyBytes :: nat where
  "maxRequestBodyBytes = 10 * 2 ^ 20"

text \<open>What \<open>http.MaxBytesReader\<close> lets the decoder see. Reading past the limit is an error;
  the decoder meets it unless the value ends before, and a value that is not an object or
  an array ends only at a following byte.\<close>

fun is_container :: "json \<Rightarrow> bool" where
  "is_container (JObj kvs) = True"
| "is_container (JArr vs) = True"
| "is_container _ = False"

definition cut_at_limit :: "nat \<Rightarrow> string \<Rightarrow> bool" where
  "cut_at_limit limit b \<longleftrightarrow> limit < length b
     \<and> (case parse_value (2 * limit) (take limit b) of
          Some (v, rest) \<Rightarrow> rest = [] \<and> \<not> is_container v
        | None \<Rightarrow> True)"

definition decode_limited :: "nat \<Rightarrow> (json \<times> string, 's) fields \<Rightarrow> string \<Rightarrow> 's \<Rightarrow> 's option" where
  "decode_limited limit fs b z =
     (if cut_at_limit limit b then None else decode_raw_struct fs (take limit b) z)"

text \<open>\<open>base64.StdEncoding.DecodeString\<close>: line breaks are skipped, padding is required, the
  unused bits of the last character are ignored.\<close>

definition b64_val :: "char \<Rightarrow> nat option" where
  "b64_val c =
     (let n = of_char c :: nat in
      if 65 \<le> n \<and> n \<le> 90 then Some (n - 65)
      else if 97 \<le> n \<and> n \<le> 122 then Some (n - 71)
      else if 48 \<le> n \<and> n \<le> 57 then Some (n + 4)
      else if n = 43 then Some 62
      else if n = 47 then Some 63
      else None)"

definition b64_word :: "char \<Rightarrow> char \<Rightarrow> nat \<Rightarrow> nat \<Rightarrow> nat option" where
  "b64_word a b c d =
     (case (b64_val a, b64_val b) of
        (Some x, Some y) \<Rightarrow> Some (((x * 64 + y) * 64 + c) * 64 + d)
      | _ \<Rightarrow> None)"

definition word_bytes :: "nat \<Rightarrow> string" where
  "word_bytes w = [char_of (w div 65536), char_of (w div 256), char_of w]"

fun b64_quanta :: "string \<Rightarrow> string option" where
  "b64_quanta [] = Some []"
| "b64_quanta (a # b # c # d # r) =
     (if r = [] \<and> c = CHR ''='' \<and> d = CHR ''='' then map_option (take 1 \<circ> word_bytes) (b64_word a b 0 0)
      else case b64_val c of
             None \<Rightarrow> None
           | Some z \<Rightarrow>
               if r = [] \<and> d = CHR ''='' then map_option (take 2 \<circ> word_bytes) (b64_word a b z 0)
               else (case b64_val d of
                  None \<Rightarrow> None
                | Some u \<Rightarrow>
                    (case b64_word a b z u of
                       None \<Rightarrow> None
                     | Some w \<Rightarrow> map_option ((@) (word_bytes w)) (b64_quanta r))))"
| "b64_quanta _ = None"

definition b64_decode :: "string \<Rightarrow> string option" where
  "b64_decode s = b64_quanta (filter (\<lambda>c. c \<noteq> CHR 0x0A \<and> c \<noteq> CHR 0x0D) s)"

text \<open>\<open>bytes.TrimSpace\<close> agrees with \<open>strings.TrimSpace\<close> byte by byte.\<close>

definition isJSONObject :: "string \<Rightarrow> bool" where
  "isJSONObject raw = (let trimmed = trim_space raw in 0 < length trimmed \<and> trimmed ! 0 = CHR 0x7B)"

definition vfail :: "string \<Rightarrow> 'a res" where
  "vfail msg = Inl (ValidationError (Plain msg))"

definition validateRequest :: "request \<Rightarrow> (string \<times> string \<times> string \<times> string \<times> string) res" where
  "validateRequest r =
     (case decode_limited maxRequestBodyBytes requestEnvelope_fields (body r) zero_envelope of
        None \<Rightarrow> Inl (ValidationError (wrap ''integrationbridge: invalid request body'' (Plain ''json: cannot decode'')))
      | Some env \<Rightarrow>
          (let employeeInternalID = trim_space (env_EmployeeInternalID env);
               userID = trim_space (env_UserID env)
           in if employeeInternalID = [] then vfail ''integrationbridge: employeeInternalID is required''
              else if userID = [] then vfail ''integrationbridge: userID is required''
              else if \<not> isJSONObject (env_NewValue env)
              then vfail ''integrationbridge: newValue is required and must be a JSON object''
              else (case (if env_Document env \<noteq> [] then b64_decode (env_Document env) else Some []) of
                      None \<Rightarrow> Inl (ValidationError (wrap ''integrationbridge: document is not valid base64''
                                     (Plain ''illegal base64 data'')))
                    | Some doc \<Rightarrow>
                        Inr (employeeInternalID, userID, env_NewValue env, doc,
                             trim_space (env_RecordIdentity env)))))"

section \<open>dispatch.go\<close>

type_synonym 's DispatchFunc = "string \<Rightarrow> string \<Rightarrow> string \<Rightarrow> string \<Rightarrow> string \<Rightarrow> ('s, goerr, string) act"

text \<open>\<open>ctxErr budget s s'\<close> is what \<open>dispatchCtx.Err()\<close> returns in \<open>s'\<close> for a context made in
  \<open>s\<close> with the given budget: the error of the first of deadline and cancellation, if any.
  A panic of the hook passes through.\<close>

definition dispatch ::
  "(int \<Rightarrow> 's \<Rightarrow> 's \<Rightarrow> goerr option) \<Rightarrow> int \<Rightarrow> 's DispatchFunc \<Rightarrow> string \<Rightarrow> string \<Rightarrow> string \<Rightarrow> string \<Rightarrow> string
   \<Rightarrow> ('s, goerr, string) act" where
  "dispatch ctxErr budget fn employeeInternalID userID recordIdentity newValue document s =
     (case fn employeeInternalID userID recordIdentity newValue document s of
        (Inl err, s') \<Rightarrow>
          if err \<noteq> NilPointer \<and> ctxErr budget s s' = Some DeadlineExceeded then (Inl DeadlineExceeded, s')
          else (Inl err, s')
      | (Inr result, s') \<Rightarrow> (Inr result, s'))"

section \<open>respond.go\<close>

record responseBody =
  rb_Status :: string
  rb_RecordID :: string
  rb_Detail :: string

definition responseBody_json :: "responseBody \<Rightarrow> json" where
  "responseBody_json b =
     JObj ((''status'', JStr (rb_Status b)) # omitempty ''recordID'' (rb_RecordID b)
           @ omitempty ''detail'' (rb_Detail b))"

record chaincodeResult =
  cr_RecordID :: string

definition unmarshal_chaincodeResult :: "string \<Rightarrow> chaincodeResult option" where
  "unmarshal_chaincodeResult data =
     (case json_unmarshal data of
        None \<Rightarrow> None
      | Some j \<Rightarrow> decode_struct [(''recordID'', dec_str (\<lambda>x r. r\<lparr>cr_RecordID := x\<rparr>))] j \<lparr>cr_RecordID = []\<rparr>)"

definition httpStatusFor :: "string \<Rightarrow> int" where
  "httpStatusFor status =
     (if status = ''committed'' \<or> status = ''partial_failure'' then StatusOK
      else if status = ''rejected'' then StatusBadRequest
      else StatusInternalServerError)"

definition no_record_detail :: string where
  "no_record_detail =
     ''integrationbridge: internal error -- dispatch reported success with no usable recordID''"

definition response_body :: "string \<Rightarrow> string \<Rightarrow> goerr option \<Rightarrow> responseBody" where
  "response_body status result err =
     (let b = \<lparr>rb_Status = status, rb_RecordID = [], rb_Detail = []\<rparr>;
          b = (if status = ''committed''
               then (case unmarshal_chaincodeResult result of
                       Some cr \<Rightarrow>
                         if cr_RecordID cr \<noteq> [] then b\<lparr>rb_RecordID := cr_RecordID cr\<rparr>
                         else b\<lparr>rb_Status := ''error'', rb_Detail := no_record_detail\<rparr>
                     | None \<Rightarrow> b\<lparr>rb_Status := ''error'', rb_Detail := no_record_detail\<rparr>)
               else b)
      in (case err of None \<Rightarrow> b | Some e \<Rightarrow> b\<lparr>rb_Detail := error_text e\<rparr>))"

definition respond :: "string \<Rightarrow> string \<Rightarrow> goerr option \<Rightarrow> response" where
  "respond status result err =
     (let b = response_body status result err in write_json (httpStatusFor (rb_Status b)) (responseBody_json b))"

section \<open>handlers.go, pipeline.go\<close>

record 's RouteConfig =
  rc_ProfileSection :: string
  rc_Dispatch :: "'s DispatchFunc"

record bridgectx =
  bc_EmployeeInternalID :: string
  bc_ProfileSection :: string
  bc_TenantID :: string
  bc_Result :: string
  bc_Err :: "goerr option"

definition respond_bc :: "bridgectx \<Rightarrow> response" where
  "respond_bc bc = respond (classify (bc_Err bc)) (bc_Result bc) (bc_Err bc)"

definition RegisterProfileSectionRoute ::
  "(int \<Rightarrow> 's \<Rightarrow> 's \<Rightarrow> goerr option) \<Rightarrow> 's RouteConfig \<Rightarrow> AuthConfig \<Rightarrow> string \<Rightarrow> int
   \<Rightarrow> request \<Rightarrow> 's \<Rightarrow> response option \<times> 's" where
  "RegisterProfileSectionRoute ctxErr route authCfg tenantID timeout r s =
     (let bc = \<lparr>bc_EmployeeInternalID = [], bc_ProfileSection = rc_ProfileSection route,
                bc_TenantID = tenantID, bc_Result = [], bc_Err = None\<rparr>
      in case authenticate r authCfg of
           Some err \<Rightarrow> (Some (respond_bc (bc\<lparr>bc_Err := Some err\<rparr>)), s)
         | None \<Rightarrow>
             (case validateRequest r of
                Inl err \<Rightarrow> (Some (respond_bc (bc\<lparr>bc_Err := Some err\<rparr>)), s)
              | Inr (employeeInternalID, userID, newValue, document, recordIdentity) \<Rightarrow>
                  (let bc = bc\<lparr>bc_EmployeeInternalID := employeeInternalID\<rparr>
                   in case dispatch ctxErr timeout (rc_Dispatch route) employeeInternalID userID recordIdentity
                             newValue document s of
                        (Inr result, s') \<Rightarrow> (Some (respond_bc (bc\<lparr>bc_Result := result\<rparr>)), s')
                      | (Inl err, s') \<Rightarrow>
                          (if err = NilPointer then None else Some (respond_bc (bc\<lparr>bc_Err := Some err\<rparr>)), s'))))"

section \<open>history.go\<close>

record 's HistoryRouteConfig =
  hrc_Keys :: "string \<Rightarrow> ('s, goerr, string) act"
  hrc_Ledger :: "string \<Rightarrow> string \<Rightarrow> string \<Rightarrow> ('s, goerr, string) act"
  hrc_TenantID :: string

record historyEntry =
  he_ProfileSection :: string
  he_CanonicalizationVersion :: string
  he_DataHash :: string
  he_HashAlgo :: string
  he_IpfsCIDs :: "string list option"
  he_PrevHash :: string
  he_RecordID :: string
  he_Timestamp :: string
  he_UpdatedBy :: string
  he_Version :: int

definition historyEntry_json :: "historyEntry \<Rightarrow> json" where
  "historyEntry_json e = JObj
     [(''profileSection'', JStr (he_ProfileSection e)),
      (''canonicalizationVersion'', JStr (he_CanonicalizationVersion e)),
      (''dataHash'', JStr (he_DataHash e)), (''hashAlgo'', JStr (he_HashAlgo e)),
      (''ipfsCIDs'', strs_json (he_IpfsCIDs e)), (''prevHash'', JStr (he_PrevHash e)),
      (''recordID'', JStr (he_RecordID e)), (''timestamp'', JStr (he_Timestamp e)),
      (''updatedBy'', JStr (he_UpdatedBy e)), (''version'', JNum (itoa (he_Version e)))]"

record chaincodeHistoryEntry =
  che_CanonicalizationVersion :: string
  che_DataHash :: string
  che_HashAlgo :: string
  che_IpfsCIDs :: "string list option"
  che_PrevHash :: string
  che_RecordID :: string
  che_Timestamp :: string
  che_UpdatedBy :: string
  che_Version :: int

definition chaincodeHistoryEntry_fields :: "(json, chaincodeHistoryEntry) fields" where
  "chaincodeHistoryEntry_fields =
     [(''canonicalizationVersion'', dec_str (\<lambda>x r. r\<lparr>che_CanonicalizationVersion := x\<rparr>)),
      (''dataHash'', dec_str (\<lambda>x r. r\<lparr>che_DataHash := x\<rparr>)),
      (''hashAlgo'', dec_str (\<lambda>x r. r\<lparr>che_HashAlgo := x\<rparr>)),
      (''ipfsCIDs'', dec_strs (\<lambda>x r. r\<lparr>che_IpfsCIDs := x\<rparr>)),
      (''prevHash'', dec_str (\<lambda>x r. r\<lparr>che_PrevHash := x\<rparr>)),
      (''recordID'', dec_str (\<lambda>x r. r\<lparr>che_RecordID := x\<rparr>)),
      (''timestamp'', dec_str (\<lambda>x r. r\<lparr>che_Timestamp := x\<rparr>)),
      (''updatedBy'', dec_str (\<lambda>x r. r\<lparr>che_UpdatedBy := x\<rparr>)),
      (''version'', dec_int (\<lambda>x r. r\<lparr>che_Version := x\<rparr>))]"

definition zero_history_entry :: chaincodeHistoryEntry where
  "zero_history_entry = \<lparr>che_CanonicalizationVersion = [], che_DataHash = [], che_HashAlgo = [],
     che_IpfsCIDs = None, che_PrevHash = [], che_RecordID = [], che_Timestamp = [], che_UpdatedBy = [],
     che_Version = 0\<rparr>"

text \<open>\<open>json.Unmarshal(raw, &chunk)\<close> into a slice: \<open>null\<close> gives the nil slice.\<close>

fun decode_chunk :: "json \<Rightarrow> chaincodeHistoryEntry list option" where
  "decode_chunk (JArr vs) =
     map_opt (\<lambda>j. decode_struct chaincodeHistoryEntry_fields j zero_history_entry) vs"
| "decode_chunk JNull = Some []"
| "decode_chunk _ = None"

definition unmarshal_chunk :: "string \<Rightarrow> chaincodeHistoryEntry list option" where
  "unmarshal_chunk raw = (case json_unmarshal raw of None \<Rightarrow> None | Some j \<Rightarrow> decode_chunk j)"

definition history_entry :: "string \<Rightarrow> chaincodeHistoryEntry \<Rightarrow> historyEntry" where
  "history_entry section e =
     \<lparr>he_ProfileSection = section, he_CanonicalizationVersion = che_CanonicalizationVersion e,
      he_DataHash = che_DataHash e, he_HashAlgo = che_HashAlgo e, he_IpfsCIDs = che_IpfsCIDs e,
      he_PrevHash = che_PrevHash e, he_RecordID = che_RecordID e, he_Timestamp = che_Timestamp e,
      he_UpdatedBy = che_UpdatedBy e, he_Version = che_Version e\<rparr>"

record historyResponseBody =
  hr_Status :: string
  hr_Detail :: string
  hr_History :: "historyEntry list"

definition historyResponseBody_json :: "historyResponseBody \<Rightarrow> json" where
  "historyResponseBody_json b =
     JObj ((''status'', JStr (hr_Status b)) # omitempty ''detail'' (hr_Detail b)
           @ (if hr_History b = [] then [] else [(''history'', JArr (map historyEntry_json (hr_History b)))]))"

fun known_loop :: "string list \<Rightarrow> string \<Rightarrow> bool" where
  "known_loop [] section = False"
| "known_loop (s # ss) section = (if s = section then True else known_loop ss section)"

definition isKnownProfileSection :: "string \<Rightarrow> bool" where
  "isKnownProfileSection section = known_loop AllProfileSections section"

definition status_of_read :: "string \<Rightarrow> int" where
  "status_of_read status =
     (if status = ''rejected'' then StatusBadRequest
      else if status = ''error'' then StatusInternalServerError
      else StatusOK)"

definition respondHistory :: "string \<Rightarrow> string \<Rightarrow> historyEntry list \<Rightarrow> response" where
  "respondHistory status detail history =
     write_json (status_of_read status)
       (historyResponseBody_json \<lparr>hr_Status = status, hr_Detail = detail, hr_History = history\<rparr>)"

text \<open>The loop over the sections, with what was collected so far.\<close>

fun collect_history ::
  "'s HistoryRouteConfig \<Rightarrow> string \<Rightarrow> string list \<Rightarrow> historyEntry list \<Rightarrow> ('s, string, historyEntry list) act" where
  "collect_history cfg employeeID [] acc s = (Inr acc, s)"
| "collect_history cfg employeeID (section # ss) acc s =
     (case hrc_Ledger cfg (hrc_TenantID cfg) employeeID section s of
        (Inl err, s1) \<Rightarrow> (Inl (''integrationbridge: querying ledger history: '' @ error_text err), s1)
      | (Inr raw, s1) \<Rightarrow>
          (case unmarshal_chunk raw of
             None \<Rightarrow> (Inl (''integrationbridge: decoding ledger history: '' @ ''json: cannot unmarshal''), s1)
           | Some chunk \<Rightarrow> collect_history cfg employeeID ss (acc @ map (history_entry section) chunk) s1))"

text \<open>\<open>sort.SliceStable\<close> with the comparison \<open>all[i].Timestamp > all[j].Timestamp\<close>; Go compares
  strings byte by byte, as the order on \<^typ>\<open>string\<close> here does. \<^const>\<open>sort_key\<close> is stable and
  ascending, so sorting the reversed list and reversing is stable and descending.\<close>

definition newest_first :: "historyEntry list \<Rightarrow> historyEntry list" where
  "newest_first hs = rev (sort_key he_Timestamp (rev hs))"

definition section_error :: "string \<Rightarrow> string" where
  "section_error section =
     ''integrationbridge: profileSection '' @ go_quote section @ '' is not one of the five ratified values''"

definition requested_sections :: "string \<Rightarrow> string list res" where
  "requested_sections requested =
     (if requested \<noteq> []
      then (if \<not> isKnownProfileSection requested then Inl (Plain (section_error requested)) else Inr [requested])
      else Inr AllProfileSections)"

definition RegisterProfileHistoryRoute ::
  "'s HistoryRouteConfig \<Rightarrow> AuthConfig \<Rightarrow> request \<Rightarrow> 's \<Rightarrow> response \<times> 's" where
  "RegisterProfileHistoryRoute cfg authCfg r s =
     (case authenticate r authCfg of
        Some err \<Rightarrow> (respondHistory ''error'' (error_text err) [], s)
      | None \<Rightarrow>
          (let employeeInternalID = trim_space (query r ''employeeInternalID'');
               recordIdentity = trim_space (query r ''recordIdentity'')
           in if employeeInternalID = []
              then (respondHistory ''rejected'' ''integrationbridge: employeeInternalID is required'' [], s)
              else (case requested_sections (trim_space (query r ''profileSection'')) of
                      Inl err \<Rightarrow> (respondHistory ''rejected'' (error_text err) [], s)
                    | Inr sections \<Rightarrow>
                        (case ResolveEmployeeID (hrc_Keys cfg) employeeInternalID recordIdentity s of
                           (Inl err, s1) \<Rightarrow>
                             (respondHistory ''error'' (''integrationbridge: resolving employee key: '' @ error_text err) [], s1)
                         | (Inr employeeID, s1) \<Rightarrow>
                             (case collect_history cfg employeeID sections [] s1 of
                                (Inl detail, s2) \<Rightarrow> (respondHistory ''error'' detail [], s2)
                              | (Inr all, s2) \<Rightarrow> (respondHistory ''ok'' [] (newest_first all), s2))))))"

section \<open>verify.go\<close>

record 's VerifyRouteConfig =
  vrc_Keys :: "string \<Rightarrow> ('s, goerr, string) act"
  vrc_Salts :: "string \<Rightarrow> string \<Rightarrow> int \<Rightarrow> ('s, goerr, string) act"
  vrc_Ledger :: "string \<Rightarrow> string \<Rightarrow> string \<Rightarrow> ('s, goerr, string) act"
  vrc_TenantID :: string

record verifyRequestEnvelope =
  ve_EmployeeInternalID :: string
  ve_ProfileSection :: string
  ve_RecordIdentity :: string
  ve_CurrentValue :: string

definition verifyRequestEnvelope_fields :: "(json \<times> string, verifyRequestEnvelope) fields" where
  "verifyRequestEnvelope_fields =
     [(''employeeInternalID'', dec_str' (\<lambda>x r. r\<lparr>ve_EmployeeInternalID := x\<rparr>)),
      (''profileSection'', dec_str' (\<lambda>x r. r\<lparr>ve_ProfileSection := x\<rparr>)),
      (''recordIdentity'', dec_str' (\<lambda>x r. r\<lparr>ve_RecordIdentity := x\<rparr>)),
      (''currentValue'', dec_raw (\<lambda>x r. r\<lparr>ve_CurrentValue := x\<rparr>))]"

definition zero_verify_envelope :: verifyRequestEnvelope where
  "zero_verify_envelope =
     \<lparr>ve_EmployeeInternalID = [], ve_ProfileSection = [], ve_RecordIdentity = [], ve_CurrentValue = []\<rparr>"

record verifyResponseBody =
  vr_Status :: string
  vr_Detail :: string

definition verifyResponseBody_json :: "verifyResponseBody \<Rightarrow> json" where
  "verifyResponseBody_json b = JObj ((''status'', JStr (vr_Status b)) # omitempty ''detail'' (vr_Detail b))"

definition respondVerify :: "verifyResponseBody \<Rightarrow> response" where
  "respondVerify b = write_json (status_of_read (vr_Status b)) (verifyResponseBody_json b)"

text \<open>The loop that picks the entry with the greatest version, the first one on a tie.\<close>

fun latest_entry :: "chaincodeHistoryEntry \<Rightarrow> chaincodeHistoryEntry list \<Rightarrow> chaincodeHistoryEntry" where
  "latest_entry latest [] = latest"
| "latest_entry latest (e # es) =
     latest_entry (if che_Version latest < che_Version e then e else latest) es"

abbreviation verdict :: "string \<Rightarrow> string \<Rightarrow> verifyResponseBody" where
  "verdict status detail \<equiv> \<lparr>vr_Status = status, vr_Detail = detail\<rparr>"

text \<open>From the decoded history on: the comparison itself.\<close>

definition compare_with_latest ::
  "(string \<Rightarrow> string res) \<Rightarrow> 's VerifyRouteConfig \<Rightarrow> string \<Rightarrow> string \<Rightarrow> string
   \<Rightarrow> chaincodeHistoryEntry list \<Rightarrow> 's \<Rightarrow> verifyResponseBody \<times> 's" where
  "compare_with_latest Transform cfg employeeID profileSection currentValue chunk s =
     (case chunk of
        [] \<Rightarrow> (verdict ''no_anchor_found''
                 ''integrationbridge: no anchor exists yet for this employee/domain/recordIdentity'', s)
      | e # es \<Rightarrow>
          (let latest = latest_entry e es
           in if length currentValue = 0 \<or> currentValue = ''null'' then (verdict ''deletion_verified'' [], s)
              else (case vrc_Salts cfg employeeID profileSection (che_Version latest) s of
                      (Inl err, s1) \<Rightarrow>
                        (verdict ''error'' (''integrationbridge: fetching salt: '' @ error_text err), s1)
                    | (Inr salt, s1) \<Rightarrow>
                        (case ComputeDataHash Transform salt currentValue of
                           Inl err \<Rightarrow>
                             (verdict ''error'' (''integrationbridge: computing DataHash: '' @ error_text err), s1)
                         | Inr dataHash \<Rightarrow>
                             if dataHash \<noteq> che_DataHash latest
                             then (verdict ''compromised''
                               ''integrationbridge: current value's digest does not match the latest on-chain anchor'', s1)
                             else (verdict ''verified'' [], s1)))))"

definition verify_outcome ::
  "(string \<Rightarrow> string res) \<Rightarrow> 's VerifyRouteConfig \<Rightarrow> AuthConfig \<Rightarrow> request \<Rightarrow> 's \<Rightarrow> verifyResponseBody \<times> 's" where
  "verify_outcome Transform cfg authCfg r s =
     (case authenticate r authCfg of
        Some err \<Rightarrow> (verdict ''error'' (error_text err), s)
      | None \<Rightarrow>
          (case decode_raw_struct verifyRequestEnvelope_fields (body r) zero_verify_envelope of
             None \<Rightarrow> (verdict ''rejected'' (''integrationbridge: invalid request body: '' @ ''json: cannot decode''), s)
           | Some env \<Rightarrow>
               (let employeeInternalID = trim_space (ve_EmployeeInternalID env);
                    profileSection = trim_space (ve_ProfileSection env)
                in if employeeInternalID = []
                   then (verdict ''rejected'' ''integrationbridge: employeeInternalID is required'', s)
                   else if \<not> isKnownProfileSection profileSection
                   then (verdict ''rejected'' (section_error profileSection), s)
                   else (case ResolveEmployeeID (vrc_Keys cfg) employeeInternalID (ve_RecordIdentity env) s of
                           (Inl err, s1) \<Rightarrow>
                             (verdict ''error'' (''integrationbridge: resolving employee key: '' @ error_text err), s1)
                         | (Inr employeeID, s1) \<Rightarrow>
                             (case vrc_Ledger cfg (vrc_TenantID cfg) employeeID profileSection s1 of
                                (Inl err, s2) \<Rightarrow>
                                  (verdict ''error'' (''integrationbridge: querying ledger history: '' @ error_text err), s2)
                              | (Inr raw, s2) \<Rightarrow>
                                  (case unmarshal_chunk raw of
                                     None \<Rightarrow>
                                       (verdict ''error''
                                          (''integrationbridge: decoding ledger history: '' @ ''json: cannot unmarshal''), s2)
                                   | Some chunk \<Rightarrow>
                                       compare_with_latest Transform cfg employeeID profileSection
                                         (ve_CurrentValue env) chunk s2))))))"

definition RegisterProfileVerifyRoute ::
  "(string \<Rightarrow> string res) \<Rightarrow> 's VerifyRouteConfig \<Rightarrow> AuthConfig \<Rightarrow> request \<Rightarrow> 's \<Rightarrow> response \<times> 's" where
  "RegisterProfileVerifyRoute Transform cfg authCfg r s =
     (case verify_outcome Transform cfg authCfg r s of (b, s') \<Rightarrow> (respondVerify b, s'))"

section \<open>Facts about the stages\<close>

text \<open>The two error types of the pipeline are not exported, so an error that comes from a
  hook contains neither.\<close>

definition foreign :: "goerr \<Rightarrow> bool" where
  "foreign e \<longleftrightarrow> \<not> errors_as is_auth_error e \<and> \<not> errors_as is_validation_error e"

definition outcome_unknown :: "goerr \<Rightarrow> bool" where
  "outcome_unknown e \<longleftrightarrow> errors_is e DeadlineExceeded \<or> errors_as is_partial_failure e"

lemma classify_simps [simp]:
  "classify None = ''committed''"
  "classify (Some (AuthError e)) = ''error''"
  "foreign e \<Longrightarrow> classify (Some e) = (if outcome_unknown e then ''partial_failure'' else ''error'')"
  by (simp_all add: classify_def errors_as_def foreign_def outcome_unknown_def)

lemma foreign_DeadlineExceeded [simp]: "foreign DeadlineExceeded" "outcome_unknown DeadlineExceeded"
  by (simp_all add: foreign_def errors_as_def DeadlineExceeded_def outcome_unknown_def)

lemma outcome_unknown_partial [simp]: "outcome_unknown (PartialFailureError i p v e)"
  by (simp add: outcome_unknown_def errors_as_def)

lemma validateRequest_error: "validateRequest r = Inl err \<Longrightarrow> classify (Some err) = ''rejected''"
  by (auto simp: validateRequest_def Let_def vfail_def wrap_def classify_def errors_as_def
      split: option.splits if_splits)

lemma authenticate_error:
  "authenticate r cfg = Some err \<Longrightarrow> err = AuthError errMissingOrIncorrectCredentials"
  by (auto simp: authenticate_def Let_def split: if_splits)

lemma authenticate_None:
  "authenticate r cfg = None \<longleftrightarrow>
     header r ''X-Api-Key'' = APIKey cfg \<and> APIKey cfg \<noteq> []
     \<and> header r ''X-Company-ID'' = CompanyID cfg \<and> CompanyID cfg \<noteq> []"
  by (auto simp: authenticate_def Let_def split: if_splits)

text \<open>The body of a response, case by case.\<close>

lemma response_body_error:
  "status \<noteq> ''committed'' \<Longrightarrow>
   response_body status result (Some e) = \<lparr>rb_Status = status, rb_RecordID = [], rb_Detail = error_text e\<rparr>"
  by (simp add: response_body_def Let_def)

definition usable_id :: "string \<Rightarrow> string option" where
  "usable_id result =
     (case unmarshal_chaincodeResult result of
        Some cr \<Rightarrow> if cr_RecordID cr \<noteq> [] then Some (cr_RecordID cr) else None
      | None \<Rightarrow> None)"

lemma response_body_committed:
  "response_body ''committed'' result None =
     (case usable_id result of
        Some i \<Rightarrow> \<lparr>rb_Status = ''committed'', rb_RecordID = i, rb_Detail = []\<rparr>
      | None \<Rightarrow> \<lparr>rb_Status = ''error'', rb_RecordID = [], rb_Detail = no_record_detail\<rparr>)"
  by (simp add: response_body_def usable_id_def Let_def split: option.splits)

section \<open>Properties of the write routes\<close>

text \<open>C17: Requests without the two right credentials have no effect on any route and learn
  nothing: the state is unchanged, no hook, key store or ledger call is made, and all such
  requests get the same answer, byte for byte, on the write, history and verify routes,
  whichever header was wrong or missing.\<close>

theorem unauthenticated_request_is_inert:
  assumes "header r ''X-Api-Key'' \<noteq> APIKey authCfg \<or> header r ''X-Company-ID'' \<noteq> CompanyID authCfg
    \<or> APIKey authCfg = [] \<or> CompanyID authCfg = []"
  shows "\<exists>refusal. status_code refusal = 500
    \<and> refusal = write_json 500 (JObj [(''status'', JStr ''error''),
        (''detail'', JStr (error_text errMissingOrIncorrectCredentials))])
    \<and> RegisterProfileSectionRoute ctxErr route authCfg tenantID timeout r s = (Some refusal, s)
    \<and> RegisterProfileHistoryRoute hcfg authCfg r s = (refusal, s)
    \<and> RegisterProfileVerifyRoute Transform vcfg authCfg r s = (refusal, s)"
proof -
  have a: "authenticate r authCfg = Some (AuthError errMissingOrIncorrectCredentials)"
    using assms authenticate_None [of r authCfg] authenticate_error [of r authCfg]
    by (cases "authenticate r authCfg") auto
  have e: "error_text (AuthError errMissingOrIncorrectCredentials) \<noteq> []"
    by (simp add: errMissingOrIncorrectCredentials_def)
  show ?thesis
    using e by (simp add: RegisterProfileSectionRoute_def RegisterProfileHistoryRoute_def
        RegisterProfileVerifyRoute_def verify_outcome_def a Let_def respond_bc_def respond_def
        response_body_error responseBody_json_def httpStatusFor_def StatusInternalServerError_def
        respondHistory_def historyResponseBody_json_def respondVerify_def verifyResponseBody_json_def
        status_of_read_def omitempty_def write_json_def)
qed

definition demo_auth :: AuthConfig where
  "demo_auth = \<lparr>APIKey = ''key'', CompanyID = ''co''\<rparr>"

definition demo_request :: "string \<Rightarrow> string \<Rightarrow> string \<Rightarrow> request" where
  "demo_request k c b =
     \<lparr>header = (\<lambda>n. if n = ''X-Api-Key'' then k else if n = ''X-Company-ID'' then c else []),
      query = (\<lambda>n. if n = ''employeeInternalID'' then ''i'' else []), body = b\<rparr>"

theorem unauthenticated_request_is_inert_witness:
  "\<exists>refusal. RegisterProfileHistoryRoute
      \<lparr>hrc_Keys = (\<lambda>k. returnE k), hrc_Ledger = (\<lambda>t e p. returnE ''[]''), hrc_TenantID = ''t''\<rparr>
      demo_auth (demo_request ''wrong'' ''co'' []) (0 :: nat) = (refusal, 0) \<and> status_code refusal = 500"
proof -
  have "header (demo_request ''wrong'' ''co'' []) ''X-Api-Key'' \<noteq> APIKey demo_auth
    \<or> header (demo_request ''wrong'' ''co'' []) ''X-Company-ID'' \<noteq> CompanyID demo_auth
    \<or> APIKey demo_auth = [] \<or> CompanyID demo_auth = []"
    by (simp add: demo_request_def demo_auth_def)
  note inert = unauthenticated_request_is_inert [OF this,
      where s = "0 :: nat" and hcfg = "\<lparr>hrc_Keys = (\<lambda>k. returnE k), hrc_Ledger = (\<lambda>t e p. returnE ''[]''), hrc_TenantID = ''t''\<rparr>"
      and ctxErr = "\<lambda>b s s'. None" and tenantID = "''t''" and timeout = 0 and Transform = Inr
      and route = "\<lparr>rc_ProfileSection = ''PAYROLL'', rc_Dispatch = (\<lambda>i u r x d. throwE (Plain ''no''))\<rparr>"
      and vcfg = "\<lparr>vrc_Keys = (\<lambda>k. returnE k), vrc_Salts = (\<lambda>e p v. returnE e),
        vrc_Ledger = (\<lambda>t e p. returnE ''[]''), vrc_TenantID = ''t''\<rparr>"]
  then show ?thesis by (elim exE conjE) (intro exI conjI)
qed

text \<open>C13: The answer of a write route tells what happened. A valid, authenticated request
  calls the hook once with the validated values. The answer is \<open>committed\<close> with the record
  id exactly when the hook succeeded with a usable record id; it is \<open>partial_failure\<close> exactly
  when the hook failed and its error is a partial failure or the time budget is used up; a
  success that comes late is still a success. Everything else is \<open>error\<close>, and only that has
  a status code other than 200.\<close>

theorem write_route_tells_the_outcome:
  assumes "authenticate r authCfg = None" and "validateRequest r = Inr (i, user, newValue, document, recid)"
    and "rc_Dispatch route i user recid newValue document s = (res, s')"
    and "case res of Inl e \<Rightarrow> foreign e \<and> e \<noteq> NilPointer | Inr result \<Rightarrow> True"
  shows "\<exists>b. RegisterProfileSectionRoute ctxErr route authCfg tenantID timeout r s
        = (Some (write_json (if rb_Status b = ''error'' then 500 else 200) (responseBody_json b)), s')
    \<and> (rb_Status b = ''committed'' \<longleftrightarrow>
         (\<exists>result. res = Inr result \<and> usable_id result = Some (rb_RecordID b)))
    \<and> (rb_Status b = ''partial_failure'' \<longleftrightarrow>
         (\<exists>e. res = Inl e \<and> (ctxErr timeout s s' = Some DeadlineExceeded \<or> outcome_unknown e)))
    \<and> rb_Status b \<in> {''committed'', ''partial_failure'', ''error''}"
proof (cases res)
  case (Inl e)
  define e' where "e' = (if ctxErr timeout s s' = Some DeadlineExceeded then DeadlineExceeded else e)"
  define st where "st = (if outcome_unknown e' then ''partial_failure'' else ''error'')"
  have f: "foreign e'" "e' \<noteq> NilPointer"
    using assms(4) Inl by (auto simp: e'_def) (simp add: DeadlineExceeded_def NilPointer_def)
  have run: "dispatch ctxErr timeout (rc_Dispatch route) i user recid newValue document s = (Inl e', s')"
    using assms(3,4) Inl by (simp add: dispatch_def e'_def)
  have st: "st \<noteq> ''committed''" "classify (Some e') = st" using f(1) by (simp_all add: st_def)
  let ?b = "\<lparr>rb_Status = st, rb_RecordID = [], rb_Detail = error_text e'\<rparr>"
  have code: "httpStatusFor st = (if st = ''error'' then 500 else 200)"
    by (simp add: st_def httpStatusFor_def StatusOK_def StatusInternalServerError_def)
  have "RegisterProfileSectionRoute ctxErr route authCfg tenantID timeout r s
      = (Some (write_json (if rb_Status ?b = ''error'' then 500 else 200) (responseBody_json ?b)), s')"
    using assms(1,2) run f(2) st
    by (simp add: RegisterProfileSectionRoute_def respond_bc_def respond_def response_body_error code)
  moreover have "st = ''partial_failure'' \<longleftrightarrow> ctxErr timeout s s' = Some DeadlineExceeded \<or> outcome_unknown e"
    by (auto simp: st_def e'_def)
  ultimately show ?thesis using Inl st by (intro exI [of _ ?b]) (auto simp: st_def)
next
  case (Inr result)
  let ?b = "response_body ''committed'' result None"
  have "RegisterProfileSectionRoute ctxErr route authCfg tenantID timeout r s
      = (Some (write_json (if rb_Status ?b = ''error'' then 500 else 200) (responseBody_json ?b)), s')"
    using assms(1-3) Inr
    by (simp add: RegisterProfileSectionRoute_def dispatch_def respond_bc_def respond_def
        response_body_committed httpStatusFor_def StatusOK_def StatusInternalServerError_def split: option.splits)
  then show ?thesis using Inr
    by (intro exI [of _ ?b]) (auto simp: response_body_committed split: option.splits)
qed


text \<open>A valid request, and the values the pipeline reads from it.\<close>

definition demo_body :: string where
  "demo_body = json_print (JObj [(''employeeInternalID'', JStr ''i''), (''userID'', JStr ''u''),
     (''newValue'', JObj [])])"

abbreviation demo_good :: request where
  "demo_good \<equiv> demo_request ''key'' ''co'' demo_body"

lemma demo_auth_ok: "authenticate (demo_request ''key'' ''co'' b) demo_auth = None"
  by (simp add: authenticate_def demo_request_def demo_auth_def)

lemma demo_decode: "decode_raw_struct requestEnvelope_fields demo_body zero_envelope =
  Some \<lparr>env_EmployeeInternalID = ''i'', env_UserID = ''u'', env_NewValue = ''{}'', env_Document = [],
    env_RecordIdentity = []\<rparr>"
  by code_simp

text \<open>A text that starts and ends with a visible ASCII character is trimmed already.\<close>

definition visible :: "char \<Rightarrow> bool" where
  "visible c \<longleftrightarrow> 33 \<le> (of_char c :: nat) \<and> (of_char c :: nat) < 127"

lemma utf8_spaces_invisible: "w \<in> set utf8_spaces \<Longrightarrow> \<not> visible (hd w) \<and> \<not> visible (last w)"
proof -
  have "list_all (\<lambda>w. \<not> visible (hd w) \<and> \<not> visible (last w)) utf8_spaces"
    by code_simp
  then show "w \<in> set utf8_spaces \<Longrightarrow> \<not> visible (hd w) \<and> \<not> visible (last w)"
    by (simp add: list_all_iff)
qed

lemma trim_space_visible:
  assumes "s \<noteq> []" and "visible (hd s)" and "visible (last s)"
  shows "trim_space s = s"
proof -
  have "\<not> has_prefix s w \<and> \<not> has_suffix s w" if "w \<in> set utf8_spaces" for w
    using utf8_spaces_invisible [OF that] utf8_spaces_nonempty [OF that] assms
    by (auto simp: has_prefix_iff has_suffix_iff prefix_def suffix_def)
  then have "find (has_prefix s) utf8_spaces = None" "find (has_suffix s) utf8_spaces = None"
    by (auto simp: find_None_iff)
  then show ?thesis by (simp add: trim_space_def trim_left.simps [of s] trim_right.simps [of s])
qed

lemma demo_valid: "validateRequest demo_good = Inr (''i'', ''u'', ''{}'', [], [])"
proof -
  have len: "length demo_body = 53" by code_simp
  have t: "take maxRequestBodyBytes demo_body = demo_body" "\<not> cut_at_limit maxRequestBodyBytes demo_body"
    by (simp_all add: len maxRequestBodyBytes_def cut_at_limit_def)
  have "trim_space ''i'' = ''i''" "trim_space ''u'' = ''u''" "trim_space ''{}'' = ''{}''"
    by (rule trim_space_visible; simp add: visible_def)+
  with t show ?thesis
    by (simp add: validateRequest_def decode_limited_def demo_request_def demo_decode isJSONObject_def Let_def)
qed

theorem write_route_tells_the_outcome_witness:
  "\<exists>b. RegisterProfileSectionRoute (\<lambda>b s s'. None)
       \<lparr>rc_ProfileSection = ''PAYROLL'', rc_Dispatch = (\<lambda>i u r x d. throwE (PartialFailureError i ''PAYROLL'' 1 (Plain ''down'')))\<rparr>
       demo_auth ''t'' 5 demo_good (0 :: nat) = (Some (write_json 200 (responseBody_json b)), 0)
     \<and> rb_Status b = ''partial_failure''"
proof -
  let ?e = "PartialFailureError ''i'' ''PAYROLL'' 1 (Plain ''down'')"
  let ?rc = "\<lparr>rc_ProfileSection = ''PAYROLL'', rc_Dispatch = (\<lambda>i u r x d. throwE (PartialFailureError i ''PAYROLL'' 1 (Plain ''down'')))\<rparr>"
  have f: "case (Inl ?e :: string res) of Inl e \<Rightarrow> foreign e \<and> e \<noteq> NilPointer | Inr result \<Rightarrow> True"
    by (auto simp: foreign_def errors_as_def NilPointer_def)
  have d: "rc_Dispatch ?rc ''i'' ''u'' [] ''{}'' [] (0 :: nat) = (Inl ?e, 0)" by simp
  from write_route_tells_the_outcome [OF demo_auth_ok demo_valid d f, where ctxErr = "\<lambda>b s s'. None"
      and tenantID = "''t''" and timeout = 5]
  obtain b where b: "RegisterProfileSectionRoute (\<lambda>b s s'. None) ?rc demo_auth ''t'' 5 demo_good (0 :: nat)
        = (Some (write_json (if rb_Status b = ''error'' then 500 else 200) (responseBody_json b)), 0)"
    and p: "rb_Status b = ''partial_failure'' \<longleftrightarrow>
      (\<exists>e. Inl ?e = (Inl e :: string res) \<and> (None = Some DeadlineExceeded \<or> outcome_unknown e))"
    by (elim exE conjE) (rule that; assumption)
  from p have "rb_Status b = ''partial_failure''" by simp
  with b show ?thesis by (intro exI [of _ b]) simp
qed

section \<open>What validation lets through\<close>

lemma trim_left_suffix: "suffix (trim_left s) s"
proof (induction s rule: trim_left.induct)
  case (1 s)
  show ?case
    by (subst trim_left.simps) (auto split: option.splits intro: suffix_trans [OF "1.IH" suffix_drop])
qed

text \<open>The raw fields of a decoded struct hold the raw text of some member, or nothing.\<close>

lemma decode_members_NewValue:
  "decode_members requestEnvelope_fields kvs e = Some e' \<Longrightarrow>
   env_NewValue e' = env_NewValue e \<or> (\<exists>k v. (k, v, env_NewValue e') \<in> set kvs)"
proof (induction kvs arbitrary: e)
  case (Cons m kvs)
  obtain k v t where m: "m = (k, v, t)" by (cases m)
  show ?case
  proof (cases "lookup_field requestEnvelope_fields k")
    case None
    with Cons m show ?thesis by fastforce
  next
    case (Some f)
    then have "f \<in> snd ` set requestEnvelope_fields"
      by (force simp: lookup_field_def find_Some_iff in_set_conv_nth dest: map_of_SomeD split: option.splits)
    then have step: "env_NewValue e1 = env_NewValue e \<or> env_NewValue e1 = t" if "f (v, t) e = Some e1" for e1
      using that by (cases v) (auto simp: requestEnvelope_fields_def dec_str'_def)
    from Cons.prems Some m obtain e1 where "f (v, t) e = Some e1"
      "decode_members requestEnvelope_fields kvs e1 = Some e'"
      by (auto split: option.splits)
    with Cons.IH [of e1] step [of e1] m show ?thesis by auto
  qed
qed simp

text \<open>C29: A request that passes validation. Employee and user are not empty; the new value is
  a contiguous part of the request body within its first 10 MiB, taken over byte for byte,
  never re-encoded, so that the digest is computed on what the caller sent; it starts an
  object; and the document is the decoded base64 text, or empty when there is none.\<close>

theorem validated_value_is_verbatim:
  assumes "validateRequest r = Inr (i, user, newValue, document, recid)"
  shows "i \<noteq> [] \<and> user \<noteq> [] \<and> isJSONObject newValue
    \<and> sublist newValue (take maxRequestBodyBytes (body r)) \<and> length newValue \<le> 10485760
    \<and> (\<exists>env. decode_limited maxRequestBodyBytes requestEnvelope_fields (body r) zero_envelope = Some env
        \<and> newValue = env_NewValue env
        \<and> (if env_Document env = [] then document = [] else b64_decode (env_Document env) = Some document))"
proof -
  let ?b = "take maxRequestBodyBytes (body r)"
  from assms obtain env where d: "decode_raw_struct requestEnvelope_fields ?b zero_envelope = Some env"
    and lim: "decode_limited maxRequestBodyBytes requestEnvelope_fields (body r) zero_envelope = Some env"
    and nv: "newValue = env_NewValue env" "isJSONObject newValue" and iu: "i \<noteq> []" "user \<noteq> []"
    and doc: "if env_Document env = [] then document = [] else b64_decode (env_Document env) = Some document"
    by (auto simp: validateRequest_def decode_limited_def Let_def vfail_def split: option.splits if_splits)
  have ne: "newValue \<noteq> []" using nv(2) by (auto simp: isJSONObject_def)
  from d have "\<exists>kvs. raw_object ?b = Some kvs \<and> decode_members requestEnvelope_fields kvs zero_envelope = Some env"
  proof -
    have False if "env = zero_envelope" using that ne nv(1) by (simp add: zero_envelope_def)
    with d show ?thesis by (auto simp: decode_raw_struct_def split: option.splits json.splits)
  qed
  then obtain kvs where kvs: "raw_object ?b = Some kvs"
    "decode_members requestEnvelope_fields kvs zero_envelope = Some env" by blast
  from decode_members_NewValue [OF kvs(2)] ne nv(1) obtain k v where "(k, v, newValue) \<in> set kvs"
    by (auto simp: zero_envelope_def)
  from raw_object_sublist [OF kvs(1) this] have sub: "sublist newValue ?b" .
  then have "length newValue \<le> length ?b" by (rule sublist_length_le)
  also have "\<dots> \<le> 10485760" by (simp add: maxRequestBodyBytes_def)
  finally show ?thesis using iu nv sub doc lim by blast
qed

theorem validated_value_is_verbatim_witness:
  "validateRequest demo_good = Inr (''i'', ''u'', ''{}'', [], []) \<and> isJSONObject ''{}''"
  using demo_valid validated_value_is_verbatim [OF demo_valid] by blast

section \<open>Properties of the read routes\<close>

lemma isKnownProfileSection_iff: "isKnownProfileSection p \<longleftrightarrow> p \<in> set AllProfileSections"
proof -
  have "known_loop ss p \<longleftrightarrow> p \<in> set ss" for ss by (induction ss) auto
  then show ?thesis by (simp add: isKnownProfileSection_def)
qed

lemma collect_history_reads:
  assumes "\<And>sec s. sec \<in> set secs \<Longrightarrow> hrc_Ledger cfg (hrc_TenantID cfg) e sec s = (Inr (raw sec), s)"
    and "\<And>sec. sec \<in> set secs \<Longrightarrow> unmarshal_chunk (raw sec) = Some (chunk sec)"
  shows "collect_history cfg e secs acc s
    = (Inr (acc @ concat (map (\<lambda>sec. map (history_entry sec) (chunk sec)) secs)), s)"
  using assms by (induction secs arbitrary: acc) simp_all

lemma newest_first_props:
  "mset (newest_first hs) = mset hs"
  "sorted_wrt (\<lambda>a b. he_Timestamp b \<le> he_Timestamp a) (newest_first hs)"
  "filter (\<lambda>h. he_Timestamp h = t) (newest_first hs) = filter (\<lambda>h. he_Timestamp h = t) hs"
proof -
  show "mset (newest_first hs) = mset hs" by (simp add: newest_first_def)
  have "sorted (map he_Timestamp (sort_key he_Timestamp (rev hs)))" by simp
  then show "sorted_wrt (\<lambda>a b. he_Timestamp b \<le> he_Timestamp a) (newest_first hs)"
    by (simp add: newest_first_def sorted_wrt_rev sorted_wrt_map)
  have "filter (\<lambda>h. he_Timestamp h = t) (sort_key he_Timestamp (rev hs))
      = filter (\<lambda>h. he_Timestamp h = t) (rev hs)" by (simp add: sort_key_stable)
  then show "filter (\<lambda>h. he_Timestamp h = t) (newest_first hs) = filter (\<lambda>h. he_Timestamp h = t) hs"
    by (simp add: newest_first_def flip: rev_filter)
qed

text \<open>C30: The transaction feed. For an authenticated request the history route returns exactly
  the entries the ledger has for the resolved pseudonym in the requested section, or in all
  five, each tagged with its section, none lost and none twice; newest first; entries of
  equal time stay in the order of the ledger; and nothing but the key store is written.\<close>

theorem history_feed_complete_and_sorted:
  assumes "authenticate r authCfg = None" and "trim_space (query r ''employeeInternalID'') \<noteq> []"
    and "secs = (if trim_space (query r ''profileSection'') = [] then AllProfileSections
                 else [trim_space (query r ''profileSection'')])" and "set secs \<subseteq> set AllProfileSections"
    and "ResolveEmployeeID (hrc_Keys cfg) (trim_space (query r ''employeeInternalID''))
           (trim_space (query r ''recordIdentity'')) s = (Inr e, s1)"
    and "\<And>sec s. sec \<in> set secs \<Longrightarrow> hrc_Ledger cfg (hrc_TenantID cfg) e sec s = (Inr (raw sec), s)"
    and "\<And>sec. sec \<in> set secs \<Longrightarrow> unmarshal_chunk (raw sec) = Some (chunk sec)"
  shows "\<exists>hs. RegisterProfileHistoryRoute cfg authCfg r s = (respondHistory ''ok'' [] hs, s1)
    \<and> mset hs = (\<Sum>sec\<leftarrow>secs. mset (map (history_entry sec) (chunk sec)))
    \<and> sorted_wrt (\<lambda>a b. he_Timestamp b \<le> he_Timestamp a) hs
    \<and> (\<forall>t. filter (\<lambda>h. he_Timestamp h = t) hs
          = concat (map (\<lambda>sec. filter (\<lambda>h. he_Timestamp h = t) (map (history_entry sec) (chunk sec))) secs))"
proof -
  let ?all = "concat (map (\<lambda>sec. map (history_entry sec) (chunk sec)) secs)"
  have "requested_sections (trim_space (query r ''profileSection'')) = Inr secs"
    using assms(3,4) by (auto simp: requested_sections_def isKnownProfileSection_iff split: if_splits)
  with assms(1,2,5) collect_history_reads [OF assms(6,7), of secs "[]" s1]
  have "RegisterProfileHistoryRoute cfg authCfg r s = (respondHistory ''ok'' [] (newest_first ?all), s1)"
    by (simp add: RegisterProfileHistoryRoute_def Let_def)
  moreover have "mset ?all = (\<Sum>sec\<leftarrow>secs. mset (map (history_entry sec) (chunk sec)))"
    by (induction secs) simp_all
  ultimately show ?thesis using newest_first_props [where hs = ?all]
    by (intro exI [of _ "newest_first ?all"]) (simp add: filter_concat comp_def)
qed

lemma latest_entry_is_newest:
  "latest_entry e es \<in> set (e # es) \<and> (\<forall>x\<in>set (e # es). che_Version x \<le> che_Version (latest_entry e es))"
proof (induction es arbitrary: e)
  case (Cons a es)
  from Cons.IH [of "if che_Version e < che_Version a then a else e"] show ?case
    by (auto split: if_splits)
qed simp

lemma latest_version: "che_Version (latest_entry e es) = Max (che_Version ` set (e # es))"
  using latest_entry_is_newest [of e es] by (intro Max_eqI [symmetric]) auto

text \<open>C14: The verdict of the verify route. For an authenticated request about an anchored
  record, the salt is fetched for the greatest version in the ledger's history, and the
  answer is \<open>verified\<close> or \<open>compromised\<close> by comparing the digest of the presented value with that
  entry's digest. If that entry anchors a value \<open>y\<close> under the same salt, then presenting a
  value with the canonical form of \<open>y\<close> is verified, and a value with another canonical form is
  \<open>compromised\<close> unless the salted canonical forms of the two values are a SHA-256 collision.\<close>

theorem verify_route_detects_tampering:
  assumes "authenticate r authCfg = None"
    and "decode_raw_struct verifyRequestEnvelope_fields (body r) zero_verify_envelope = Some env"
    and "trim_space (ve_EmployeeInternalID env) \<noteq> []" and "sec = trim_space (ve_ProfileSection env)"
    and "sec \<in> set AllProfileSections" and "x = ve_CurrentValue env" and "x \<notin> {[], ''null''}"
    and "ResolveEmployeeID (vrc_Keys cfg) (trim_space (ve_EmployeeInternalID env)) (ve_RecordIdentity env) s
           = (Inr e, s1)"
    and "vrc_Ledger cfg (vrc_TenantID cfg) e sec s1 = (Inr raw, s2)" and "unmarshal_chunk raw = Some chunk"
    and "chunk \<noteq> []" and "vrc_Salts cfg e sec (Max (che_Version ` set chunk)) s2 = (Inr salt, s3)"
    and "ComputeDataHash Transform salt x = Inr h"
  shows "\<exists>latest\<in>set chunk. (\<forall>c\<in>set chunk. che_Version c \<le> che_Version latest)
    \<and> (\<exists>d. RegisterProfileVerifyRoute Transform cfg authCfg r s
          = (respondVerify (verdict (if h = che_DataHash latest then ''verified'' else ''compromised'') d), s3))
    \<and> (\<forall>y. ComputeDataHash Transform salt y = Inr (che_DataHash latest) \<longrightarrow>
         (Transform x = Transform y \<longrightarrow> h = che_DataHash latest)
         \<and> (h = che_DataHash latest \<longrightarrow> Transform x = Transform y
              \<or> (\<exists>cx cy. Transform x = Inr cx \<and> Transform y = Inr cy \<and> sha_collision (salt @ cx) (salt @ cy))))"
proof -
  obtain c cs where chunk: "chunk = c # cs" using assms(11) by (cases chunk) auto
  let ?l = "latest_entry c cs"
  have new: "?l \<in> set chunk" "\<forall>c\<in>set chunk. che_Version c \<le> che_Version ?l"
    using latest_entry_is_newest [of c cs] by (simp_all add: chunk)
  have salt: "vrc_Salts cfg e sec (che_Version ?l) s2 = (Inr salt, s3)"
    using assms(12) latest_version [of c cs] by (simp add: chunk)
  have "verify_outcome Transform cfg authCfg r s = compare_with_latest Transform cfg e sec x chunk s2"
    using assms(1-6,8-10) by (simp add: verify_outcome_def Let_def isKnownProfileSection_iff)
  moreover have "\<exists>d. compare_with_latest Transform cfg e sec x chunk s2
      = (verdict (if h = che_DataHash ?l then ''verified'' else ''compromised'') d, s3)"
    using assms(7,13) salt by (simp add: compare_with_latest_def chunk Let_def)
  ultimately obtain d where route: "RegisterProfileVerifyRoute Transform cfg authCfg r s
      = (respondVerify (verdict (if h = che_DataHash ?l then ''verified'' else ''compromised'') d), s3)"
    by (auto simp: RegisterProfileVerifyRoute_def)
  have "(Transform x = Transform y \<longrightarrow> h = che_DataHash ?l)
      \<and> (h = che_DataHash ?l \<longrightarrow> Transform x = Transform y
           \<or> (\<exists>cx cy. Transform x = Inr cx \<and> Transform y = Inr cy \<and> sha_collision (salt @ cx) (salt @ cy)))"
    if anchored: "ComputeDataHash Transform salt y = Inr (che_DataHash ?l)" for y
  proof
    show "Transform x = Transform y \<longrightarrow> h = che_DataHash ?l"
      using anchored assms(13) by (auto simp: ComputeDataHash_Inr)
  qed (use ComputeDataHash_binding [OF assms(13)] anchored in blast)
  with new route show ?thesis by blast
qed

text \<open>A ledger with one version of one record, and requests about it.\<close>

definition demo_history :: string where
  "demo_history = json_print (JArr [JObj [(''dataHash'', JStr ''d''), (''version'', JNum ''1'')]])"

lemma demo_chunk: "unmarshal_chunk demo_history = Some [zero_history_entry\<lparr>che_DataHash := ''d'', che_Version := 1\<rparr>]"
  by code_simp

lemma trim_demo: "trim_space ''i'' = ''i''" "trim_space ''PAYROLL'' = ''PAYROLL''"
  by (rule trim_space_visible; simp add: visible_def)+

definition demo_hrc :: "nat HistoryRouteConfig" where
  "demo_hrc = \<lparr>hrc_Keys = (\<lambda>k. returnE ''k''), hrc_Ledger = (\<lambda>t e p. returnE demo_history), hrc_TenantID = ''t''\<rparr>"

definition demo_pseudonym :: string where
  "demo_pseudonym = hex_encode (hmac_sha256 ''k'' ''id'')"

lemma demo_resolve: "ResolveEmployeeID (\<lambda>k. returnE ''k'') i recid s = (Inr demo_pseudonym, s)"
  by (simp add: ResolveEmployeeID_def ResolveEmployeeKey_def ComputeEmployeeID_def demo_pseudonym_def bindE_def mapErr_def)

theorem history_feed_complete_and_sorted_witness:
  "\<exists>hs. RegisterProfileHistoryRoute demo_hrc demo_auth demo_good 0 = (respondHistory ''ok'' [] hs, 0) \<and> size (mset hs) = 5"
proof -
  have res: "ResolveEmployeeID (hrc_Keys demo_hrc) (trim_space (query demo_good ''employeeInternalID''))
           (trim_space (query demo_good ''recordIdentity'')) 0 = (Inr demo_pseudonym, 0)"
    unfolding demo_hrc_def by (simp add: demo_resolve)
  have q: "trim_space (query demo_good ''employeeInternalID'') \<noteq> []"
    "AllProfileSections = (if trim_space (query demo_good ''profileSection'') = [] then AllProfileSections
                 else [trim_space (query demo_good ''profileSection'')])"
    by (simp_all add: demo_request_def trim_demo)
  have led: "hrc_Ledger demo_hrc (hrc_TenantID demo_hrc) demo_pseudonym sec s = (Inr demo_history, s)" for sec s
    by (simp add: demo_hrc_def)
  from history_feed_complete_and_sorted [OF demo_auth_ok q subset_refl res, of "\<lambda>_. demo_history", OF led demo_chunk]
  have "\<exists>hs. RegisterProfileHistoryRoute demo_hrc demo_auth demo_good 0 = (respondHistory ''ok'' [] hs, 0)
    \<and> mset hs = (\<Sum>sec\<leftarrow>AllProfileSections. mset (map (history_entry sec)
        [zero_history_entry\<lparr>che_DataHash := ''d'', che_Version := 1\<rparr>]))"
    by (elim exE conjE) (intro exI conjI)
  then show ?thesis by (elim exE conjE) (intro exI conjI, assumption, simp add: AllProfileSections_def)
qed

definition demo_vrc :: "nat VerifyRouteConfig" where
  "demo_vrc = \<lparr>vrc_Keys = (\<lambda>k. returnE ''k''), vrc_Salts = (\<lambda>e p v. returnE (replicate 16 (CHR ''s''))),
     vrc_Ledger = (\<lambda>t e p. returnE demo_history), vrc_TenantID = ''t''\<rparr>"

definition demo_verify_body :: string where
  "demo_verify_body = json_print (JObj [(''employeeInternalID'', JStr ''i''), (''profileSection'', JStr ''PAYROLL''),
     (''currentValue'', JObj [])])"

lemma demo_verify_decode:
  "decode_raw_struct verifyRequestEnvelope_fields demo_verify_body zero_verify_envelope
     = Some \<lparr>ve_EmployeeInternalID = ''i'', ve_ProfileSection = ''PAYROLL'', ve_RecordIdentity = [], ve_CurrentValue = ''{}''\<rparr>"
  by code_simp

theorem verify_route_detects_tampering_witness:
  "\<exists>d. RegisterProfileVerifyRoute Inr demo_vrc demo_auth (demo_request ''key'' ''co'' demo_verify_body) 0
     = (respondVerify (verdict ''compromised'' d), 0)"
proof -
  let ?env = "\<lparr>ve_EmployeeInternalID = ''i'', ve_ProfileSection = ''PAYROLL'', ve_RecordIdentity = [], ve_CurrentValue = ''{}''\<rparr>"
  let ?r = "demo_request ''key'' ''co'' demo_verify_body"
  let ?salt = "replicate 16 (CHR ''s'')"
  let ?c = "zero_history_entry\<lparr>che_DataHash := ''d'', che_Version := 1\<rparr>"
  have dec: "decode_raw_struct verifyRequestEnvelope_fields (body ?r) zero_verify_envelope = Some ?env"
    by (simp add: demo_request_def demo_verify_decode)
  obtain h where h: "ComputeDataHash Inr ?salt ''{}'' = Inr (''sha256:'' @ h)"
    by (simp add: ComputeDataHash_def Digest.MinSaltBytes_def)
  have i: "trim_space (ve_EmployeeInternalID ?env) \<noteq> []" "''PAYROLL'' = trim_space (ve_ProfileSection ?env)"
    "''PAYROLL'' \<in> set AllProfileSections" "''{}'' = ve_CurrentValue ?env" "''{}'' \<notin> {[], ''null''}"
    by (simp_all add: trim_demo demo_payroll_section)
  have res: "ResolveEmployeeID (vrc_Keys demo_vrc) (trim_space (ve_EmployeeInternalID ?env)) (ve_RecordIdentity ?env) 0
    = (Inr demo_pseudonym, 0)" unfolding demo_vrc_def by (simp add: demo_resolve)
  have l: "vrc_Ledger demo_vrc (vrc_TenantID demo_vrc) demo_pseudonym ''PAYROLL'' 0 = (Inr demo_history, 0)"
    "vrc_Salts demo_vrc demo_pseudonym ''PAYROLL'' (Max (che_Version ` set [?c])) 0 = (Inr ?salt, 0)"
    by (simp_all add: demo_vrc_def)
  from verify_route_detects_tampering [OF demo_auth_ok dec i res l(1) demo_chunk _ l(2) h]
  show ?thesis by simp
qed

end
