(* ===== verification/Go_Strings.thy ===== *)
theory Go_Strings
  imports Prelude
begin

text \<open>
  More of the packages \<open>strings\<close> and \<open>path/filepath\<close>: splitting at a separator and joining a
  directory with a file name.
\<close>

text \<open>\<open>strings.Split\<close> with a separator of one character.\<close>

fun split_on :: "char \<Rightarrow> string \<Rightarrow> string list" where
  "split_on d [] = [[]]"
| "split_on d (c # s) =
     (if c = d then [] # split_on d s
      else case split_on d s of [] \<Rightarrow> [[c]] | w # ws \<Rightarrow> (c # w) # ws)"

lemma split_on_nonempty [simp]: "split_on d s \<noteq> []"
  by (induction s) (auto split: list.splits)

lemma split_on_append: "split_on d (a @ d # b) = split_on d a @ split_on d b"
proof (induction a)
  case (Cons c a)
  then show ?case by (cases "split_on d a") (auto split: list.splits)
qed simp

lemma split_on_none: "d \<notin> set s \<Longrightarrow> split_on d s = [s]"
  by (induction s) auto

lemma join_split: "join_with [d] (split_on d s) = s"
proof (induction s)
  case (Cons c s)
  then show ?case
  proof (cases "split_on d s")
    case (Cons w ws)
    with Cons.IH show ?thesis by (cases ws) auto
  qed simp
qed simp

section \<open>\<open>path/filepath\<close> on Unix\<close>

text \<open>\<open>filepath.Clean\<close>: drop empty and \<open>.\<close> elements, let \<open>..\<close> remove the element before it, and
  a \<open>..\<close> at the root.\<close>

definition clean_step :: "bool \<Rightarrow> string list \<Rightarrow> string \<Rightarrow> string list" where
  "clean_step rooted st c =
     (if c = [] \<or> c = ''.'' then st
      else if c = ''..'' then
        (if st \<noteq> [] \<and> last st \<noteq> ''..'' then butlast st
         else if rooted then st else st @ [c])
      else st @ [c])"

definition is_rooted :: "string \<Rightarrow> bool" where
  "is_rooted p \<longleftrightarrow> take 1 p = ''/''"

definition path_elems :: "string \<Rightarrow> string list" where
  "path_elems p = foldl (clean_step (is_rooted p)) [] (split_on (CHR ''/'') p)"

definition path_clean :: "string \<Rightarrow> string" where
  "path_clean p =
     (let es = path_elems p in
      if is_rooted p then CHR ''/'' # join_with ''/'' es
      else if es = [] then ''.'' else join_with ''/'' es)"

text \<open>\<open>filepath.Join\<close> of two elements; empty elements are ignored.\<close>

definition path_join :: "string \<Rightarrow> string \<Rightarrow> string" where
  "path_join dir name =
     (if dir = [] \<and> name = [] then []
      else if dir = [] then path_clean name
      else if name = [] then path_clean dir
      else path_clean (dir @ ''/'' @ name))"

text \<open>A plain file name: what the sources append to a configured directory.\<close>

definition file_name :: "string \<Rightarrow> bool" where
  "file_name n \<longleftrightarrow> n \<notin> {[], ''.'', ''..''} \<and> CHR ''/'' \<notin> set n"

lemma join_with_last: "\<exists>p. \<forall>x. join_with sep (xs @ [x]) = p @ x"
proof (induction xs)
  case (Cons a xs)
  then obtain p where p: "\<forall>x. join_with sep (xs @ [x]) = p @ x" by blast
  have "join_with sep ((a # xs) @ [x]) = (a @ sep @ p) @ x" for x
    using p by (cases xs) auto
  then show ?case by blast
qed (rule exI [of _ "[]"], simp)

lemma path_join_file:
  assumes "dir \<noteq> []"
  shows "\<exists>p. \<forall>n. file_name n \<longrightarrow> path_join dir n = p @ n"
proof -
  define es where "es = foldl (clean_step (is_rooted dir)) [] (split_on (CHR ''/'') dir)"
  have rooted: "is_rooted (dir @ x) = is_rooted dir" for x
    using assms by (cases dir) (auto simp: is_rooted_def)
  obtain p where p: "\<forall>x. join_with ''/'' (es @ [x]) = p @ x" using join_with_last by blast
  have "path_join dir n = (if is_rooted dir then CHR ''/'' # p else p) @ n" if "file_name n" for n
  proof -
    have "path_elems (dir @ ''/'' @ n) = es @ [n]"
      using that by (simp add: path_elems_def rooted split_on_append split_on_none file_name_def
          clean_step_def es_def)
    then show ?thesis using that assms p
      by (simp add: path_join_def path_clean_def Let_def rooted file_name_def)
  qed
  then show ?thesis by blast
qed

lemma path_join_inject:
  assumes "dir \<noteq> []" and "file_name m" and "file_name n"
  shows "path_join dir m = path_join dir n @ x \<longleftrightarrow> m = n @ x"
proof -
  obtain p where "\<forall>n. file_name n \<longrightarrow> path_join dir n = p @ n" using path_join_file [OF assms(1)] by blast
  with assms show ?thesis by simp
qed

end
