(* ===== verification/Bridge.thy ===== *)
theory Bridge
  imports Pipeline Go_Strings
begin

text \<open>
  The bridge process (cmd/integrationbridge): configuration from the environment, the wiring
  of the hooks to the encrypted files, the IPFS client and the gateway, the route table, and
  start-up and shutdown. The hooks as they are wired here satisfy the interface \<open>hooks_env\<close>
  of theory Writepaths: this is the interpretation \<open>wired\<close>.
\<close>

section \<open>config.go\<close>

record Config =
  PeerEndpoint :: string
  TLSServerName :: string
  TLSCACertPath :: string
  ClientTLSCertPath :: string
  ClientTLSKeyPath :: string
  MSPID :: string
  SignCertPath :: string
  SignKeyPath :: string
  ChannelName :: string
  ChaincodeName :: string
  cfg_TenantID :: string
  IPFSPrimaryAPI :: string
  IPFSReplicaAPI :: string
  cfg_APIKey :: string
  cfg_CompanyID :: string
  KeystoreDir :: string
  KeystoreEncryptionKeyHex :: string

text \<open>The variables in the order \<open>get\<close> is called on them.\<close>

definition required_variables :: "string list" where
  "required_variables =
     [''BRIDGE_PEER_ENDPOINT'', ''BRIDGE_TLS_SERVER_NAME'', ''BRIDGE_TLS_CA_CERT_PATH'',
      ''BRIDGE_CLIENT_TLS_CERT_PATH'', ''BRIDGE_CLIENT_TLS_KEY_PATH'', ''BRIDGE_MSP_ID'',
      ''BRIDGE_SIGN_CERT_PATH'', ''BRIDGE_SIGN_KEY_PATH'', ''BRIDGE_CHANNEL_NAME'',
      ''BRIDGE_CHAINCODE_NAME'', ''BRIDGE_TENANT_ID'', ''BRIDGE_IPFS_PRIMARY_API'',
      ''BRIDGE_IPFS_REPLICA_API'', ''BRIDGE_API_KEY'', ''BRIDGE_COMPANY_ID'',
      ''BRIDGE_KEYSTORE_DIR'', ''BRIDGE_KEYSTORE_ENCRYPTION_KEY_HEX'']"

definition is_missing :: "(string \<Rightarrow> string) \<Rightarrow> string \<Rightarrow> bool" where
  "is_missing getenv key \<longleftrightarrow> trim_space (getenv key) = []"

definition read_config :: "(string \<Rightarrow> string) \<Rightarrow> Config" where
  "read_config getenv =
     \<lparr>PeerEndpoint = getenv ''BRIDGE_PEER_ENDPOINT'', TLSServerName = getenv ''BRIDGE_TLS_SERVER_NAME'',
      TLSCACertPath = getenv ''BRIDGE_TLS_CA_CERT_PATH'',
      ClientTLSCertPath = getenv ''BRIDGE_CLIENT_TLS_CERT_PATH'',
      ClientTLSKeyPath = getenv ''BRIDGE_CLIENT_TLS_KEY_PATH'', MSPID = getenv ''BRIDGE_MSP_ID'',
      SignCertPath = getenv ''BRIDGE_SIGN_CERT_PATH'', SignKeyPath = getenv ''BRIDGE_SIGN_KEY_PATH'',
      ChannelName = getenv ''BRIDGE_CHANNEL_NAME'', ChaincodeName = getenv ''BRIDGE_CHAINCODE_NAME'',
      cfg_TenantID = getenv ''BRIDGE_TENANT_ID'', IPFSPrimaryAPI = getenv ''BRIDGE_IPFS_PRIMARY_API'',
      IPFSReplicaAPI = getenv ''BRIDGE_IPFS_REPLICA_API'', cfg_APIKey = getenv ''BRIDGE_API_KEY'',
      cfg_CompanyID = getenv ''BRIDGE_COMPANY_ID'', KeystoreDir = getenv ''BRIDGE_KEYSTORE_DIR'',
      KeystoreEncryptionKeyHex = getenv ''BRIDGE_KEYSTORE_ENCRYPTION_KEY_HEX''\<rparr>"

definition LoadConfig :: "(string \<Rightarrow> string) \<Rightarrow> Config res" where
  "LoadConfig getenv =
     (let missing = filter (is_missing getenv) required_variables
      in if 0 < length missing
         then Inl (Plain (''config: required environment variable(s) not set: '' @ join_with '', '' missing))
         else Inr (read_config getenv))"

definition ResolveHTTPAddr :: "(string \<Rightarrow> string) \<Rightarrow> string" where
  "ResolveHTTPAddr getenv =
     (let addr = trim_space (getenv ''BRIDGE_HTTP_ADDR'') in if addr \<noteq> [] then addr else '':8080'')"

text \<open>Durations are nanoseconds in an \<open>int64\<close>. \<open>time.ParseDuration\<close> is an argument: it scales
  fractions in floating point.\<close>

definition second :: int where
  "second = 1000000000"

definition ResolveDispatchTimeout :: "(string \<Rightarrow> int option) \<Rightarrow> (string \<Rightarrow> string) \<Rightarrow> int" where
  "ResolveDispatchTimeout ParseDuration getenv =
     (let placeholderDefault = 30 * second; v = trim_space (getenv ''BRIDGE_DISPATCH_TIMEOUT'')
      in if v = [] then placeholderDefault
         else case ParseDuration v of
                None \<Rightarrow> placeholderDefault
              | Some d \<Rightarrow> if d \<le> 0 then placeholderDefault else d)"

section \<open>main.go: the server\<close>

definition writeTimeoutBuffer :: int where
  "writeTimeoutBuffer = 10 * second"

definition serverWriteTimeout :: "int \<Rightarrow> int" where
  "serverWriteTimeout dispatchTimeout = wrap64 (dispatchTimeout + writeTimeoutBuffer)"

text \<open>The route table: method, path and handler. All patterns are exact paths. \<open>ServeHTTP\<close> is
  \<open>http.ServeMux\<close> for a path in canonical form (for others it redirects): a pattern for
  \<open>GET\<close> also takes \<open>HEAD\<close>, another method on a known path is refused with 405.\<close>

type_synonym 's handler = "request \<Rightarrow> 's \<Rightarrow> response option \<times> 's"
type_synonym 's mux = "(string \<times> string \<times> 's handler) list"

definition text_response :: "int \<Rightarrow> string \<Rightarrow> response" where
  "text_response code msg =
     \<lparr>status_code = code, content_type = ''text/plain; charset=utf-8'', payload = msg @ [CHR 0x0A]\<rparr>"

definition method_matches :: "string \<Rightarrow> string \<Rightarrow> bool" where
  "method_matches pattern m \<longleftrightarrow> m = pattern \<or> pattern = ''GET'' \<and> m = ''HEAD''"

definition ServeHTTP :: "'s mux \<Rightarrow> string \<Rightarrow> string \<Rightarrow> 's handler" where
  "ServeHTTP mux m path r s =
     (case find (\<lambda>(pm, pp, h). pp = path \<and> method_matches pm m) mux of
        Some (_, _, h) \<Rightarrow> h r s
      | None \<Rightarrow>
          (Some (if list_ex (\<lambda>(pm, pp, h). pp = path) mux
                 then text_response 405 ''Method Not Allowed''
                 else text_response 404 ''404 page not found''), s))"

definition read_handler :: "(request \<Rightarrow> 's \<Rightarrow> response \<times> 's) \<Rightarrow> 's handler" where
  "read_handler h r s = apfst Some (h r s)"

definition buildMux ::
  "(string \<Rightarrow> string res) \<Rightarrow> (int \<Rightarrow> 's \<Rightarrow> 's \<Rightarrow> goerr option) \<Rightarrow> 's Hooks
   \<Rightarrow> (string \<Rightarrow> string \<Rightarrow> string \<Rightarrow> ('s, goerr, string) act) \<Rightarrow> AuthConfig \<Rightarrow> int \<Rightarrow> 's mux" where
  "buildMux Transform ctxErr hooks historyReader authCfg dispatchTimeout =
     (let route = (\<lambda>sec fn. RegisterProfileSectionRoute ctxErr \<lparr>rc_ProfileSection = sec, rc_Dispatch = fn\<rparr>
                     authCfg (Hooks_TenantID hooks) dispatchTimeout)
      in [(''POST'', ''/v1/profile-sections/PERSONAL'', route ''PERSONAL'' (UpdatePersonalData Transform hooks)),
          (''POST'', ''/v1/profile-sections/EMPLOYMENT'',
             route ''EMPLOYMENT'' (ApproveEmploymentTransfer Transform hooks)),
          (''POST'', ''/v1/profile-sections/EDUCATION'', route ''EDUCATION'' (RecordEducationHistory Transform hooks)),
          (''POST'', ''/v1/profile-sections/ADDITIONAL'', route ''ADDITIONAL'' (UpdateAdditionalInfo Transform hooks)),
          (''POST'', ''/v1/profile-sections/PAYROLL'', route ''PAYROLL'' (UpdatePayrollBankAccount Transform hooks)),
          (''GET'', ''/v1/profile-sections/history'',
             read_handler (RegisterProfileHistoryRoute
               \<lparr>hrc_Keys = GetOrCreateEmployeeKey (Keys hooks), hrc_Ledger = historyReader,
                hrc_TenantID = Hooks_TenantID hooks\<rparr> authCfg)),
          (''POST'', ''/v1/profile-sections/verify'',
             read_handler (RegisterProfileVerifyRoute Transform
               \<lparr>vrc_Keys = GetOrCreateEmployeeKey (Keys hooks), vrc_Salts = GetSalt (Salts hooks),
                vrc_Ledger = historyReader, vrc_TenantID = Hooks_TenantID hooks\<rparr> authCfg))])"

section \<open>shutdown.go and the end of main.go\<close>

text \<open>\<open>errors.Join\<close>.\<close>

definition errors_join :: "goerr option list \<Rightarrow> goerr option" where
  "errors_join es = (case List.map_filter id es of [] \<Rightarrow> None | xs \<Rightarrow> Some (Joined xs))"

type_synonym 's closer = "'s \<Rightarrow> goerr option \<times> 's"

definition closeBoth :: "'s closer \<Rightarrow> 's closer \<Rightarrow> 's closer" where
  "closeBoth a b s = (case a s of (ea, s1) \<Rightarrow> (case b s1 of (eb, s2) \<Rightarrow> (errors_join [ea, eb], s2)))"

record 's shutdownSequence =
  sq_srv :: "'s closer"
  sq_gw :: "'s closer"

definition shutdownSequence_Close :: "'s shutdownSequence \<Rightarrow> 's closer" where
  "shutdownSequence_Close q = closeBoth (sq_srv q) (sq_gw q)"

text \<open>The state of a \<open>onceCloser\<close>: whether \<open>once\<close> has fired, and the stored error.\<close>

record onceCloser =
  once_done :: bool
  once_err :: "goerr option"

definition newOnceCloser :: onceCloser where
  "newOnceCloser = \<lparr>once_done = False, once_err = None\<rparr>"

definition onceCloser_Close :: "'s closer \<Rightarrow> (onceCloser \<times> 's) closer" where
  "onceCloser_Close closer = (\<lambda>(o1, s).
     if once_done o1 then (once_err o1, (o1, s))
     else (case closer s of (err, s') \<Rightarrow> (err, (\<lparr>once_done = True, once_err = err\<rparr>, s'))))"

definition runUntilShutdown :: "'s closer \<Rightarrow> 's closer" where
  "runUntilShutdown c s = c s"

definition ErrServerClosed :: goerr where
  "ErrServerClosed = Sentinel ''http: Server closed''"

text \<open>What ends the wait in \<open>run\<close>: the listener returned, or a signal arrived.\<close>

datatype wakeup = ServeReturned "goerr option" | Signalled

definition await_end :: "(onceCloser \<times> 's) closer \<Rightarrow> wakeup \<Rightarrow> (onceCloser \<times> 's) closer" where
  "await_end shutdown w s =
     (case w of
        ServeReturned err \<Rightarrow>
          (case err of
             None \<Rightarrow> (None, s)
           | Some e \<Rightarrow>
               if errors_is e ErrServerClosed then (None, s)
               else (case shutdown s of
                       (cerr, s') \<Rightarrow>
                         (map_option (wrap ''integrationbridge: http server'') (errors_join [Some e, cerr]), s')))
      | Signalled \<Rightarrow> runUntilShutdown shutdown s)"

section \<open>wiring.go\<close>

text \<open>The state of the process: the operational store, the files and the random source, and
  the network (gateway and IPFS nodes).\<close>

record 'n bridge =
  b_op :: op_state
  b_fs :: file_state
  b_net :: 'n

type_synonym ('n, 'gw) newGatewayClientFunc =
  "string \<Rightarrow> string \<Rightarrow> pem_path \<Rightarrow> pem_path \<Rightarrow> pem_path \<Rightarrow> string \<Rightarrow> pem_path \<Rightarrow> pem_path \<Rightarrow> string \<Rightarrow> string
   \<Rightarrow> ('n, goerr, 'gw) act"

definition on_files :: "(file_state, goerr, 'a) act \<Rightarrow> ('n bridge, goerr, 'a) act" where
  "on_files = on_part b_fs b_fs_update"

text \<open>The IPFS client draws its nonces from the same source as the stores.\<close>

definition on_ipfs :: "('n \<times> entropy, goerr, 'a) act \<Rightarrow> ('n bridge, goerr, 'a) act" where
  "on_ipfs m s =
     (case m (b_net s, snd (b_fs s)) of
        (r, (n, ent)) \<Rightarrow> (r, s\<lparr>b_net := n, b_fs := (fst (b_fs s), ent)\<rparr>))"

definition wire_hooks ::
  "'n Client \<Rightarrow> (string \<Rightarrow> string \<Rightarrow> string \<Rightarrow> (string \<Rightarrow> string list) \<Rightarrow> ('n, goerr, string) act) \<Rightarrow> string
   \<Rightarrow> file_state EmployeeKeyStore \<Rightarrow> file_state SaltStore \<Rightarrow> file_state DocumentKeyStore \<Rightarrow> 'n bridge Hooks" where
  "wire_hooks ipfs submit tenantID employeeKeys salts documentKeys =
     \<lparr>Store = \<lparr>SaveSection = (\<lambda>i p x. on_part b_op b_op_update (InMemoryOperationalStore_SaveSection i p x)),
                DeleteSection = (\<lambda>i p. on_part b_op b_op_update (InMemoryOperationalStore_DeleteSection i p))\<rparr>,
      Keys = \<lparr>GetOrCreateEmployeeKey = (\<lambda>k. on_files (GetOrCreateEmployeeKey employeeKeys k)),
               DeleteEmployeeKey = (\<lambda>k. on_files (DeleteEmployeeKey employeeKeys k))\<rparr>,
      Salts = \<lparr>PutSalt = (\<lambda>e p v. on_files (PutSalt salts e p v)),
                GetSalt = (\<lambda>e p v. on_files (GetSalt salts e p v)),
                DeleteAllSaltsForEmployee = (\<lambda>e. on_files (DeleteAllSaltsForEmployee salts e))\<rparr>,
      DocumentKeys = Some
        \<lparr>GetOrCreateDocumentKey = (\<lambda>k. on_files (GetOrCreateDocumentKey documentKeys k)),
          DeleteDocumentKey = (\<lambda>k. on_files (DeleteDocumentKey documentKeys k))\<rparr>,
      IPFS = Some (\<lambda>k d. on_ipfs (EncryptAndAdd ipfs k d)),
      LedgerAnchorer = (\<lambda>t e p b. on_part b_net b_net_update (submit t e p b)),
      Hooks_TenantID = tenantID,
      OnPartialFailure = None\<rparr>"

definition buildHooks ::
  "'n http \<Rightarrow> ('gw \<Rightarrow> string \<Rightarrow> string \<Rightarrow> string \<Rightarrow> (string \<Rightarrow> string list) \<Rightarrow> ('n, goerr, string) act)
   \<Rightarrow> Config \<Rightarrow> ('n, 'gw) newGatewayClientFunc \<Rightarrow> ('n, goerr, 'n bridge Hooks \<times> op_state \<times> 'gw) act" where
  "buildHooks http submit cfg newGW =
     bindE (mapErr (wrap ''integrationbridge: constructing GatewayClient'')
              (newGW (PeerEndpoint cfg) (TLSServerName cfg) (TLSCACertPath cfg) (ClientTLSCertPath cfg)
                 (ClientTLSKeyPath cfg) (MSPID cfg) (SignCertPath cfg) (SignKeyPath cfg) (ChannelName cfg)
                 (ChaincodeName cfg))) (\<lambda>gw.
     bindE (mapErr (wrap ''integrationbridge: BRIDGE_KEYSTORE_ENCRYPTION_KEY_HEX is not valid hex'')
              (liftE (case hex_decode (KeystoreEncryptionKeyHex cfg) of
                        None \<Rightarrow> Inl (Plain ''encoding/hex: invalid byte or odd length hex string'')
                      | Some b \<Rightarrow> Inr b))) (\<lambda>encryptionKey.
     bindE (mapErr (wrap ''integrationbridge: constructing employee key store'')
              (liftE (NewFileEmployeeKeyStore (path_join (KeystoreDir cfg) ''employee-keys.enc'') encryptionKey)))
       (\<lambda>employeeKeys.
     bindE (mapErr (wrap ''integrationbridge: constructing salt store'')
              (liftE (NewFileSaltStore (path_join (KeystoreDir cfg) ''salts.enc'') encryptionKey))) (\<lambda>salts.
     bindE (mapErr (wrap ''integrationbridge: constructing document key store'')
              (liftE (NewFileDocumentKeyStore (path_join (KeystoreDir cfg) ''document-keys.enc'') encryptionKey)))
       (\<lambda>documentKeys.
     returnE (wire_hooks (NewIpfsClient http (IPFSPrimaryAPI cfg) (IPFSReplicaAPI cfg)) (submit gw)
                (cfg_TenantID cfg) employeeKeys salts documentKeys,
              NewInMemoryOperationalStore, gw))))))"

section \<open>main.go: run\<close>

record 's server =
  srv_Addr :: string
  srv_Handler :: "'s mux"
  srv_ReadHeaderTimeout :: int
  srv_ReadTimeout :: int
  srv_WriteTimeout :: int
  srv_IdleTimeout :: int

definition newServer :: "(string \<Rightarrow> int option) \<Rightarrow> (string \<Rightarrow> string) \<Rightarrow> 's mux \<Rightarrow> 's server" where
  "newServer ParseDuration getenv mux =
     \<lparr>srv_Addr = ResolveHTTPAddr getenv, srv_Handler = mux, srv_ReadHeaderTimeout = 10 * second,
      srv_ReadTimeout = 30 * second,
      srv_WriteTimeout = serverWriteTimeout (ResolveDispatchTimeout ParseDuration getenv),
      srv_IdleTimeout = 120 * second\<rparr>"

text \<open>What the process gets from its host: the canonicalizer, the deadline test, the duration
  parser, the HTTP transport, the gateway client's methods, and the server, which serves
  requests until the listener returns or a signal arrives.\<close>

record ('n, 'gw) host =
  h_Transform :: "string \<Rightarrow> string res"
  h_ctxErr :: "int \<Rightarrow> 'n bridge \<Rightarrow> 'n bridge \<Rightarrow> goerr option"
  h_ParseDuration :: "string \<Rightarrow> int option"
  h_http :: "'n http"
  h_newGW :: "('n, 'gw) newGatewayClientFunc"
  h_submit :: "'gw \<Rightarrow> string \<Rightarrow> string \<Rightarrow> string \<Rightarrow> (string \<Rightarrow> string list) \<Rightarrow> ('n, goerr, string) act"
  h_history :: "'gw \<Rightarrow> string \<Rightarrow> string \<Rightarrow> string \<Rightarrow> ('n, goerr, string) act"
  h_closeGW :: "'gw \<Rightarrow> 'n bridge closer"
  h_serve :: "'n bridge server \<Rightarrow> 'n bridge \<Rightarrow> wakeup \<times> 'n bridge"
  h_Shutdown :: "'n bridge server \<Rightarrow> 'n bridge closer"

definition run :: "('n, 'gw) host \<Rightarrow> (string \<Rightarrow> string) \<Rightarrow> file_state \<Rightarrow> 'n \<Rightarrow> goerr option \<times> 'n bridge option" where
  "run host getenv fs n =
     (case LoadConfig getenv of
        Inl err \<Rightarrow> (Some (wrap ''integrationbridge'' err), None)
      | Inr cfg \<Rightarrow>
          (case buildHooks (h_http host) (h_submit host) cfg (h_newGW host) n of
             (Inl err, n1) \<Rightarrow> (Some (wrap ''integrationbridge'' err), None)
           | (Inr (hooks, op, gw), n1) \<Rightarrow>
               (let authCfg = \<lparr>APIKey = cfg_APIKey cfg, CompanyID = cfg_CompanyID cfg\<rparr>;
                    dispatchTimeout = ResolveDispatchTimeout (h_ParseDuration host) getenv;
                    mux = buildMux (h_Transform host) (h_ctxErr host) hooks
                            (\<lambda>t e p. on_part b_net b_net_update (h_history host gw t e p)) authCfg dispatchTimeout;
                    srv = newServer (h_ParseDuration host) getenv mux;
                    shutdown = onceCloser_Close (shutdownSequence_Close
                                 \<lparr>sq_srv = h_Shutdown host srv, sq_gw = h_closeGW host gw\<rparr>)
                in case h_serve host srv \<lparr>b_op = op, b_fs = fs, b_net = n1\<rparr> of
                     (w, s) \<Rightarrow> (case await_end shutdown w (newOnceCloser, s) of
                                 (err, (o1, s')) \<Rightarrow> (err, Some s')))))"

section \<open>The wired hooks satisfy the interface of the hooks\<close>

lemma keeps_save: "q \<notin> {fs_path f, tmp_path f} \<Longrightarrow> keeps (\<lambda>s. files (fst s) q) (save f data)"
  by (auto simp: keeps_def save_def Let_def os_WriteFile_def os_Rename_def
      split: sum.splits prod.splits option.splits if_splits)

lemma keeps_load_then:
  assumes "\<And>data. keeps (\<lambda>s. files (fst s) q) (k data)"
  shows "keeps (\<lambda>s. files (fst s) q) (load_then f k)"
proof -
  have "files (fst (snd (load_then f k (d, ent)))) q = files d q" for d ent
  proof -
    obtain r d' where ld: "load f d = (r, d')" by (rule prod.exhaust)
    then have "files d' = files d"
      by (auto simp: load_def os_ReadFile_def split: option.splits prod.splits if_splits)
    with ld assms show ?thesis
      by (cases r) (simp_all add: load_then_def keeps_def)
  qed
  then show ?thesis by (simp add: keeps_def)
qed

lemma keeps_after_draw:
  assumes "\<And>x. keeps (\<lambda>s. files (fst s) q) (g x)"
  shows "keeps (\<lambda>s. files (fst s) q) (\<lambda>(d, ent). case rand_read n ent of
      (Inl err, ent') \<Rightarrow> (Inl (e err), (d, ent')) | (Inr x, ent') \<Rightarrow>
        (case g x (d, ent') of (Inl err, s) \<Rightarrow> (Inl err, s) | (Inr u, s) \<Rightarrow> (Inr (x :: string), s)))"
  using assms by (auto simp: keeps_def split: sum.splits prod.splits) (metis fst_conv snd_conv)+

lemma file_ops_keep:
  assumes "q \<notin> {fs_path f, tmp_path f}"
  shows "keeps (\<lambda>s. files (fst s) q) (file_GetOrCreate what f k)"
    and "keeps (\<lambda>s. files (fst s) q) (file_Delete f k)"
    and "keeps (\<lambda>s. files (fst s) q) (FileSaltStore_PutSalt f e p v)"
    and "keeps (\<lambda>s. files (fst s) q) (FileSaltStore_DeleteAllSaltsForEmployee f e)"
proof -
  note sv = keeps_save [OF assms]
  show "keeps (\<lambda>s. files (fst s) q) (file_Delete f k)"
    "keeps (\<lambda>s. files (fst s) q) (FileSaltStore_DeleteAllSaltsForEmployee f e)"
    by (auto simp: file_Delete_def FileSaltStore_DeleteAllSaltsForEmployee_def intro!: keeps_load_then sv)
  show "keeps (\<lambda>s. files (fst s) q) (file_GetOrCreate what f k)"
    unfolding file_GetOrCreate_def
  proof (rule keeps_load_then)
    fix data
    show "keeps (\<lambda>s. files (fst s) q) (\<lambda>(d, ent). case map_of data k of Some key \<Rightarrow> (Inr key, (d, ent))
       | None \<Rightarrow> (case rand_read MinKeyBytes ent of
              (Inl err, ent') \<Rightarrow> (Inl (wrap (''keystore: generating '' @ what) err), (d, ent'))
            | (Inr key, ent') \<Rightarrow> (case save f (AList.update k key data) (d, ent') of
                   (Inl err, s) \<Rightarrow> (Inl err, s) | (Inr _, s) \<Rightarrow> (Inr key, s))))"
      using keeps_after_draw [where n = MinKeyBytes and e = "wrap (''keystore: generating '' @ what)", OF sv]
      by (cases "map_of data k") (simp_all add: keeps_def)
  qed
  show "keeps (\<lambda>s. files (fst s) q) (FileSaltStore_PutSalt f e p v)"
    unfolding FileSaltStore_PutSalt_def
  proof (rule keeps_load_then)
    fix data
    let ?k = "saltFileKey e p v"
    show "keeps (\<lambda>s. files (fst s) q) (\<lambda>(d, ent). if map_of data ?k \<noteq> None
       then (Inl (salt_exists_error e p v), (d, ent))
       else case rand_read Keystore.MinSaltBytes ent of
              (Inl err, ent') \<Rightarrow> (Inl (wrap ''keystore: generating salt'' err), (d, ent'))
            | (Inr salt, ent') \<Rightarrow> (case save f (AList.update ?k salt data) (d, ent') of
                   (Inl err, s) \<Rightarrow> (Inl err, s) | (Inr _, s) \<Rightarrow> (Inr salt, s)))"
      using keeps_after_draw [where n = Keystore.MinSaltBytes and e = "wrap ''keystore: generating salt''", OF sv]
      by (cases "map_of data ?k") (simp_all add: keeps_def)
  qed
qed

text \<open>The three files are different, and none is the temporary file of another.\<close>

definition apart :: "fileStore \<Rightarrow> fileStore \<Rightarrow> bool" where
  "apart f g \<longleftrightarrow> fs_path g \<notin> {fs_path f, tmp_path f} \<and> fs_path f \<notin> {fs_path g, tmp_path g}"

definition wired_hooks ::
  "'n Client \<Rightarrow> (string \<Rightarrow> string \<Rightarrow> string \<Rightarrow> (string \<Rightarrow> string list) \<Rightarrow> ('n, goerr, string) act) \<Rightarrow> string
   \<Rightarrow> fileStore \<Rightarrow> fileStore \<Rightarrow> fileStore \<Rightarrow> 'n bridge Hooks" where
  "wired_hooks ipfs submit tenantID fk fsl fd =
     wire_hooks ipfs submit tenantID
       \<lparr>GetOrCreateEmployeeKey = FileEmployeeKeyStore_GetOrCreateEmployeeKey fk,
        DeleteEmployeeKey = FileEmployeeKeyStore_DeleteEmployeeKey fk\<rparr>
       \<lparr>PutSalt = FileSaltStore_PutSalt fsl, GetSalt = FileSaltStore_GetSalt fsl,
        DeleteAllSaltsForEmployee = FileSaltStore_DeleteAllSaltsForEmployee fsl\<rparr>
       \<lparr>GetOrCreateDocumentKey = FileDocumentKeyStore_GetOrCreateDocumentKey fd,
        DeleteDocumentKey = FileDocumentKeyStore_DeleteDocumentKey fd\<rparr>"

definition ok_salts :: "fileStore \<Rightarrow> file_state \<Rightarrow> recordKey \<rightharpoonup> string" where
  "ok_salts f s = (\<lambda>(e, p, v). if nul_free e \<and> nul_free p then file_salts f s (e, p, v) else None)"

definition wired_view :: "fileStore \<Rightarrow> fileStore \<Rightarrow> fileStore \<Rightarrow> 'n bridge \<Rightarrow> hook_view" where
  "wired_view fk fsl fd s =
     \<lparr>v_keys = file_view fk (b_fs s), v_docs = file_view fd (b_fs s), v_salts = ok_salts fsl (b_fs s),
      v_vals = op_view (b_op s)\<rparr>"

definition wired_inv :: "fileStore \<Rightarrow> fileStore \<Rightarrow> fileStore \<Rightarrow> 'n bridge \<Rightarrow> bool" where
  "wired_inv fk fsl fd s \<longleftrightarrow>
     file_inv fk (b_fs s) \<and> file_inv fsl (b_fs s) \<and> file_inv fd (b_fs s)
     \<and> apart fk fsl \<and> apart fk fd \<and> apart fsl fd"

lemma other_file:
  assumes "keeps (\<lambda>s. files (fst s) (fs_path g)) m" and "m s = (r, s')" and "file_inv f s'" and "file_inv g s"
  shows "file_inv g s' \<and> file_view g s' = file_view g s"
proof -
  have "file_data g (fst s') = file_data g (fst s)"
    using keepsD [OF assms(1,2)] by (simp add: file_data_def)
  with assms(3,4) show ?thesis by (simp add: file_inv_def file_view_def)
qed

lemmas file_store_defs =
  FileEmployeeKeyStore_GetOrCreateEmployeeKey_def FileEmployeeKeyStore_DeleteEmployeeKey_def
  FileDocumentKeyStore_GetOrCreateDocumentKey_def FileDocumentKeyStore_DeleteDocumentKey_def

lemmas wired_defs = wired_hooks_def wire_hooks_def

text \<open>What an operation on one of the three files does to the whole.\<close>

lemma ok_salts_cong: "file_salts f s' = file_salts f s \<Longrightarrow> ok_salts f s' = ok_salts f s"
  unfolding ok_salts_def by (rule arg_cong [where f = "\<lambda>g. \<lambda>(e, p, v). if nul_free e \<and> nul_free p then g (e, p, v) else None"])

lemma other_files:
  assumes "apart f g" and "file_inv g s" and "m s = (r, s')" and "file_inv f s'"
    and "\<And>q. q \<notin> {fs_path f, tmp_path f} \<Longrightarrow> keeps (\<lambda>s. files (fst s) q) m"
  shows "file_inv g s'" and "file_view g s' = file_view g s" and "ok_salts g s' = ok_salts g s"
proof -
  have "keeps (\<lambda>s. files (fst s) (fs_path g)) m" using assms(1) by (intro assms(5)) (simp add: apart_def)
  from other_file [OF this assms(3,4,2)] show v: "file_inv g s'" "file_view g s' = file_view g s" by simp_all
  then show "ok_salts g s' = ok_salts g s" by (intro ok_salts_cong) (simp add: file_salts_def)
qed

lemma apart_sym: "apart f g \<Longrightarrow> apart g f"
  by (auto simp: apart_def)

lemma on_files_E:
  assumes "on_files m s = (r, s')"
  obtains x where "m (b_fs s) = (r, x)" "s' = s\<lparr>b_fs := x\<rparr>"
  using assms by (auto simp: on_files_def on_part_def split: prod.splits)

lemma on_key_file:
  assumes "wired_inv fk fsl fd s" and "m (b_fs s) = (r, x)" and "file_inv fk x" and "file_view fk x = V"
    and "\<And>q. q \<notin> {fs_path fk, tmp_path fk} \<Longrightarrow> keeps (\<lambda>s. files (fst s) q) m"
  shows "wired_inv fk fsl fd (s\<lparr>b_fs := x\<rparr>)
    \<and> wired_view fk fsl fd (s\<lparr>b_fs := x\<rparr>) = (wired_view fk fsl fd s)\<lparr>v_keys := V\<rparr>"
  using assms(1,3,4) other_files [of fk fsl, OF _ _ assms(2,3,5)] other_files [of fk fd, OF _ _ assms(2,3,5)]
  by (simp add: wired_inv_def wired_view_def)

lemma on_doc_file:
  assumes "wired_inv fk fsl fd s" and "m (b_fs s) = (r, x)" and "file_inv fd x" and "file_view fd x = V"
    and "\<And>q. q \<notin> {fs_path fd, tmp_path fd} \<Longrightarrow> keeps (\<lambda>s. files (fst s) q) m"
  shows "wired_inv fk fsl fd (s\<lparr>b_fs := x\<rparr>)
    \<and> wired_view fk fsl fd (s\<lparr>b_fs := x\<rparr>) = (wired_view fk fsl fd s)\<lparr>v_docs := V\<rparr>"
  using assms(1,3,4) other_files [of fd fsl, OF _ _ assms(2,3,5)] other_files [of fd fk, OF _ _ assms(2,3,5)]
  by (simp add: wired_inv_def wired_view_def apart_sym)

lemma on_salt_file:
  assumes "wired_inv fk fsl fd s" and "m (b_fs s) = (r, x)" and "file_inv fsl x" and "ok_salts fsl x = V"
    and "\<And>q. q \<notin> {fs_path fsl, tmp_path fsl} \<Longrightarrow> keeps (\<lambda>s. files (fst s) q) m"
  shows "wired_inv fk fsl fd (s\<lparr>b_fs := x\<rparr>)
    \<and> wired_view fk fsl fd (s\<lparr>b_fs := x\<rparr>) = (wired_view fk fsl fd s)\<lparr>v_salts := V\<rparr>"
  using assms(1,3,4) other_files [of fsl fk, OF _ _ assms(2,3,5)] other_files [of fsl fd, OF _ _ assms(2,3,5)]
  by (simp add: wired_inv_def wired_view_def apart_sym)

lemma ComputeEmployeeID_nul_free: "ComputeEmployeeID key = Inr e \<Longrightarrow> nul_free e"
  by (auto simp: ComputeEmployeeID_def nul_free_def is_hexdig_def split: if_splits dest: hex_encode_set)

lemma section_nul_free: "p \<in> set AllProfileSections \<Longrightarrow> nul_free p"
  by (auto simp: AllProfileSections_def nul_free_def)

lemma EncryptAndAdd_entropy:
  assumes "EncryptAndAdd c k d (n, ent) = (r, (n', ent'))" and "wf_entropy ent"
  shows "wf_entropy ent'"
  using assms
  by (auto simp: EncryptAndAdd_def encrypt_def ipfs_add_def split: prod.splits sum.splits if_splits option.splits
      dest!: rand_read_wf')

text \<open>The three salt laws, for the view restricted to identifiers without NUL.\<close>

lemma PutSalt_ok_salts:
  assumes "file_inv f s" "nul_free e" "nul_free p" "FileSaltStore_PutSalt f e p v s = (r, s')"
  shows "file_inv f s' \<and> ok_salts f s' = (case r of Inl err \<Rightarrow> ok_salts f s | Inr x \<Rightarrow> (ok_salts f s)((e, p, v) \<mapsto> x))
    \<and> (\<forall>x. r = Inr x \<longrightarrow> ok_salts f s (e, p, v) = None)"
proof (cases r)
  case (Inl err)
  with file_salt.put_err [OF assms(1), of e p v err s'] assms(4) show ?thesis by (auto intro!: ok_salts_cong)
next
  case (Inr x)
  with file_salt.put_ok [OF assms(1-3)] assms(4) have "file_inv f s'" "file_salts f s (e, p, v) = None"
    "nul_free e' \<Longrightarrow> nul_free p' \<Longrightarrow> file_salts f s' (e', p', v')
       = (if (e', p', v') = (e, p, v) then Some x else file_salts f s (e', p', v'))" for e' p' v' by blast+
  with Inr assms(2,3) show ?thesis by (auto simp: ok_salts_def fun_eq_iff)
qed

lemma DeleteAll_ok_salts:
  assumes "file_inv f s" "nul_free e" "FileSaltStore_DeleteAllSaltsForEmployee f e s = (r, s')"
  shows "file_inv f s' \<and> ok_salts f s' = (case r of Inl err \<Rightarrow> ok_salts f s
     | Inr u \<Rightarrow> (\<lambda>k. if fst k = e then None else ok_salts f s k))"
proof (cases r)
  case (Inl err)
  with file_salt.delete_all_err [OF assms(1), of e err s'] assms(3) show ?thesis by (auto intro!: ok_salts_cong)
next
  case (Inr u)
  with file_salt.delete_all_ok [OF assms(1,2)] assms(3) have "file_inv f s'"
    "nul_free e' \<Longrightarrow> nul_free p' \<Longrightarrow> file_salts f s' (e', p', v')
       = (if e' = e then None else file_salts f s (e', p', v'))" for e' p' v' by blast+
  with Inr show ?thesis by (auto simp: ok_salts_def fun_eq_iff)
qed

interpretation wired: hooks_env "wired_hooks ipfs submit tenantID fk fsl fd" "wired_view fk fsl fd"
  "wired_inv fk fsl fd" nul_free for ipfs submit tenantID fk fsl fd
proof
  let ?h = "wired_hooks ipfs submit tenantID fk fsl fd"
  fix s i sec x rv s'
  assume "wired_inv fk fsl fd s" "sec \<in> set AllProfileSections" "SaveSection (Store ?h) i sec x s = (rv, s')"
  then show "wired_inv fk fsl fd s' \<and> (case rv of Inl e \<Rightarrow> wired_view fk fsl fd s' = wired_view fk fsl fd s
      | Inr v \<Rightarrow> wired_view fk fsl fd s' = (wired_view fk fsl fd s)\<lparr>v_vals := (v_vals (wired_view fk fsl fd s))((i, sec) \<mapsto> x)\<rparr>)"
    by (auto simp: wired_defs on_part_def InMemoryOperationalStore_SaveSection_def Let_def wired_inv_def
        wired_view_def intro!: op_view_upd)
next
  let ?h = "wired_hooks ipfs submit tenantID fk fsl fd"
  fix s i sec ru s'
  assume "wired_inv fk fsl fd s" "sec \<in> set AllProfileSections" "DeleteSection (Store ?h) i sec s = (ru, s')"
  then show "wired_inv fk fsl fd s' \<and> (case ru of Inl e \<Rightarrow> wired_view fk fsl fd s' = wired_view fk fsl fd s
      | Inr u \<Rightarrow> wired_view fk fsl fd s' = (wired_view fk fsl fd s)\<lparr>v_vals := (v_vals (wired_view fk fsl fd s))((i, sec) := None)\<rparr>)"
    by (auto simp: wired_defs on_part_def InMemoryOperationalStore_DeleteSection_def wired_inv_def
        wired_view_def intro!: op_view_upd)
next
  let ?h = "wired_hooks ipfs submit tenantID fk fsl fd" and ?m = "file_GetOrCreate ''employeeKey_i'' fk"
  fix s k r s'
  assume inv: "wired_inv fk fsl fd s" and "GetOrCreateEmployeeKey (Keys ?h) k s = (r, s')"
  then obtain x where x: "?m k (b_fs s) = (r, x)" "s' = s\<lparr>b_fs := x\<rparr>"
    by (auto simp: wired_defs file_store_defs elim: on_files_E)
  from file_GetOrCreate_ok [OF _ x(1)] inv
  have k: "file_inv fk x" "case r of Inl e \<Rightarrow> file_view fk x = file_view fk (b_fs s)
      | Inr v \<Rightarrow> file_view fk x = (file_view fk (b_fs s))(k \<mapsto> v) \<and> file_view fk (b_fs s) k \<in> {None, Some v}"
    by (auto simp: wired_inv_def split: sum.splits)
  from on_key_file [OF inv x(1) k(1) refl file_ops_keep(1)] k(2) x(2)
  show "wired_inv fk fsl fd s' \<and> (case r of Inl e \<Rightarrow> wired_view fk fsl fd s' = wired_view fk fsl fd s
      | Inr v \<Rightarrow> wired_view fk fsl fd s' = (wired_view fk fsl fd s)\<lparr>v_keys := (v_keys (wired_view fk fsl fd s))(k \<mapsto> v)\<rparr>
          \<and> (v_keys (wired_view fk fsl fd s) k = None \<or> v_keys (wired_view fk fsl fd s) k = Some v))"
    by (cases r) (auto simp: wired_view_def)
next
  let ?h = "wired_hooks ipfs submit tenantID fk fsl fd"
  fix s k r s'
  assume inv: "wired_inv fk fsl fd s" and "DeleteEmployeeKey (Keys ?h) k s = (r, s')"
  then obtain x where x: "file_Delete fk k (b_fs s) = (r, x)" "s' = s\<lparr>b_fs := x\<rparr>"
    by (auto simp: wired_defs file_store_defs elim: on_files_E)
  from file_Delete_ok [OF _ x(1)] inv have k: "file_inv fk x"
    "file_view fk x = (case r of Inl e \<Rightarrow> file_view fk (b_fs s) | Inr _ \<Rightarrow> (file_view fk (b_fs s))(k := None))"
    by (auto simp: wired_inv_def)
  from on_key_file [OF inv x(1) k file_ops_keep(2)] x(2)
  show "wired_inv fk fsl fd s' \<and> (case r of Inl e \<Rightarrow> wired_view fk fsl fd s' = wired_view fk fsl fd s
      | Inr u \<Rightarrow> wired_view fk fsl fd s' = (wired_view fk fsl fd s)\<lparr>v_keys := (v_keys (wired_view fk fsl fd s))(k := None)\<rparr>)"
    by (cases r) (auto simp: wired_view_def)
next
  let ?h = "wired_hooks ipfs submit tenantID fk fsl fd"
  fix s e p v r s'
  assume inv: "wired_inv fk fsl fd s" and ok: "nul_free e" "nul_free p" and "PutSalt (Salts ?h) e p v s = (r, s')"
  then obtain x where x: "FileSaltStore_PutSalt fsl e p v (b_fs s) = (r, x)" "s' = s\<lparr>b_fs := x\<rparr>"
    by (auto simp: wired_defs elim: on_files_E)
  from PutSalt_ok_salts [OF _ ok x(1)] inv have k: "file_inv fsl x"
    "ok_salts fsl x = (case r of Inl err \<Rightarrow> ok_salts fsl (b_fs s) | Inr y \<Rightarrow> (ok_salts fsl (b_fs s))((e, p, v) \<mapsto> y))"
    "\<forall>y. r = Inr y \<longrightarrow> ok_salts fsl (b_fs s) (e, p, v) = None"
    by (auto simp: wired_inv_def)
  from on_salt_file [OF inv x(1) k(1,2) file_ops_keep(3)] k(3) x(2)
  show "wired_inv fk fsl fd s' \<and> (case r of Inl err \<Rightarrow> wired_view fk fsl fd s' = wired_view fk fsl fd s
      | Inr y \<Rightarrow> wired_view fk fsl fd s' = (wired_view fk fsl fd s)\<lparr>v_salts := (v_salts (wired_view fk fsl fd s))((e, p, v) \<mapsto> y)\<rparr>
          \<and> v_salts (wired_view fk fsl fd s) (e, p, v) = None)"
    by (cases r) (auto simp: wired_view_def)
next
  let ?h = "wired_hooks ipfs submit tenantID fk fsl fd"
  fix s e r s'
  assume inv: "wired_inv fk fsl fd s" and ok: "nul_free e" and "DeleteAllSaltsForEmployee (Salts ?h) e s = (r, s')"
  then obtain x where x: "FileSaltStore_DeleteAllSaltsForEmployee fsl e (b_fs s) = (r, x)" "s' = s\<lparr>b_fs := x\<rparr>"
    by (auto simp: wired_defs elim: on_files_E)
  from DeleteAll_ok_salts [OF _ ok x(1)] inv have k: "file_inv fsl x"
    "ok_salts fsl x = (case r of Inl err \<Rightarrow> ok_salts fsl (b_fs s) | Inr u \<Rightarrow> (\<lambda>k. if fst k = e then None else ok_salts fsl (b_fs s) k))"
    by (auto simp: wired_inv_def)
  from on_salt_file [OF inv x(1) k file_ops_keep(4)] x(2)
  show "wired_inv fk fsl fd s' \<and> (case r of Inl err \<Rightarrow> wired_view fk fsl fd s' = wired_view fk fsl fd s
      | Inr u \<Rightarrow> wired_view fk fsl fd s' = (wired_view fk fsl fd s)\<lparr>v_salts := (\<lambda>k. if fst k = e then None else v_salts (wired_view fk fsl fd s) k)\<rparr>)"
    by (cases r) (auto simp: wired_view_def cong: if_cong)
next
  let ?h = "wired_hooks ipfs submit tenantID fk fsl fd" and ?m = "file_GetOrCreate ''KEY_EMPLOYEE'' fd"
  fix s dk k r s'
  assume inv: "wired_inv fk fsl fd s" and "DocumentKeys ?h = Some dk" "GetOrCreateDocumentKey dk k s = (r, s')"
  then have "on_files (?m k) s = (r, s')" by (auto simp: wired_defs file_store_defs)
  then obtain x where x: "?m k (b_fs s) = (r, x)" "s' = s\<lparr>b_fs := x\<rparr>" by (rule on_files_E)
  from file_GetOrCreate_ok [OF _ x(1)] inv
  have k: "file_inv fd x" "case r of Inl e \<Rightarrow> file_view fd x = file_view fd (b_fs s)
      | Inr v \<Rightarrow> file_view fd x = (file_view fd (b_fs s))(k \<mapsto> v)"
    by (auto simp: wired_inv_def split: sum.splits)
  from on_doc_file [OF inv x(1) k(1) refl file_ops_keep(1)] k(2) x(2)
  show "wired_inv fk fsl fd s' \<and> (case r of Inl e \<Rightarrow> wired_view fk fsl fd s' = wired_view fk fsl fd s
      | Inr v \<Rightarrow> wired_view fk fsl fd s' = (wired_view fk fsl fd s)\<lparr>v_docs := (v_docs (wired_view fk fsl fd s))(k \<mapsto> v)\<rparr>)"
    by (cases r) (auto simp: wired_view_def)
next
  let ?h = "wired_hooks ipfs submit tenantID fk fsl fd"
  fix s dk k r s'
  assume inv: "wired_inv fk fsl fd s" and "DocumentKeys ?h = Some dk" "DeleteDocumentKey dk k s = (r, s')"
  then have "on_files (file_Delete fd k) s = (r, s')" by (auto simp: wired_defs file_store_defs)
  then obtain x where x: "file_Delete fd k (b_fs s) = (r, x)" "s' = s\<lparr>b_fs := x\<rparr>" by (rule on_files_E)
  from file_Delete_ok [OF _ x(1)] inv have k: "file_inv fd x"
    "file_view fd x = (case r of Inl e \<Rightarrow> file_view fd (b_fs s) | Inr _ \<Rightarrow> (file_view fd (b_fs s))(k := None))"
    by (auto simp: wired_inv_def)
  from on_doc_file [OF inv x(1) k file_ops_keep(2)] x(2)
  show "wired_inv fk fsl fd s' \<and> (case r of Inl e \<Rightarrow> wired_view fk fsl fd s' = wired_view fk fsl fd s
      | Inr u \<Rightarrow> wired_view fk fsl fd s' = (wired_view fk fsl fd s)\<lparr>v_docs := (v_docs (wired_view fk fsl fd s))(k := None)\<rparr>)"
    by (cases r) (auto simp: wired_view_def)
next
  let ?h = "wired_hooks ipfs submit tenantID fk fsl fd"
  fix s add k d r s'
  assume inv: "wired_inv fk fsl fd s" and "IPFS ?h = Some add" "add k d s = (r, s')"
  then obtain n ent where x: "EncryptAndAdd ipfs k d (b_net s, snd (b_fs s)) = (r, (n, ent))"
    "s' = s\<lparr>b_net := n, b_fs := (fst (b_fs s), ent)\<rparr>"
    by (auto simp: wired_defs on_ipfs_def split: prod.splits)
  from inv have "wf_entropy (snd (b_fs s))" by (simp add: wired_inv_def file_inv_def)
  from EncryptAndAdd_entropy [OF x(1) this] inv x(2)
  show "wired_inv fk fsl fd s' \<and> wired_view fk fsl fd s' = wired_view fk fsl fd s"
    by (auto simp: wired_inv_def wired_view_def file_inv_def file_view_def intro!: ok_salts_cong
        simp: file_salts_def)
next
  let ?h = "wired_hooks ipfs submit tenantID fk fsl fd"
  fix s t e p b r s'
  assume "wired_inv fk fsl fd s" "LedgerAnchorer ?h t e p b s = (r, s')"
  then show "wired_inv fk fsl fd s' \<and> wired_view fk fsl fd s' = wired_view fk fsl fd s"
    by (auto simp: wired_defs on_part_def wired_inv_def wired_view_def split: prod.splits)
next
  let ?h = "wired_hooks ipfs submit tenantID fk fsl fd"
  fix s f i p v err
  assume "OnPartialFailure ?h = Some f"
  then show "wired_inv fk fsl fd (f i p v err s) \<and> wired_view fk fsl fd (f i p v err s) = wired_view fk fsl fd s"
    by (simp add: wired_defs)
qed (simp_all add: ComputeEmployeeID_nul_free section_nul_free)

section \<open>Properties of the wired bridge\<close>

definition keystore_file :: "Config \<Rightarrow> string \<Rightarrow> string \<Rightarrow> fileStore" where
  "keystore_file cfg key name = \<lparr>fs_path = path_join (KeystoreDir cfg) name, fs_key = key\<rparr>"

lemma fs_key_keystore_file [simp]: "fs_key (keystore_file cfg key m) = key"
  by (simp add: keystore_file_def)

lemma keystore_files_apart:
  assumes "KeystoreDir cfg \<noteq> []"
    and "{m, n} \<subseteq> {''employee-keys.enc'', ''salts.enc'', ''document-keys.enc''}" and "m \<noteq> n"
  shows "apart (keystore_file cfg key m) (keystore_file cfg key n)"
proof -
  have f: "file_name m" "file_name n" using assms(2) by (auto simp: file_name_def)
  have "path_join (KeystoreDir cfg) a \<noteq> path_join (KeystoreDir cfg) b"
    "path_join (KeystoreDir cfg) a \<noteq> path_join (KeystoreDir cfg) b @ ''.tmp''"
    if "{a, b} = {m, n}" for a b
  proof -
    have "file_name a" "file_name b" "a \<noteq> b" "a \<noteq> b @ ''.tmp''"
      using that f assms(2,3) by (auto simp: doubleton_eq_iff)
    then show "path_join (KeystoreDir cfg) a \<noteq> path_join (KeystoreDir cfg) b"
      "path_join (KeystoreDir cfg) a \<noteq> path_join (KeystoreDir cfg) b @ ''.tmp''"
      using path_join_inject [OF assms(1), of a b "[]"] path_join_inject [OF assms(1), of a b "''.tmp''"] by auto
  qed
  from this [of m n] this [of n m] show ?thesis
    by (auto simp: apart_def keystore_file_def tmp_path_def)
qed

text \<open>C32: Start-up establishes the invariant the hooks rely on. When \<open>buildHooks\<close> succeeds for a
  configuration with a key store directory, the hooks are wired to three different files,
  none the temporary file of another, under a 32-byte key; all ports are set, so no hook
  call can run into a nil interface; and when each file is absent or decrypts under this
  key to a map, the invariant of the wiring holds.\<close>

theorem start_up_establishes_invariant:
  assumes "buildHooks http submit cfg newGW n = (Inr (h, op, gw), n')" and "KeystoreDir cfg \<noteq> []"
    and "disk_ok d" and "wf_entropy ent"
  shows "\<exists>key fk fsl fd ipfs. hex_decode (KeystoreEncryptionKeyHex cfg) = Some key \<and> length key = 32
    \<and> fk = keystore_file cfg key ''employee-keys.enc'' \<and> fsl = keystore_file cfg key ''salts.enc''
    \<and> fd = keystore_file cfg key ''document-keys.enc''
    \<and> h = wired_hooks ipfs (submit gw) (cfg_TenantID cfg) fk fsl fd
    \<and> DocumentKeys h \<noteq> None \<and> IPFS h \<noteq> None
    \<and> ((\<forall>f\<in>{fk, fsl, fd}. \<exists>data. file_data f d = Inr data \<and> distinct (map fst data)) \<longrightarrow>
         wired_inv fk fsl fd \<lparr>b_op = op, b_fs = (d, ent), b_net = n'\<rparr>)"
proof -
  let ?ipfs = "NewIpfsClient http (IPFSPrimaryAPI cfg) (IPFSReplicaAPI cfg)"
  from assms(1) obtain key where key: "hex_decode (KeystoreEncryptionKeyHex cfg) = Some key" "length key = 32"
    and h: "h = wired_hooks ?ipfs (submit gw) (cfg_TenantID cfg) (keystore_file cfg key ''employee-keys.enc'')
       (keystore_file cfg key ''salts.enc'') (keystore_file cfg key ''document-keys.enc'')"
    unfolding buildHooks_def
    by (auto simp: NewFileEmployeeKeyStore_def NewFileSaltStore_def NewFileDocumentKeyStore_def newFileStore_def
        wired_hooks_def keystore_file_def elim!: bindE_InrE dest!: mapErr_InrD split: option.splits if_splits)
  have ap: "apart (keystore_file cfg key ''employee-keys.enc'') (keystore_file cfg key ''salts.enc'')"
    "apart (keystore_file cfg key ''employee-keys.enc'') (keystore_file cfg key ''document-keys.enc'')"
    "apart (keystore_file cfg key ''salts.enc'') (keystore_file cfg key ''document-keys.enc'')"
    by (rule keystore_files_apart [OF assms(2)]; simp)+
  have "DocumentKeys h \<noteq> None \<and> IPFS h \<noteq> None" by (simp add: h wired_defs)
  then show ?thesis
    by (intro exI [of _ key] exI [of _ "keystore_file cfg key ''employee-keys.enc''"]
        exI [of _ "keystore_file cfg key ''salts.enc''"] exI [of _ "keystore_file cfg key ''document-keys.enc''"]
        exI [of _ ?ipfs]) (use key h ap assms(3,4) in \<open>simp add: wired_inv_def file_inv_def\<close>)
qed

text \<open>A configuration with a key of 32 bytes, a gateway that connects, and an empty disk.\<close>

definition demo_cfg :: Config where
  "demo_cfg = (read_config (\<lambda>k. ''x''))\<lparr>KeystoreDir := ''/keys'', KeystoreEncryptionKeyHex := replicate 64 (CHR ''0'')\<rparr>"

definition demo_http_down :: "unit http" where
  "demo_http_down = \<lparr>NewRequest_check = (\<lambda>u. Inr ()), Do = (\<lambda>r. throwE (Plain ''down''))\<rparr>"

definition demo_disk :: disk where
  "demo_disk = \<lparr>files = Map.empty, fault = (\<lambda>_. None), ops = 0\<rparr>"

lemma hex_decode_zeros: "hex_decode (replicate (2 * n) (CHR ''0'')) = Some (replicate n (CHR 0x00))"
  by (induction n) (simp_all add: hex_val_def char_of_def)

lemma demo_key: "hex_decode (KeystoreEncryptionKeyHex demo_cfg) = Some (replicate 32 (CHR 0x00))"
  using hex_decode_zeros [of 32] by (simp add: demo_cfg_def)

lemma demo_build: "\<exists>h op. buildHooks demo_http_down (\<lambda>gw t e p b. returnE ''ok'') demo_cfg
    (\<lambda>a b c d e f g h i j. returnE ()) () = (Inr (h, op, ()), ())"
  by (simp add: buildHooks_def bindE_def mapErr_def demo_key NewFileEmployeeKeyStore_def NewFileSaltStore_def
      NewFileDocumentKeyStore_def newFileStore_def)

lemma demo_disk_ok: "disk_ok demo_disk" "wf_entropy demo_random"
  by (simp_all add: disk_ok_def demo_disk_def wf_entropy_def demo_random_def)

theorem start_up_establishes_invariant_witness:
  "\<exists>h op fk fsl fd ipfs. buildHooks demo_http_down (\<lambda>gw t e p b. returnE ''ok'') demo_cfg
        (\<lambda>a b c d e f g h i j. returnE ()) () = (Inr (h, op, ()), ())
     \<and> h = wired_hooks ipfs (\<lambda>t e p b. returnE ''ok'') ''x'' fk fsl fd
     \<and> wired_inv fk fsl fd \<lparr>b_op = op, b_fs = (demo_disk, demo_random), b_net = ()\<rparr>"
proof -
  obtain h op where run: "buildHooks demo_http_down (\<lambda>gw t e p b. returnE ''ok'') demo_cfg
    (\<lambda>a b c d e f g h i j. returnE ()) () = (Inr (h, op, ()), ())" using demo_build by blast
  have dir: "KeystoreDir demo_cfg \<noteq> []" by (simp add: demo_cfg_def)
  have empty: "\<exists>data. file_data f demo_disk = Inr data \<and> distinct (map fst data)" for f
    by (simp add: file_data_def demo_disk_def)
  have t: "cfg_TenantID demo_cfg = ''x''" by (simp add: demo_cfg_def read_config_def)
  from start_up_establishes_invariant [OF run dir demo_disk_ok] empty run t show ?thesis by metis
qed

text \<open>A committed write is durable. When a hook of the wired bridge succeeds, the employee's
  key and the salt of the version are in the encrypted files, the ledger accepted the digest
  of exactly the stored value under that salt, and none of this depends on the memory of the
  process: after a restart, with an empty operational store, the same key and salt are on
  file and the invariant holds. A key that was on file before is not replaced, and no salt of
  another version changes.\<close>

lemma wired_commit:
  assumes "wired_inv fk fsl fd s" and "sec \<in> set AllProfileSections"
    and "save_and_anchor sec T (wired_hooks ipfs submit t fk fsl fd) i user recid x doc s = (Inr res, s')"
  shows "\<exists>key e salt hash upd cids n. ComputeEmployeeID key = Inr e \<and> ComputeDataHash T salt x = Inr hash
    \<and> submit t e sec (build_args t e sec hash upd cids) n = (Inr res, b_net s')
    \<and> vals (b_op s') (op_key i sec) = Some x
    \<and> file_view fk (b_fs s) (key_lookup_id i recid) \<in> {None, Some key}
    \<and> (\<forall>v. v \<noteq> next_op_version (b_op s) (op_key i sec) \<longrightarrow>
         file_salts fsl (b_fs s') (e, sec, v) = file_salts fsl (b_fs s) (e, sec, v))
    \<and> (\<forall>op net. let s'' = s'\<lparr>b_op := op, b_net := net\<rparr> in
         wired_inv fk fsl fd s''
         \<and> file_view fk (b_fs s'') (key_lookup_id i recid) = Some key
         \<and> file_salts fsl (b_fs s'') (e, sec, next_op_version (b_op s) (op_key i sec)) = Some salt)"
proof -
  let ?h = "wired_hooks ipfs submit t fk fsl fd" and ?v = "next_op_version (b_op s) (op_key i sec)"
  from assms(3) obtain v s1 where sv: "SaveSection (Store ?h) i sec x s = (Inr v, s1)"
    and an: "anchor T ?h i user sec recid x v doc s1 = (Inr res, s')"
    unfolding save_and_anchor_def by (auto elim!: bindE_InrE dest!: mapErr_InrD)
  have v: "v = ?v"
    using sv by (auto simp: wired_defs on_part_def InMemoryOperationalStore_SaveSection_def Let_def)
  from wired.save_law [OF assms(1,2) sv] have s1: "wired_inv fk fsl fd s1"
    "v_vals (wired_view fk fsl fd s1) (i, sec) = Some x" "b_fs s1 = b_fs s"
    using sv by (simp_all add: wired_defs on_part_def InMemoryOperationalStore_SaveSection_def Let_def) auto
  from an have "doAnchor T ?h i user sec recid x v doc s1 = (Inr res, s')"
    by (auto simp: anchor_def Let_def split: prod.splits sum.splits if_splits option.splits)
  from wired.doAnchor_success [OF s1(1) this assms(2)] obtain key e salt hash upd cids s2 where
    k: "wired_inv fk fsl fd s'" "v_keys (wired_view fk fsl fd s') (key_lookup_id i recid) = Some key"
    "ComputeEmployeeID key = Inr e" "v_salts (wired_view fk fsl fd s') (e, sec, v) = Some salt"
    "ComputeDataHash T salt x = Inr hash" "v_vals (wired_view fk fsl fd s') = v_vals (wired_view fk fsl fd s1)"
    "v_keys (wired_view fk fsl fd s1) (key_lookup_id i recid) \<in> {None, Some key}"
    and salts: "v_salts (wired_view fk fsl fd s') = (v_salts (wired_view fk fsl fd s1))((e, sec, v) \<mapsto> salt)"
    and l: "LedgerAnchorer ?h (Hooks_TenantID ?h) e sec (build_args (Hooks_TenantID ?h) e sec hash upd cids) s2
      = (Inr res, s')" by blast
  from l obtain n where "submit t e sec (build_args t e sec hash upd cids) n = (Inr res, b_net s')"
    by (auto simp: wired_defs on_part_def split: prod.splits)
  moreover have "vals (b_op s') (op_key i sec) = Some x"
    using fun_cong [OF k(6), of "(i, sec)"] s1(2) assms(2) by (simp add: wired_view_def op_view_def)
  moreover have "file_salts fsl (b_fs s') (e, sec, ?v) = Some salt"
    using k(4) v by (simp add: wired_view_def ok_salts_def split: if_splits)
  moreover have "file_salts fsl (b_fs s') (e, sec, u) = file_salts fsl (b_fs s) (e, sec, u)" if "u \<noteq> ?v" for u
    using fun_cong [OF salts, of "(e, sec, u)"] that v s1(3) ComputeEmployeeID_nul_free [OF k(3)] section_nul_free [OF assms(2)]
    by (simp add: wired_view_def ok_salts_def)
  moreover have "file_view fk (b_fs s) (key_lookup_id i recid) \<in> {None, Some key}"
    using k(7) s1(3) by (simp add: wired_view_def)
  ultimately show ?thesis using k by (simp add: wired_view_def wired_inv_def Let_def) blast
qed

lemma wired_doAnchor_keeps_op: "keeps b_op (doAnchor T (wired_hooks ipfs submit t fk fsl fd) i u p r x v d)"
  unfolding doAnchor_def ResolveEmployeeKey_def anchor_document_def
  by (auto simp: wired_defs on_files_def intro!: keeps_on_part) (auto simp: keeps_def on_ipfs_def split: prod.splits)

text \<open>A salt that is on file already stops the anchoring, before the ledger is asked.\<close>

lemma doAnchor_salt_exists:
  assumes "wired_inv fk fsl fd s" and "sec \<in> set AllProfileSections"
    and "file_view fk (b_fs s) (key_lookup_id i recid) = Some key" and "ComputeEmployeeID key = Inr e"
    and "file_salts fsl (b_fs s) (e, sec, v) = Some salt"
    and "doAnchor T (wired_hooks ipfs submit t fk fsl fd) i user sec recid x v doc s = (r, s')"
  shows "\<exists>m c. r = Inl (wrap m c)"
proof -
  let ?h = "wired_hooks ipfs submit t fk fsl fd" and ?view = "wired_view fk fsl fd"
  obtain rk s1 where k: "GetOrCreateEmployeeKey (Keys ?h) (key_lookup_id i recid) s = (rk, s1)" by (rule prod.exhaust)
  show ?thesis
  proof (cases rk)
    case (Inl c)
    with k assms(6) show ?thesis
      by (auto simp: doAnchor_def ResolveEmployeeKey_def)
  next
    case (Inr key')
    note ok = ComputeEmployeeID_nul_free [OF assms(4)] section_nul_free [OF assms(2)]
    from wired.key_law [OF assms(1) k] Inr assms(3) have key': "key' = key" "wired_inv fk fsl fd s1"
      "v_salts (?view s1) = v_salts (?view s)" by (auto simp: wired_view_def)
    obtain rs s2 where p: "PutSalt (Salts ?h) e sec v s1 = (rs, s2)" by (rule prod.exhaust)
    have "v_salts (?view s1) (e, sec, v) = Some salt"
      using key'(3) assms(5) ok by (simp add: wired_view_def ok_salts_def)
    with wired.salt_law [OF key'(2) ok p] obtain c where "rs = Inl c" by (cases rs) auto
    with k Inr key'(1) assms(4,6) p show ?thesis
      by (auto simp: doAnchor_def ResolveEmployeeKey_def bindE_def mapErr_def)
  qed
qed

text \<open>C31: A restart breaks the next write of a section. The operational store of the bridge is
  in memory and starts its versions at 1 again, while the salts are on file and are never
  overwritten. So when the first version of a section was committed before a restart, the
  next write of that section after it cannot be anchored: whatever the network does, it ends
  in a partial failure, with the new value in the operational store.\<close>

theorem restart_breaks_next_write:
  assumes "wired_inv fk fsl fd s" and "sec \<in> set AllProfileSections"
    and "ComputeEmployeeID key = Inr e" and "file_view fk (b_fs s) (key_lookup_id i recid) = Some key"
    and "file_salts fsl (b_fs s) (e, sec, 1) = Some salt"
    and "save_and_anchor sec T (wired_hooks ipfs submit t fk fsl fd) i user recid x doc
           (s\<lparr>b_op := NewInMemoryOperationalStore\<rparr>) = (r, s')"
  shows "\<exists>cause. r = Inl (PartialFailureError i sec 1 cause) \<and> vals (b_op s') (op_key i sec) = Some x"
proof -
  let ?h = "wired_hooks ipfs submit t fk fsl fd" and ?s = "s\<lparr>b_op := NewInMemoryOperationalStore\<rparr>"
  obtain s1 where sv: "SaveSection (Store ?h) i sec x ?s = (Inr 1, s1)"
    and s1: "b_fs s1 = b_fs s" "vals (b_op s1) (op_key i sec) = Some x"
    by (simp add: wired_defs on_part_def InMemoryOperationalStore_SaveSection_def Let_def next_op_version_def
        NewInMemoryOperationalStore_def is_int64_def)
  have inv: "wired_inv fk fsl fd s1" using assms(1) s1(1) by (simp add: wired_inv_def)
  obtain q s2 where d: "doAnchor T ?h i user sec recid x 1 doc s1 = (q, s2)" by (rule prod.exhaust)
  have on_file: "file_view fk (b_fs s1) (key_lookup_id i recid) = Some key" "file_salts fsl (b_fs s1) (e, sec, 1) = Some salt"
    using assms(4,5) s1(1) by simp_all
  from doAnchor_salt_exists [OF inv assms(2) on_file(1) assms(3) on_file(2) d] obtain m c where
    q: "q = Inl (wrap m c)" by blast
  have "wrap m c \<noteq> NilPointer" by (simp add: wrap_def NilPointer_def)
  with assms(6) sv d q have "r = Inl (PartialFailureError i sec 1 (wrap m c))" "s' = s2"
    by (auto simp: save_and_anchor_def bindE_def mapErr_def anchor_def Let_def wired_defs)
  with keepsD [OF wired_doAnchor_keeps_op d] s1(2) show ?thesis by simp
qed


text \<open>A disk and a random source that do not fail.\<close>

definition calm :: "file_state \<Rightarrow> bool" where
  "calm s \<longleftrightarrow> fault (fst s) = (\<lambda>i. None) \<and> source (snd s) = source demo_random"

abbreviation demo_bytes :: string where
  "demo_bytes \<equiv> replicate 16 (CHR ''r'')"

lemma calm_save:
  assumes "calm s" and "length (fs_key f) = 32" and "length (gob_encode data) < 2 ^ 62"
  shows "\<exists>s'. save f data s = (Inr (), s') \<and> calm s'"
proof -
  obtain d ent where s: "s = (d, ent)" by (cases s)
  have "length (replicate 12 (CHR ''r'') @ gcm_seal (aes_encrypt (fs_key f)) (replicate 12 (CHR ''r''))
      (gob_encode data) []) < 2 ^ 63" using assms(3) by simp
  then show ?thesis using assms(1,2)
    by (simp add: s save_def NewCipher_def rand_read_def calm_def demo_random_def NonceSize_def Let_def
        os_WriteFile_def os_Rename_def del: length_append replicate_Suc)
qed

definition tick :: "file_state \<Rightarrow> file_state" where
  "tick s = ((fst s)\<lparr>ops := ops (fst s) + 1\<rparr>, snd s)"

definition drawn :: "file_state \<Rightarrow> file_state" where
  "drawn s = (fst s, (snd s)\<lparr>draws := draws (snd s) + 1\<rparr>)"

lemma calm_simps [simp]:
  "calm (tick s) = calm s" "calm (drawn s) = calm s"
  "files (fst (tick s)) = files (fst s)" "files (fst (drawn s)) = files (fst s)"
  by (simp_all add: calm_def tick_def drawn_def)

lemma calm_load_then:
  "calm s \<Longrightarrow> file_data f (fst s) = Inr data \<Longrightarrow> load_then f k s = k data (tick s)"
  by (cases s) (auto simp: load_then_def load_def os_ReadFile_def calm_def tick_def file_data_def split: option.splits)

lemma calm_draw: "calm s \<Longrightarrow> rand_read n (snd s) = (Inr (replicate n (CHR ''r'')), snd (drawn s))"
  by (simp add: rand_read_def calm_def demo_random_def drawn_def)

lemma drawn_tick [simp]: "(fst (tick s), snd (drawn (tick s))) = drawn (tick s)"
  by (simp add: drawn_def)

lemma calm_create:
  assumes "calm s" and "length (fs_key f) = 32" and "file_data f (fst s) = Inr data"
  shows "map_of data k = None \<Longrightarrow> length (gob_encode (AList.update k demo_bytes data)) < 2 ^ 62 \<Longrightarrow>
      \<exists>s'. file_GetOrCreate what f k s = (Inr demo_bytes, s') \<and> calm s'"
    and "map_of data (saltFileKey e p v) = None \<Longrightarrow>
      length (gob_encode (AList.update (saltFileKey e p v) demo_bytes data)) < 2 ^ 62 \<Longrightarrow>
      \<exists>s'. FileSaltStore_PutSalt f e p v s = (Inr demo_bytes, s') \<and> calm s'"
proof -
  have c: "calm (drawn (tick s))" using assms(1) by simp
  note sv = calm_save [OF c assms(2)] and ld = calm_load_then [OF assms(1,3)]
  have dr: "rand_read 16 (snd (tick s)) = (Inr demo_bytes, snd (drawn (tick s)))"
    using assms(1) by (intro calm_draw) simp
  show "\<exists>s'. file_GetOrCreate what f k s = (Inr demo_bytes, s') \<and> calm s'"
    if "map_of data k = None" "length (gob_encode (AList.update k demo_bytes data)) < 2 ^ 62"
    using sv [OF that(2)] that(1) dr
    by (auto simp: file_GetOrCreate_def ld case_prod_beta MinKeyBytes_def)
  show "\<exists>s'. FileSaltStore_PutSalt f e p v s = (Inr demo_bytes, s') \<and> calm s'"
    if "map_of data (saltFileKey e p v) = None"
      "length (gob_encode (AList.update (saltFileKey e p v) demo_bytes data)) < 2 ^ 62"
    using sv [OF that(2)] that(1) dr
    by (auto simp: FileSaltStore_PutSalt_def ld case_prod_beta Keystore.MinSaltBytes_def)
qed

lemma calm_found:
  assumes "calm s" and "file_inv f s"
  shows "file_view f s k = Some x \<Longrightarrow> file_GetOrCreate what f k s = (Inr x, tick s)"
    and "file_salts f s (e, p, v) = Some x \<Longrightarrow> FileSaltStore_GetSalt f e p v s = (Inr x, tick s)"
  using assms
  by (auto simp: file_inv_def file_view_def file_salts_def file_GetOrCreate_def FileSaltStore_GetSalt_def calm_load_then
      case_prod_beta)

lemma be_min_length: "length (be_min n) \<le> n"
proof (induction n rule: less_induct)
  case (less n)
  show ?case
  proof (cases "n = 0")
    case False
    then have "n div 256 < n" by simp
    with less [OF this] False show ?thesis by (simp add: be_min.simps [of n])
  qed (simp add: be_min.simps)
qed

lemma gob_uint_length: "length (gob_uint n) \<le> Suc n"
  using be_min_length [of n] by (simp add: gob_uint_def)

lemma gob_small_entries:
  assumes "list_all (\<lambda>(k, v). length k < 100 \<and> length v < 100) data" and "length data \<le> 2"
  shows "length (gob_encode data) < 2 ^ 62"
proof -
  have one: "length (gob_bytes s) \<le> 100" if "length s < 100" for s using that by (simp add: gob_bytes_def gob_uint_def)
  consider "data = []" | a b where "data = [(a, b)]" | a b c d where "data = [(a, b), (c, d)]"
    using assms(2) by (cases data; cases "tl data"; cases "tl (tl data)") auto
  then have "length (gob_body data) \<le> 500"
  proof cases
    case (3 a b c d)
    with assms(1) one [of a] one [of b] one [of c] one [of d] show ?thesis by (simp add: gob_body_def gob_head_def gob_uint_def)
  next
    case (2 a b)
    with assms(1) one [of a] one [of b] show ?thesis by (simp add: gob_body_def gob_head_def gob_uint_def)
  qed (simp add: gob_body_def gob_head_def gob_uint_def)
  with gob_uint_length [of "length (gob_body data)"] show ?thesis by (simp add: gob_encode_def gob_bytes_def gob_type_def)
qed

text \<open>The run of a hook whose steps succeed.\<close>

lemma save_and_anchor_run:
  assumes "file_GetOrCreate ''employeeKey_i'' fk (key_lookup_id i recid) (b_fs s) = (Inr key, x1)" and "ComputeEmployeeID key = Inr e"
    and "FileSaltStore_PutSalt fsl e sec (next_op_version (b_op s) (op_key i sec)) x1 = (Inr salt, x2)"
    and "ComputeDataHash T salt x = Inr hash" and "ComputeUpdatedBy key user = Inr upd"
    and "submit t e sec (build_args t e sec hash upd ''[]'') (b_net s) = (Inr res, n)"
  shows "\<exists>op. save_and_anchor sec T (wired_hooks ipfs submit t fk fsl fd) i user recid x [] s
    = (Inr res, \<lparr>b_op = op, b_fs = x2, b_net = n\<rparr>)"
  using assms
  by (cases s) (simp add: save_and_anchor_def anchor_def doAnchor_def anchor_document_def ResolveEmployeeKey_def
      bindE_def mapErr_def wired_defs on_part_def on_files_def file_store_defs
      InMemoryOperationalStore_SaveSection_def Let_def)

abbreviation demo_file :: "string \<Rightarrow> fileStore" where
  "demo_file \<equiv> keystore_file demo_cfg (replicate 32 (CHR 0x00))"

abbreviation demo_wired :: "unit bridge Hooks" where
  "demo_wired \<equiv> wired_hooks (NewIpfsClient demo_http_down [] []) (\<lambda>t e p b. returnE ''ok'') ''x''
     (demo_file ''employee-keys.enc'') (demo_file ''salts.enc'') (demo_file ''document-keys.enc'')"

definition demo_bridge :: "unit bridge" where
  "demo_bridge = \<lparr>b_op = NewInMemoryOperationalStore, b_fs = (demo_disk, demo_random), b_net = ()\<rparr>"

abbreviation demo_wired_inv :: "unit bridge \<Rightarrow> bool" where
  "demo_wired_inv \<equiv> wired_inv (demo_file ''employee-keys.enc'') (demo_file ''salts.enc'') (demo_file ''document-keys.enc'')"

lemma demo_files_apart:
  "apart (demo_file ''employee-keys.enc'') (demo_file ''salts.enc'')"
  "apart (demo_file ''employee-keys.enc'') (demo_file ''document-keys.enc'')"
  "apart (demo_file ''salts.enc'') (demo_file ''document-keys.enc'')"
  by (rule keystore_files_apart; simp add: demo_cfg_def)+

lemma demo_bridge_inv: "demo_wired_inv demo_bridge"
  using demo_files_apart demo_disk_ok
  by (simp add: wired_inv_def file_inv_def demo_bridge_def file_data_def) (simp add: demo_disk_def)

lemma demo_ids:
  obtains e hash upd where "ComputeEmployeeID demo_bytes = Inr e" "ComputeDataHash Inr demo_bytes x = Inr hash"
    "ComputeUpdatedBy demo_bytes ''u'' = Inr upd" "length e = 64"
proof (rule that)
  show "ComputeEmployeeID demo_bytes = Inr (hex_encode (hmac_sha256 demo_bytes ''id''))" by (simp add: ComputeEmployeeID_def)
  show "ComputeDataHash Inr demo_bytes x = Inr (''sha256:'' @ hex_encode (sha256 (demo_bytes @ x)))"
    by (simp only: ComputeDataHash_Inr Digest.MinSaltBytes_def length_replicate) simp
  show "ComputeUpdatedBy demo_bytes ''u'' = Inr (hex_encode (hmac_sha256 demo_bytes (''actor'' @ ''u'')))"
    by (simp add: ComputeUpdatedBy_def)
qed simp

text \<open>A write of the section PAYROLL that finds the disk empty reaches the ledger, whatever the network and
  the operational store.\<close>

lemma fresh_write_run:
  assumes "ComputeEmployeeID demo_bytes = Inr e" "ComputeDataHash Inr demo_bytes v = Inr hash"
    "ComputeUpdatedBy demo_bytes ''u'' = Inr upd"
    and "length (key_lookup_id i recid) < 100"
    and "length (saltFileKey e ''PAYROLL'' (next_op_version op (op_key i ''PAYROLL''))) < 100"
    and "submit t e ''PAYROLL'' (build_args t e ''PAYROLL'' hash upd ''[]'') n = (Inr res, n')"
  shows "\<exists>op' x. save_and_anchor ''PAYROLL'' Inr
      (wired_hooks ipfs submit t (demo_file ''employee-keys.enc'') (demo_file ''salts.enc'') fd) i ''u'' recid v []
      \<lparr>b_op = op, b_fs = (demo_disk, demo_random), b_net = n\<rparr> = (Inr res, \<lparr>b_op = op', b_fs = x, b_net = n'\<rparr>)
    \<and> file_view (demo_file ''employee-keys.enc'') x (key_lookup_id i recid) = Some demo_bytes"
proof -
  let ?fk = "demo_file ''employee-keys.enc''" and ?fs = "demo_file ''salts.enc''" and ?s = "(demo_disk, demo_random)"
  have c: "calm ?s" and none: "file_data f (fst ?s) = Inr []" and inv: "file_inv ?fk ?s" for f
    using demo_bridge_inv by (simp_all add: calm_def demo_disk_def file_data_def wired_inv_def demo_bridge_def)
  obtain x1 where k: "file_GetOrCreate ''employeeKey_i'' ?fk (key_lookup_id i recid) ?s = (Inr demo_bytes, x1)" "calm x1"
    using calm_create(1) [OF c _ none, where f = ?fk and k = "key_lookup_id i recid" and what = "''employeeKey_i''"]
      gob_small_entries assms(4) by auto
  from file_GetOrCreate_ok [OF inv k(1)] have k1: "file_inv ?fk x1" "file_view ?fk x1 (key_lookup_id i recid) = Some demo_bytes"
    by simp_all
  have "fs_path ?fs \<notin> {fs_path ?fk, tmp_path ?fk}" using demo_files_apart(1) by (simp add: apart_def)
  from keepsD [OF file_ops_keep(1) [OF this] k(1)] have x1: "file_data ?fs (fst x1) = Inr []"
    by (simp add: file_data_def demo_disk_def)
  let ?v = "next_op_version op (op_key i ''PAYROLL'')"
  obtain x2 where p: "FileSaltStore_PutSalt ?fs e ''PAYROLL'' ?v x1 = (Inr demo_bytes, x2)"
    using calm_create(2) [OF k(2) _ x1, where e = e and p = "''PAYROLL''" and v = ?v] gob_small_entries assms(5) by auto
  have "fs_path ?fk \<notin> {fs_path ?fs, tmp_path ?fs}" using demo_files_apart(1) by (simp add: apart_def)
  from keepsD [OF file_ops_keep(3) [OF this] p] have "file_view ?fk x2 = file_view ?fk x1"
    by (simp add: file_view_def file_data_def)
  moreover have "\<exists>op'. save_and_anchor ''PAYROLL'' Inr (wired_hooks ipfs submit t ?fk ?fs fd) i ''u'' recid v []
      \<lparr>b_op = op, b_fs = ?s, b_net = n\<rparr> = (Inr res, \<lparr>b_op = op', b_fs = x2, b_net = n'\<rparr>)"
    by (rule save_and_anchor_run [OF _ assms(1) _ assms(2,3)]) (use k(1) p assms(6) in \<open>simp_all\<close>)
  ultimately show ?thesis using k1(2) by metis
qed

lemma first_write_run:
  assumes "\<And>e hash upd. ComputeEmployeeID demo_bytes = Inr e \<Longrightarrow> ComputeDataHash Inr demo_bytes ''x'' = Inr hash
      \<Longrightarrow> ComputeUpdatedBy demo_bytes ''u'' = Inr upd
      \<Longrightarrow> \<exists>res n'. submit t e ''PAYROLL'' (build_args t e ''PAYROLL'' hash upd ''[]'') n = (Inr res, n')"
  shows "\<exists>res s. save_and_anchor ''PAYROLL'' Inr
      (wired_hooks ipfs submit t (demo_file ''employee-keys.enc'') (demo_file ''salts.enc'') fd) ''i'' ''u'' [] ''x'' []
      \<lparr>b_op = NewInMemoryOperationalStore, b_fs = (demo_disk, demo_random), b_net = n\<rparr> = (Inr res, s)"
proof -
  obtain e hash upd where ids: "ComputeEmployeeID demo_bytes = Inr e" "ComputeDataHash Inr demo_bytes ''x'' = Inr hash"
    "ComputeUpdatedBy demo_bytes ''u'' = Inr upd" "length e = 64" by (rule demo_ids)
  from assms [OF ids(1-3)] obtain res n' where
    sub: "submit t e ''PAYROLL'' (build_args t e ''PAYROLL'' hash upd ''[]'') n = (Inr res, n')" by blast
  have "next_op_version NewInMemoryOperationalStore (op_key ''i'' ''PAYROLL'') = 1"
    by (simp add: next_op_version_def NewInMemoryOperationalStore_def is_int64_def)
  then have "length (saltFileKey e ''PAYROLL'' (next_op_version NewInMemoryOperationalStore (op_key ''i'' ''PAYROLL''))) < 100"
    using ids(4) by (simp add: saltFileKey_def itoa_def nat_digits.simps)
  moreover have "length (key_lookup_id ''i'' []) < 100" by (simp add: key_lookup_id_def)
  ultimately show ?thesis
    using fresh_write_run [where submit = submit and t = t and n = n and recid = "[]", OF ids(1-3) _ _ sub] by blast
qed

lemma demo_wired_run:
  "\<exists>res s. save_and_anchor ''PAYROLL'' Inr demo_wired ''i'' ''u'' [] ''x'' [] demo_bridge = (Inr res, s)"
  unfolding demo_bridge_def by (rule first_write_run) simp

theorem restart_breaks_next_write_witness:
  "\<exists>res s r s'. save_and_anchor ''PAYROLL'' Inr demo_wired ''i'' ''u'' [] ''x'' [] demo_bridge = (Inr res, s)
     \<and> save_and_anchor ''PAYROLL'' Inr demo_wired ''i'' ''u'' [] ''y'' [] (s\<lparr>b_op := NewInMemoryOperationalStore\<rparr>) = (Inl r, s')
     \<and> HasValue (b_op s') ''i'' ''PAYROLL''"
proof -
  obtain res s where run: "save_and_anchor ''PAYROLL'' Inr demo_wired ''i'' ''u'' [] ''x'' [] demo_bridge = (Inr res, s)"
    using demo_wired_run by blast
  have v: "next_op_version (b_op demo_bridge) k = 1" for k
    by (simp add: next_op_version_def demo_bridge_def NewInMemoryOperationalStore_def is_int64_def)
  from wired_commit [OF demo_bridge_inv demo_payroll_section run] obtain key e salt where
    k: "\<forall>op. demo_wired_inv (s\<lparr>b_op := op, b_net := ()\<rparr>)"
    "file_view (demo_file ''employee-keys.enc'') (b_fs s) (key_lookup_id ''i'' []) = Some key"
    "ComputeEmployeeID key = Inr e" "file_salts (demo_file ''salts.enc'') (b_fs s) (e, ''PAYROLL'', 1) = Some salt"
    unfolding v Let_def by auto
  have inv: "demo_wired_inv s" using k(1) [rule_format, of "b_op s"] by (simp add: wired_inv_def)
  obtain r s' where run2: "save_and_anchor ''PAYROLL'' Inr demo_wired ''i'' ''u'' [] ''y'' []
    (s\<lparr>b_op := NewInMemoryOperationalStore\<rparr>) = (r, s')" by (rule prod.exhaust)
  from restart_breaks_next_write [OF inv demo_payroll_section k(3) k(2) k(4) run2] run run2 show ?thesis
    by (auto simp: HasValue_def)
qed

section \<open>Shutdown, time budgets and routes\<close>

text \<open>Any number of calls of the same closer, with the results they return.\<close>

fun close_times :: "nat \<Rightarrow> 's closer \<Rightarrow> 's \<Rightarrow> goerr option list \<times> 's" where
  "close_times 0 c s = ([], s)"
| "close_times (Suc n) c s = (case c s of (e, s1) \<Rightarrow> (case close_times n c s1 of (es, s2) \<Rightarrow> (e # es, s2)))"

lemma close_times_done:
  "once_done o1 \<Longrightarrow> close_times n (onceCloser_Close c) (o1, s) = (replicate n (once_err o1), (o1, s))"
  by (induction n) (simp_all add: onceCloser_Close_def)

text \<open>C33: Shutdown happens exactly once, in order, and completely. However many times the
  closer is called after start-up (a signal, a failing listener, both), the effect is that of
  one shutdown of the HTTP server followed by one close of the gateway, the latter also when
  the former fails; every call returns the same error, which joins the errors of both.\<close>

theorem shutdown_exactly_once:
  assumes "sq_srv q s = (e1, s1)" and "sq_gw q s1 = (e2, s2)"
  shows "close_times (Suc n) (onceCloser_Close (shutdownSequence_Close q)) (newOnceCloser, s)
      = (replicate (Suc n) (errors_join [e1, e2]), (\<lparr>once_done = True, once_err = errors_join [e1, e2]\<rparr>, s2))
    \<and> (errors_join [e1, e2] = None \<longleftrightarrow> e1 = None \<and> e2 = None)
    \<and> (await_end (onceCloser_Close (shutdownSequence_Close q)) Signalled (newOnceCloser, s)
        = (errors_join [e1, e2], (\<lparr>once_done = True, once_err = errors_join [e1, e2]\<rparr>, s2)))"
proof -
  have c: "onceCloser_Close (shutdownSequence_Close q) (newOnceCloser, s)
    = (errors_join [e1, e2], (\<lparr>once_done = True, once_err = errors_join [e1, e2]\<rparr>, s2))"
    using assms by (simp add: onceCloser_Close_def newOnceCloser_def shutdownSequence_Close_def closeBoth_def)
  have "errors_join [e1, e2] = None \<longleftrightarrow> e1 = None \<and> e2 = None"
    by (cases e1; cases e2) (simp_all add: errors_join_def)
  with c show ?thesis by (simp add: close_times_done await_end_def runUntilShutdown_def)
qed

theorem shutdown_exactly_once_witness:
  "close_times 3 (onceCloser_Close (shutdownSequence_Close
       \<lparr>sq_srv = (\<lambda>t. (Some (Plain ''busy''), t @ [''srv''])), sq_gw = (\<lambda>t. (None, t @ [''gw'']))\<rparr>)) (newOnceCloser, [])
     = (replicate 3 (Some (Joined [Plain ''busy''])),
        (\<lparr>once_done = True, once_err = Some (Joined [Plain ''busy''])\<rparr>, [''srv'', ''gw'']))"
proof -
  let ?q = "\<lparr>sq_srv = (\<lambda>t. (Some (Plain ''busy''), t @ [''srv''])), sq_gw = (\<lambda>t. (None, t @ [''gw'']))\<rparr>"
  have "sq_srv ?q [] = (Some (Plain ''busy''), [''srv''])" "sq_gw ?q [''srv''] = (None, [''srv'', ''gw''])" by simp_all
  from shutdown_exactly_once [OF this, of 2] show ?thesis by (simp add: errors_join_def eval_nat_numeral)
qed

lemma wrap64_above:
  assumes "2 ^ 63 \<le> x" and "x < 2 ^ 64"
  shows "wrap64 x = x - 2 ^ 64"
proof -
  have "(x + 2 ^ 63) mod 2 ^ 64 = (x + 2 ^ 63 - 2 ^ 64) mod 2 ^ 64" by (rule minus_mod_self2 [symmetric])
  also have "\<dots> = x + 2 ^ 63 - 2 ^ 64" using assms by (intro mod_pos_pos_trivial) simp_all
  finally show ?thesis by (simp add: wrap64_def)
qed

text \<open>The time budgets. The dispatch budget is always positive, whatever the environment
  says, so no request starts with an expired deadline; it is the configured duration when
  that is valid and positive, and 30 s otherwise. The write timeout of the server exceeds it
  by 10 s unless the sum leaves the range of \<open>time.Duration\<close>, in which case it is negative.\<close>

lemma dispatch_budget_positive:
  assumes "\<And>v d. ParseDuration v = Some d \<Longrightarrow> is_int64 d"
  shows "0 < ResolveDispatchTimeout ParseDuration getenv \<and> is_int64 (ResolveDispatchTimeout ParseDuration getenv)
    \<and> (let b = ResolveDispatchTimeout ParseDuration getenv in
       (b \<le> 2 ^ 63 - 1 - 10 * second \<longrightarrow> serverWriteTimeout b = b + 10 * second)
       \<and> (2 ^ 63 - 1 - 10 * second < b \<longrightarrow> serverWriteTimeout b < 0))"
proof -
  let ?b = "ResolveDispatchTimeout ParseDuration getenv"
  have b: "0 < ?b" "is_int64 ?b"
    using assms by (auto simp: ResolveDispatchTimeout_def Let_def second_def is_int64_def split: option.splits)
  have small: "serverWriteTimeout ?b = ?b + 10 * second" if "?b \<le> 2 ^ 63 - 1 - 10 * second"
    using that b by (simp add: serverWriteTimeout_def writeTimeoutBuffer_def is_int64_def second_def)
  have big: "serverWriteTimeout ?b < 0" if "2 ^ 63 - 1 - 10 * second < ?b"
  proof -
    have "wrap64 (?b + 10 * second) = ?b + 10 * second - 2 ^ 64"
      using that b by (intro wrap64_above) (simp_all add: is_int64_def second_def)
    with b that show ?thesis
      by (simp add: serverWriteTimeout_def writeTimeoutBuffer_def is_int64_def second_def)
  qed
  from b small big show ?thesis by (simp add: Let_def)
qed

text \<open>The route table is what it says. A \<open>POST\<close> on the path of a section runs the pipeline
  with the hook that saves and anchors exactly that section; no other method is accepted
  there, and under the prefix only the five sections, \<open>history\<close> and \<open>verify\<close> exist.\<close>

lemma routes_match_sections:
  assumes "mux = buildMux T ctxErr h reader authCfg timeout" and "m \<noteq> ''POST''"
    and "name \<notin> set AllProfileSections \<union> {''history'', ''verify''}" and "sec \<in> set AllProfileSections"
  shows "ServeHTTP mux ''POST'' (''/v1/profile-sections/'' @ sec) r s
      = RegisterProfileSectionRoute ctxErr \<lparr>rc_ProfileSection = sec, rc_Dispatch = save_and_anchor sec T h\<rparr>
          authCfg (Hooks_TenantID h) timeout r s
    \<and> ServeHTTP mux m (''/v1/profile-sections/'' @ sec) r s = (Some (text_response 405 ''Method Not Allowed''), s)
    \<and> ServeHTTP mux m' (''/v1/profile-sections/'' @ name) r s = (Some (text_response 404 ''404 page not found''), s)"
proof (intro conjI)
  show "ServeHTTP mux ''POST'' (''/v1/profile-sections/'' @ sec) r s
      = RegisterProfileSectionRoute ctxErr \<lparr>rc_ProfileSection = sec, rc_Dispatch = save_and_anchor sec T h\<rparr>
          authCfg (Hooks_TenantID h) timeout r s"
    using assms(1,4) by (auto simp: ServeHTTP_def buildMux_def Let_def AllProfileSections_def method_matches_def
        UpdatePersonalData_def ApproveEmploymentTransfer_def RecordEducationHistory_def UpdateAdditionalInfo_def
        UpdatePayrollBankAccount_def)
  show "ServeHTTP mux m (''/v1/profile-sections/'' @ sec) r s = (Some (text_response 405 ''Method Not Allowed''), s)"
    using assms(1,2,4) by (auto simp: ServeHTTP_def buildMux_def Let_def AllProfileSections_def method_matches_def)
  show "ServeHTTP mux m' (''/v1/profile-sections/'' @ name) r s = (Some (text_response 404 ''404 page not found''), s)"
  proof -
    have "''PERSONAL'' \<noteq> name" "''EMPLOYMENT'' \<noteq> name" "''EDUCATION'' \<noteq> name" "''ADDITIONAL'' \<noteq> name"
      "''PAYROLL'' \<noteq> name" "''history'' \<noteq> name" "''verify'' \<noteq> name"
      using assms(3) by (auto simp: AllProfileSections_def)
    then show ?thesis by (simp add: assms(1) ServeHTTP_def buildMux_def Let_def)
  qed
qed

end
