(* ===== verification/Endtoend.thy ===== *)
theory Endtoend
  imports Ledger Bridge
begin

text \<open>
  The write path from the hook to the chaincode and back. The gateway client of the bridge and
  the contract are proved separately; between them lie the Fabric gateway, the peers and the
  orderers, which are third-party code. The locale \<open>chain_network\<close> is the interface: what a
  client may rely on when a submission or a query is answered. Other clients may submit at any
  time, also between the commit of a transaction and its answer. The locale
  \<open>responsive_network\<close> adds that a network nobody else is using answers. Both are interpreted
  on a contract handle that runs the chaincode of theory Chaincode on the arguments it is given.
\<close>

section \<open>Values on the wire\<close>

text \<open>The head record as the contract API prints it.\<close>

definition head_json :: "ProfileSectionHead \<Rightarrow> json" where
  "head_json h =
     JObj [(''dataHash'', JStr (Head_DataHash h)), (''timestamp'', JStr (Head_Timestamp h)),
           (''updatedBy'', JStr (Head_UpdatedBy h)), (''version'', JNum (itoa (Head_Version h)))]"

text \<open>The ten positional arguments of a submission; \<open>cids_of\<close> decodes the JSON text of the seventh.\<close>

definition call_args :: "(string \<Rightarrow> string list option option) \<Rightarrow> string list \<Rightarrow> submit_args option" where
  "call_args cids_of args =
     (case args of
        [tenantId, employeeID, profileSection, dataHash, prevHash, updatedBy, ipfsCIDs, canonicalizationVersion,
         hashAlgo, clientTimestamp] \<Rightarrow>
          map_option (\<lambda>cids.
            \<lparr>arg_tenantId = tenantId, arg_employeeID = employeeID, arg_profileSection = profileSection,
             arg_dataHash = dataHash, arg_prevHash = prevHash, arg_updatedBy = updatedBy, arg_ipfsCIDs = cids,
             arg_canonicalizationVersion = canonicalizationVersion, arg_hashAlgo = hashAlgo,
             arg_clientTimestamp = clientTimestamp\<rparr>) (cids_of ipfsCIDs)
      | _ \<Rightarrow> None)"

lemma call_args_build:
  "call_args cids_of (build_args ten e sec hash upd cids prev) =
     map_option (\<lambda>cs. \<lparr>arg_tenantId = ten, arg_employeeID = e, arg_profileSection = sec, arg_dataHash = hash,
       arg_prevHash = prev, arg_updatedBy = upd, arg_ipfsCIDs = cs,
       arg_canonicalizationVersion = CanonicalizationVersion_const, arg_hashAlgo = HashAlgo_const,
       arg_clientTimestamp = []\<rparr>) (cids_of cids)"
  by (simp add: call_args_def build_args_def)

lemma call_args_build_Some:
  assumes "call_args cids_of (build_args ten e sec hash upd cids prev) = Some a"
  shows "arg_tenantId a = ten" "arg_employeeID a = e" "arg_profileSection a = sec" "arg_dataHash a = hash"
    "arg_prevHash a = prev"
  using assms by (auto simp: call_args_build)

definition head_of :: "EmployeeProfileRecord \<Rightarrow> ProfileSectionHead" where
  "head_of r = \<lparr>Head_DataHash = DataHash r, Head_Timestamp = Timestamp r, Head_UpdatedBy = UpdatedBy r,
     Head_Version = Version r\<rparr>"

lemma head_json_roundtrip:
  assumes "wf_record r"
  shows "unmarshal_onChainRecord (json_print (head_json (head_of r))) =
    Some \<lparr>oc_DataHash = DataHash r, oc_Version = Version r, oc_UpdatedBy = UpdatedBy r, oc_Timestamp = Timestamp r\<rparr>"
proof -
  have "wf_json (head_json (head_of r))" using assms by (simp add: head_json_def head_of_def wf_record_def)
  then have "json_unmarshal (json_print (head_json (head_of r))) = Some (head_json (head_of r))" by (rule parse_print)
  then show ?thesis
    using assms by (simp add: unmarshal_onChainRecord_def onChainRecord_fields_def head_json_def head_of_def wf_record_def
        del: json_print.simps)
qed

lemma extract_head: "list_all plain_char (DataHash r) \<Longrightarrow> extractDataHash (json_print (head_json (head_of r))) = DataHash r"
  by (simp add: head_json_def head_of_def extractDataHash_object del: json_print.simps)

section \<open>A successful submission\<close>

text \<open>A submit loop that returns a result returns that of its last attempt, and leaves the network
  as that attempt left it.\<close>

lemma submit_loop_last:
  "submit_loop c ten e sec build n p s = (Inr res, s') \<Longrightarrow>
   \<exists>q s0. SubmitTransaction c ''RecordProfileSection'' (build q) s0 = (Inr res, s')"
proof (induction n arbitrary: p s)
  case 0
  then show ?case
    by (subst (asm) submit_loop.simps) (auto split: prod.splits sum.splits if_splits)
next
  case (Suc n)
  from Suc.prems show ?case
    by (subst (asm) submit_loop.simps) (auto split: prod.splits sum.splits if_splits dest: Suc.IH)
qed

lemma submit_last:
  "SubmitRecordProfileSection c ten e sec build s = (Inr res, s') \<Longrightarrow>
   \<exists>q s0. SubmitTransaction c ''RecordProfileSection'' (build q) s0 = (Inr res, s')"
  by (auto simp: SubmitRecordProfileSection_def dest: submit_loop_last split: prod.splits sum.splits)

text \<open>A hook that succeeds on the wired bridge: what is on file, and the submission that was answered.\<close>

lemma wired_submission:
  assumes "wired_inv fk fsl fd s" and "sec \<in> set AllProfileSections"
    and "save_and_anchor sec T (wired_hooks ipfs (SubmitRecordProfileSection c) t fk fsl fd) i user recid x doc s = (Inr res, s')"
  obtains key e salt hash upd cids q n where "ComputeEmployeeID key = Inr e" and "ComputeDataHash T salt x = Inr hash"
    and "SubmitTransaction c ''RecordProfileSection'' (build_args t e sec hash upd cids q) n = (Inr res, b_net s')"
    and "vals (b_op s') (op_key i sec) = Some x" and "file_inv fsl (b_fs s')"
    and "file_view fk (b_fs s) (key_lookup_id i recid) \<in> {None, Some key}"
    and "file_view fk (b_fs s') (key_lookup_id i recid) = Some key"
    and "file_salts fsl (b_fs s') (e, sec, next_op_version (b_op s) (op_key i sec)) = Some salt"
    and "\<And>v. v \<noteq> next_op_version (b_op s) (op_key i sec) \<Longrightarrow>
      file_salts fsl (b_fs s') (e, sec, v) = file_salts fsl (b_fs s) (e, sec, v)"
proof -
  let ?v = "next_op_version (b_op s) (op_key i sec)"
  from wired_commit [OF assms] obtain key e salt hash upd cids n0 where
    k: "ComputeEmployeeID key = Inr e" "ComputeDataHash T salt x = Inr hash" "vals (b_op s') (op_key i sec) = Some x"
    "file_view fk (b_fs s) (key_lookup_id i recid) \<in> {None, Some key}"
    and sub: "SubmitRecordProfileSection c t e sec (build_args t e sec hash upd cids) n0 = (Inr res, b_net s')"
    and salts: "\<forall>v. v \<noteq> ?v \<longrightarrow> file_salts fsl (b_fs s') (e, sec, v) = file_salts fsl (b_fs s) (e, sec, v)"
    and on_file: "\<forall>op net. let s'' = s'\<lparr>b_op := op, b_net := net\<rparr> in wired_inv fk fsl fd s''
         \<and> file_view fk (b_fs s'') (key_lookup_id i recid) = Some key \<and> file_salts fsl (b_fs s'') (e, sec, ?v) = Some salt"
    by (elim exE conjE) (rule that; assumption)
  from submit_last [OF sub] obtain q n where
    run: "SubmitTransaction c ''RecordProfileSection'' (build_args t e sec hash upd cids q) n = (Inr res, b_net s')" by blast
  have now: "file_inv fsl (b_fs s')" "file_view fk (b_fs s') (key_lookup_id i recid) = Some key"
    "file_salts fsl (b_fs s') (e, sec, ?v) = Some salt"
    using on_file by (simp_all add: Let_def wired_inv_def)
  show ?thesis by (rule that [OF k(1,2) run k(3) now(1) k(4) now(2,3)]) (use salts in simp)
qed

section \<open>The network between the client and the chaincode\<close>

text \<open>\<open>world n\<close> is the ledger in the state \<open>n\<close> of the network. A submission that is answered was
  executed serially on some ledger that was reached, and other transactions may have followed it.
  A query that is answered ran on the ledger as it is and prints its result.\<close>

locale chain_network = peer stub_of commit committed key_of
  for stub_of :: "'t \<Rightarrow> 'w \<Rightarrow> stub" and commit committed key_of +
  fixes c :: "'n contract"
    and world :: "'n \<Rightarrow> 'w"
    and cids_of :: "string \<Rightarrow> string list option option"
    and NewSHA1 :: "string \<Rightarrow> string \<Rightarrow> string"
    and w0 :: 'w
  assumes uuid: "uuid_text NewSHA1"
    and fresh: "committed w0 k = []"
    and reached: "reachable stub_of commit NewSHA1 w0 (world n)"
    and submit_law:
      "SubmitTransaction c ''RecordProfileSection'' args n = (Inr out, n') \<Longrightarrow>
       \<exists>t a w r w1. reachable stub_of commit NewSHA1 w0 w \<and> wf_args a \<and> call_args cids_of args = Some a
         \<and> serial_submit stub_of commit NewSHA1 t a w = (Inr r, w1)
         \<and> reachable stub_of commit NewSHA1 w1 (world n')"
    and query_law:
      "EvaluateWithContext c ''GetProfileSectionRecord'' [ten, e, p] n = (Inr js, n') \<Longrightarrow>
       world n' = world n
       \<and> (\<exists>t h. GetProfileSectionRecord (stub_of t (world n)) ten e p = Inr h \<and> js = json_print (head_json h))"
begin

lemma chain_at:
  assumes "reachable stub_of commit NewSHA1 w0 w" and "key_of profileKeyObjectType [e, sec] = Inr k"
  obtains rs where "holds_chain w e sec rs"
proof -
  have "holds_chain w0 e sec []" using assms(2) fresh by (simp add: holds_chain_def chain_empty)
  from reachable_chain [OF assms(1) uuid this] show ?thesis using that by auto
qed

text \<open>The digest of an answered submission is on the chain of its key.\<close>

lemma submitted_on_chain:
  assumes "SubmitTransaction c ''RecordProfileSection'' (build_args ten e sec hash upd cids prev) n = (Inr out, n')"
  obtains rs where "holds_chain (world n') e sec rs" and "hash \<in> DataHash ` set rs"
proof -
  from submit_law [OF assms] obtain t a w r w1 where w: "reachable stub_of commit NewSHA1 w0 w" and a: "wf_args a"
    "call_args cids_of (build_args ten e sec hash upd cids prev) = Some a"
    and run: "serial_submit stub_of commit NewSHA1 t a w = (Inr r, w1)"
    and later: "reachable stub_of commit NewSHA1 w1 (world n')" by (elim exE conjE) (rule that; assumption)
  note ids = call_args_build_Some [OF a(2)]
  obtain hd0 k where "readHead (stub_of t w) (arg_employeeID a) (arg_profileSection a) = Inr (hd0, k)"
    using run by (cases rule: submit_cases) auto
  then have k: "key_of profileKeyObjectType [e, sec] = Inr k" using readHead_key ids by metis
  obtain rs where rs: "holds_chain w e sec rs" by (rule chain_at [OF w k])
  have "\<exists>rs1. holds_chain w1 e sec rs1 \<and> hash \<in> DataHash ` set rs1"
    using submit_refines [of w a rs, OF _ a(1) uuid run] rs ids by (force intro: last_in_set)
  then obtain rs1 where rs1: "holds_chain w1 e sec rs1" "hash \<in> DataHash ` set rs1" by blast
  from reachable_chain [OF later uuid rs1(1)] obtain rs2 where "holds_chain (world n') e sec (rs1 @ rs2)" by blast
  with rs1(2) show ?thesis by (intro that [of "rs1 @ rs2"]) auto
qed

lemma only_record:
  assumes "SubmitTransaction c ''RecordProfileSection'' (build_args ten e sec hash upd cids prev) n = (Inr out, n')"
    and "key_of profileKeyObjectType [e, sec] = Inr k" and "committed (world n') k = [marshal_record rec]" and "wf_record rec"
  shows "Version rec = 1" "DataHash rec = hash"
proof -
  obtain rs where rs: "holds_chain (world n') e sec rs" "hash \<in> DataHash ` set rs" by (rule submitted_on_chain [OF assms(1)])
  from rs(1) obtain k' where k': "key_of profileKeyObjectType [e, sec] = Inr k'"
    "committed (world n') k' = map marshal_record rs" and ok: "chain_ok e sec rs" unfolding holds_chain_def by blast
  have "k' = k" using k'(1) assms(2) by simp
  with k'(2) assms(3) have one: "map marshal_record rs = [marshal_record rec]" by simp
  obtain r where r: "rs = [r]" using one by (cases rs; cases "tl rs") simp_all
  have "wf_record r" using chain_wf [OF ok] r by simp
  moreover have "marshal_record r = marshal_record rec" using one unfolding r by (simp only: list.map list.inject simp_thms)
  ultimately have "r = rec" using record_roundtrip [of r] record_roundtrip [OF assms(4)] by (metis option.inject)
  with rs(2) r chain_version [OF ok, of 0] show "Version rec = 1" "DataHash rec = hash" by (simp_all add: is_int64_def)
qed

lemma head_answer:
  assumes "holds_chain (world n) e sec rs"
    and "EvaluateGetProfileSectionRecord c ten e sec n = (Inr js, n')"
  shows "rs \<noteq> []" "js = json_print (head_json (head_of (last rs)))" "world n' = world n"
proof -
  from assms(2) have q: "EvaluateWithContext c ''GetProfileSectionRecord'' [ten, e, sec] n = (Inr js, n')"
    by (auto simp: EvaluateGetProfileSectionRecord_def evaluate_def dest!: mapErr_InrD)
  from query_law [OF q] obtain t h where h: "GetProfileSectionRecord (stub_of t (world n)) ten e sec = Inr h"
    and js: "js = json_print (head_json h)" and w: "world n' = world n" by (elim exE conjE) (rule that; assumption)
  from h obtain m where m: "authorizeEvaluate (stub_of t (world n)) = Inr m" "IsValidProfileSection sec"
    by (auto simp: GetProfileSectionRecord_def split: sum.splits if_splits)
  from query_head [OF assms(1) m, of ten] h show "rs \<noteq> []" by auto
  with query_head [OF assms(1) m, of ten] h js show "js = json_print (head_json (head_of (last rs)))"
    by (simp add: head_of_def)
  show "world n' = world n" by (rule w)
qed

text \<open>What verification says about a value, when the query is answered.\<close>

lemma verify_answer:
  assumes "holds_chain (world n) e sec rs" and "EvaluateGetProfileSectionRecord c ten e sec n = (Inr js, n')"
    and "ComputeDataHash T salt y = Inr h"
  shows "\<exists>vr. Verify T c ten e sec salt y n = (Inr vr, n') \<and> Found vr \<and> (Matched vr \<longleftrightarrow> h = DataHash (last rs))"
proof -
  note ans = head_answer [OF assms(1,2)]
  from assms(1) ans(1) have "wf_record (last rs)" by (auto simp: holds_chain_def intro: chain_wf)
  from head_json_roundtrip [OF this] show ?thesis
    by (simp add: Verify_def assms(2,3) ans(2) del: json_print.simps)
qed

lemma matched_value:
  assumes "holds_chain (world n) e sec rs" and "EvaluateGetProfileSectionRecord c ten e sec n = (Inr js, n')"
    and "ComputeDataHash T salt x = Inr (DataHash (last rs))"
    and "Verify T c ten e sec salt y n = (Inr vr, n')" and "Matched vr"
  shows "T y = T x \<or> (\<exists>cx cy. T x = Inr cx \<and> T y = Inr cy \<and> sha_collision (salt @ cx) (salt @ cy))"
proof -
  obtain h where h: "ComputeDataHash T salt y = Inr h"
    using assms(4) by (auto simp: Verify_def split: sum.splits)
  from verify_answer [OF assms(1,2) h] assms(4,5) have "h = DataHash (last rs)" by auto
  with h ComputeDataHash_binding [OF assms(3), of salt y] show ?thesis by auto
qed

lemma anchored_and_verifiable:
  assumes "SubmitTransaction c ''RecordProfileSection'' (build_args ten e sec hash upd cids prev) n0 = (Inr out, n)"
    and "ComputeDataHash T salt x = Inr hash"
  shows "\<exists>k rs. key_of profileKeyObjectType [e, sec] = Inr k \<and> committed (world n) k = map marshal_record rs
    \<and> chain_ok e sec rs \<and> hash \<in> DataHash ` set rs
    \<and> (DataHash (last rs) = hash \<longrightarrow>
        (\<forall>js n'. EvaluateGetProfileSectionRecord c ten e sec n = (Inr js, n') \<longrightarrow>
           (\<exists>vr. Verify T c ten e sec salt x n = (Inr vr, n') \<and> Found vr \<and> Matched vr)
           \<and> (\<forall>y vr. Verify T c ten e sec salt y n = (Inr vr, n') \<and> Matched vr \<longrightarrow>
                T y = T x \<or> (\<exists>cx cy. T x = Inr cx \<and> T y = Inr cy \<and> sha_collision (salt @ cx) (salt @ cy)))))"
proof -
  obtain rs where rs: "holds_chain (world n) e sec rs" "hash \<in> DataHash ` set rs"
    by (rule submitted_on_chain [OF assms(1)])
  from rs(1) obtain k where k: "key_of profileKeyObjectType [e, sec] = Inr k"
    "committed (world n) k = map marshal_record rs" "chain_ok e sec rs" by (auto simp: holds_chain_def)
  have "(\<exists>vr. Verify T c ten e sec salt x n = (Inr vr, n') \<and> Found vr \<and> Matched vr)
      \<and> (\<forall>y vr. Verify T c ten e sec salt y n = (Inr vr, n') \<and> Matched vr \<longrightarrow>
           T y = T x \<or> (\<exists>cx cy. T x = Inr cx \<and> T y = Inr cy \<and> sha_collision (salt @ cx) (salt @ cy)))"
    if last: "DataHash (last rs) = hash" and ev: "EvaluateGetProfileSectionRecord c ten e sec n = (Inr js, n')" for js n'
    using verify_answer [OF rs(1) ev assms(2)] matched_value [OF rs(1) ev, of T salt x] assms(2) last by blast
  then show ?thesis using k rs(2) by (intro exI conjI) (assumption | blast)+
qed

end

text \<open>Nobody else uses the network, and it works: a query is answered as the contract answers it,
  and a transaction that the contract accepts is committed.\<close>

locale responsive_network = chain_network stub_of commit committed key_of c world cids_of NewSHA1 w0
  for stub_of :: "'t \<Rightarrow> 'w \<Rightarrow> stub" and commit committed key_of and c :: "'n contract"
    and world cids_of NewSHA1 w0 +
  fixes tx :: 't
  assumes query_answers:
      "EvaluateWithContext c ''GetProfileSectionRecord'' [ten, e, p] n = (ans, n') \<Longrightarrow>
       n' = n \<and> (case GetProfileSectionRecord (stub_of tx (world n)) ten e p of
                   Inl err \<Rightarrow> \<exists>err'. ans = Inl err'
                 | Inr h \<Rightarrow> ans = Inr (json_print (head_json h)))"
    and submit_answers:
      "call_args cids_of args = Some a \<Longrightarrow> wf_args a \<Longrightarrow>
       serial_submit stub_of commit NewSHA1 tx a (world n) = (Inr r, w') \<Longrightarrow>
       \<exists>out n'. SubmitTransaction c ''RecordProfileSection'' args n = (Inr out, n') \<and> world n' = w'"
begin

text \<open>The submit loop starts with the digest of the head.\<close>

lemma submit_starts_at_head:
  assumes "holds_chain (world n) e sec rs" and "\<And>r. r \<in> set rs \<Longrightarrow> is_digest (DataHash r)"
    and "authorizeEvaluate (stub_of tx (world n)) = Inr m" and "IsValidProfileSection sec"
  shows "SubmitRecordProfileSection c ten e sec build n = submit_loop c ten e sec build MaxSubmitRetries (head_hash rs) n"
proof -
  obtain r n' where ev: "EvaluateWithContext c ''GetProfileSectionRecord'' [ten, e, sec] n = (r, n')"
    by (rule prod.exhaust)
  note ans = query_answers [OF ev] query_head [OF assms(1,3,4), of ten]
  show ?thesis
  proof (cases "rs = []")
    case True
    with ans obtain err where "r = Inl err" "n' = n" by auto
    with ev True show ?thesis
      by (simp add: SubmitRecordProfileSection_def EvaluateGetProfileSectionRecord_def evaluate_def mapErr_def head_hash_def)
  next
    case False
    with ans have r: "r = Inr (json_print (head_json (head_of (last rs))))" "n' = n" by (simp_all add: head_of_def)
    have "extractDataHash (json_print (head_json (head_of (last rs)))) = head_hash rs"
      using extract_head [OF plain_digest] assms(2) False by (simp add: head_hash_def)
    with ev r show ?thesis
      by (simp add: SubmitRecordProfileSection_def EvaluateGetProfileSectionRecord_def evaluate_def mapErr_def
          del: json_print.simps)
  qed
qed

lemma first_attempt_accepted:
  assumes chain: "holds_chain (world n) e sec rs" and digests: "\<And>r. r \<in> set rs \<Longrightarrow> is_digest (DataHash r)"
    and a: "call_args cids_of (build_args ten e sec hash upd cids (head_hash rs)) = Some a" "wf_args a"
    and guard: "submit_guard (stub_of tx (world n)) a = Inr ()"
    and reader: "authorizeEvaluate (stub_of tx (world n)) = Inr m"
    and works: "GetTxTimestamp (stub_of tx (world n)) = Inr ts" "\<And>k v. PutState (stub_of tx (world n)) k v = Inr ()"
      "\<And>nm p. SetEvent (stub_of tx (world n)) nm p = Inr ()"
  shows "\<exists>out n' rs'. SubmitRecordProfileSection c ten e sec (build_args ten e sec hash upd cids) n = (Inr out, n')
    \<and> holds_chain (world n') e sec rs' \<and> rs' \<noteq> [] \<and> DataHash (last rs') = hash
    \<and> (rs' = rs \<or> butlast rs' = rs)"
proof -
  note ids = call_args_build_Some [OF a(1)]
  have val: "IsValidProfileSection sec" using guard ids(3) by (auto simp: submit_guard_def split: if_splits)
  have ch: "holds_chain (world n) (arg_employeeID a) (arg_profileSection a) rs" using chain ids by simp
  have "\<exists>r w' rs'. serial_submit stub_of commit NewSHA1 tx a (world n) = (Inr r, w')
      \<and> holds_chain w' e sec rs' \<and> rs' \<noteq> [] \<and> DataHash (last rs') = hash \<and> (rs' = rs \<or> butlast rs' = rs)"
  proof (cases "hash = head_hash rs")
    case True
    have "arg_dataHash a \<noteq> []"
      using guard by (auto simp: submit_guard_def requiredStringArgs_Inr split: if_splits sum.splits)
    with True ids(4) have ne: "rs \<noteq> []" "DataHash (last rs) = arg_dataHash a" by (auto simp: head_hash_def split: if_splits)
    obtain k where "readHead (stub_of tx (world n)) (arg_employeeID a) (arg_profileSection a) = Inr (Some (last rs), k)"
      using readHead_chain [OF ch, of tx] ne(1) by auto
    from RecordProfileSection_noop [OF guard this ne(2)]
    have "serial_submit stub_of commit NewSHA1 tx a (world n) = (Inr (head_result (last rs)), world n)"
      by (simp add: serial_submit_def no_effects_def commit_none)
    with chain ne ids(4) show ?thesis by blast
  next
    case False
    from submit_progress [OF ch a(2) uuid guard] ids(4,5) False works
    obtain rec w' where "serial_submit stub_of commit NewSHA1 tx a (world n) = (Inr (head_result rec), w')"
      "DataHash rec = hash" "holds_chain w' e sec (rs @ [rec])" using ids(2,3) by auto
    then show ?thesis by (intro exI conjI) (assumption | simp)+
  qed
  then obtain r w' rs' where run: "serial_submit stub_of commit NewSHA1 tx a (world n) = (Inr r, w')"
    and rs': "holds_chain w' e sec rs'" "rs' \<noteq> []" "DataHash (last rs') = hash" "rs' = rs \<or> butlast rs' = rs"
    by (elim exE conjE) (rule that; assumption)
  from submit_answers [OF a run] obtain out n' where
    "SubmitTransaction c ''RecordProfileSection'' (build_args ten e sec hash upd cids (head_hash rs)) n = (Inr out, n')"
    and "world n' = w'" by blast
  then show ?thesis
    using submit_starts_at_head [OF chain digests reader val, of ten "build_args ten e sec hash upd cids"] rs'
    by (auto simp: submit_loop.simps)
qed

end

section \<open>A network that runs the chaincode\<close>

text \<open>The state is the list of accepted submissions, the latest first; the ledger is what they made.
  All submissions and queries come from one identity \<open>t\<close>.\<close>

fun log_world :: "(string \<Rightarrow> string \<Rightarrow> string) \<Rightarrow> tx \<Rightarrow> submit_args list \<Rightarrow> world" where
  "log_world NewSHA1 t [] = (\<lambda>k. [])"
| "log_world NewSHA1 t (a # log) =
     (if wf_args a then snd (serial_submit peer_stub peer_commit NewSHA1 t a (log_world NewSHA1 t log))
      else log_world NewSHA1 t log)"

definition decode_cids :: "string \<Rightarrow> string list option option" where
  "decode_cids s = (case json_unmarshal s of None \<Rightarrow> None | Some j \<Rightarrow> dec_strs (\<lambda>x _. x) j None)"

definition result_json :: "RecordProfileSectionResult \<Rightarrow> json" where
  "result_json r =
     JObj [(''recordID'', JStr (Result_RecordID r)), (''timestamp'', JStr (Result_Timestamp r)),
           (''version'', JNum (itoa (Result_Version r)))]"

definition ledger_submit ::
  "(string \<Rightarrow> string \<Rightarrow> string) \<Rightarrow> tx \<Rightarrow> string list \<Rightarrow> (submit_args list, goerr, string) act" where
  "ledger_submit NewSHA1 t args log =
     (case call_args decode_cids args of
        None \<Rightarrow> (Inl (EndorseError ''arguments''), log)
      | Some a \<Rightarrow>
          if \<not> wf_args a then (Inl (EndorseError ''arguments''), log)
          else (case fst (serial_submit peer_stub peer_commit NewSHA1 t a (log_world NewSHA1 t log)) of
                  Inl e \<Rightarrow> (Inl (EndorseError (error_text e)), log)
                | Inr r \<Rightarrow> (Inr (json_print (result_json r)), a # log)))"

definition ledger_head ::
  "(string \<Rightarrow> string \<Rightarrow> string) \<Rightarrow> tx \<Rightarrow> string list \<Rightarrow> (submit_args list, goerr, string) act" where
  "ledger_head NewSHA1 t args log =
     (case args of
        [tenantId, employeeID, profileSection] \<Rightarrow>
          (case GetProfileSectionRecord (peer_stub t (log_world NewSHA1 t log)) tenantId employeeID profileSection of
             Inl e \<Rightarrow> (Inl (Plain (error_text e)), log)
           | Inr h \<Rightarrow> (Inr (json_print (head_json h)), log))
      | _ \<Rightarrow> (Inl (Plain ''arguments''), log))"

definition ledger_contract :: "(string \<Rightarrow> string \<Rightarrow> string) \<Rightarrow> tx \<Rightarrow> submit_args list contract" where
  "ledger_contract NewSHA1 t =
     \<lparr>SubmitTransaction = (\<lambda>fn args. if fn = ''RecordProfileSection'' then ledger_submit NewSHA1 t args
                                     else throwE (EndorseError ''function'')),
      EvaluateWithContext = (\<lambda>fn args. if fn = ''GetProfileSectionRecord'' then ledger_head NewSHA1 t args
                                       else throwE (Plain ''function''))\<rparr>"

lemma log_world_reachable: "reachable peer_stub peer_commit NewSHA1 (\<lambda>k. []) (log_world NewSHA1 t log)"
proof (induction log)
  case (Cons a log)
  then show ?case by (auto intro: reach_submit [OF _ _ prod.collapse [symmetric]])
qed (simp add: reach_start)

lemma ledger_submit_Inr:
  assumes "ledger_submit NewSHA1 t args log = (Inr out, log')"
  obtains a r where "call_args decode_cids args = Some a" "wf_args a"
    "serial_submit peer_stub peer_commit NewSHA1 t a (log_world NewSHA1 t log) = (Inr r, log_world NewSHA1 t log')"
proof -
  from assms obtain a r where a: "call_args decode_cids args = Some a" "wf_args a" "log' = a # log"
    "fst (serial_submit peer_stub peer_commit NewSHA1 t a (log_world NewSHA1 t log)) = Inr r"
    unfolding ledger_submit_def by (auto split: option.splits if_splits sum.splits)
  show ?thesis by (rule that [OF a(1,2)]) (use a in \<open>simp add: prod_eq_iff\<close>)
qed

lemma ledger_contract_responsive:
  assumes "uuid_text NewSHA1"
  shows "responsive_network peer_stub peer_commit (\<lambda>w. w) composite_key (ledger_contract NewSHA1 t)
    (log_world NewSHA1 t) decode_cids NewSHA1 (\<lambda>k. []) t"
proof unfold_locales
  fix args n out n'
  assume "SubmitTransaction (ledger_contract NewSHA1 t) ''RecordProfileSection'' args n = (Inr out, n')"
  then have "ledger_submit NewSHA1 t args n = (Inr out, n')" by (simp add: ledger_contract_def)
  then obtain a r where "call_args decode_cids args = Some a" "wf_args a"
    "serial_submit peer_stub peer_commit NewSHA1 t a (log_world NewSHA1 t n) = (Inr r, log_world NewSHA1 t n')"
    by (rule ledger_submit_Inr)
  then show "\<exists>ta a w r w1. reachable peer_stub peer_commit NewSHA1 (\<lambda>k. []) w \<and> wf_args a
      \<and> call_args decode_cids args = Some a \<and> serial_submit peer_stub peer_commit NewSHA1 ta a w = (Inr r, w1)
      \<and> reachable peer_stub peer_commit NewSHA1 w1 (log_world NewSHA1 t n')"
    by - (rule exI [of _ t], rule exI [of _ a], rule exI [of _ "log_world NewSHA1 t n"], rule exI [of _ r],
        rule exI [of _ "log_world NewSHA1 t n'"], intro conjI log_world_reachable reach_start)
next
  fix ten e p n js n'
  assume "EvaluateWithContext (ledger_contract NewSHA1 t) ''GetProfileSectionRecord'' [ten, e, p] n = (Inr js, n')"
  then show "log_world NewSHA1 t n' = log_world NewSHA1 t n
      \<and> (\<exists>ta h. GetProfileSectionRecord (peer_stub ta (log_world NewSHA1 t n)) ten e p = Inr h \<and> js = json_print (head_json h))"
    by (auto simp: ledger_contract_def ledger_head_def split: sum.splits)
next
  fix ten e p n n' and ans :: "string res"
  assume "EvaluateWithContext (ledger_contract NewSHA1 t) ''GetProfileSectionRecord'' [ten, e, p] n = (ans, n')"
  then show "n' = n \<and> (case GetProfileSectionRecord (peer_stub t (log_world NewSHA1 t n)) ten e p of
      Inl err \<Rightarrow> \<exists>err'. ans = Inl err' | Inr h \<Rightarrow> ans = Inr (json_print (head_json h)))"
    by (auto simp: ledger_contract_def ledger_head_def split: sum.splits)
next
  fix args a n r w'
  assume "call_args decode_cids args = Some a" "wf_args a"
    "serial_submit peer_stub peer_commit NewSHA1 t a (log_world NewSHA1 t n) = (Inr r, w')"
  then show "\<exists>out n'. SubmitTransaction (ledger_contract NewSHA1 t) ''RecordProfileSection'' args n = (Inr out, n')
      \<and> log_world NewSHA1 t n' = w'"
    by (auto simp: ledger_contract_def ledger_submit_def)
qed (rule assms refl log_world_reachable)+

interpretation ln: responsive_network peer_stub peer_commit "\<lambda>w. w" composite_key "ledger_contract demo_uuid t"
  "log_world demo_uuid t" decode_cids demo_uuid "\<lambda>k. []" t
  by (rule ledger_contract_responsive [OF demo_uuid_text])

section \<open>Properties\<close>

text \<open>C2: End to end. When a write hook of the wired bridge reports success, the employee's key and the
  salt are on file, and the digest of exactly the stored value under that salt is a record of the
  hash chain that the chaincode keeps for the employee's pseudonym and the section, whatever other
  clients do at the same time. As long as no newer version has been anchored, the verification of
  the stored value succeeds whenever the ledger answers; and a value that verifies against that
  digest has the same canonical form as the stored one, or gives an explicit SHA-256 collision.\<close>

theorem end_to_end:
  assumes "chain_network stub_of commit committed key_of c world cids_of NewSHA1 w0"
    and "wired_inv fk fsl fd s" and "sec \<in> set AllProfileSections"
    and "save_and_anchor sec T (wired_hooks ipfs (SubmitRecordProfileSection c) t fk fsl fd) i user recid x doc s
      = (Inr res, s')"
  shows "\<exists>key e salt hash k rs. file_view fk (b_fs s') (key_lookup_id i recid) = Some key \<and> ComputeEmployeeID key = Inr e
    \<and> file_salts fsl (b_fs s') (e, sec, next_op_version (b_op s) (op_key i sec)) = Some salt
    \<and> ComputeDataHash T salt x = Inr hash
    \<and> key_of profileKeyObjectType [e, sec] = Inr k \<and> committed (world (b_net s')) k = map marshal_record rs
    \<and> chain_ok e sec rs \<and> hash \<in> DataHash ` set rs
    \<and> (DataHash (last rs) = hash \<longrightarrow>
        (\<forall>js n. EvaluateGetProfileSectionRecord c t e sec (b_net s') = (Inr js, n) \<longrightarrow>
           (\<exists>vr. Verify T c t e sec salt x (b_net s') = (Inr vr, n) \<and> Found vr \<and> Matched vr)
           \<and> (\<forall>y vr. Verify T c t e sec salt y (b_net s') = (Inr vr, n) \<and> Matched vr \<longrightarrow>
                T y = T x \<or> (\<exists>cx cy. T x = Inr cx \<and> T y = Inr cy \<and> sha_collision (salt @ cx) (salt @ cy)))))"
proof -
  obtain key e salt hash upd cids q n0 where
    k: "ComputeEmployeeID key = Inr e" "ComputeDataHash T salt x = Inr hash"
    and sub: "SubmitTransaction c ''RecordProfileSection'' (build_args t e sec hash upd cids q) n0 = (Inr res, b_net s')"
    and on_file: "file_view fk (b_fs s') (key_lookup_id i recid) = Some key"
      "file_salts fsl (b_fs s') (e, sec, next_op_version (b_op s) (op_key i sec)) = Some salt"
    by (rule wired_submission [OF assms(2-4)]) (rule that; assumption)
  note chain = chain_network.anchored_and_verifiable [OF assms(1) sub k(2)]
  from k chain on_file show ?thesis
    by - (elim exE, rule exI [of _ key], rule exI [of _ e], rule exI [of _ salt], rule exI [of _ hash], rule exI, rule exI,
        elim conjE, intro conjI; assumption)
qed

text \<open>C7: A write that nobody disturbs is anchored at the first attempt. The digest that the gateway client
  cuts out of the answer for the head is the one the chaincode compares \<open>prevHash\<close> with, provided the
  digests on the chain were made by the digest builder; so the submission is accepted, the chain grows
  by exactly one record (or stays, when the value was anchored already), and its head is the new
  digest.\<close>

theorem undisturbed_write_is_anchored:
  assumes "responsive_network stub_of commit committed key_of c world cids_of NewSHA1 w0 tx"
    and "key_of profileKeyObjectType [e, sec] = Inr k" and "committed (world n) k = map marshal_record rs"
    and "chain_ok e sec rs" and "\<And>r. r \<in> set rs \<Longrightarrow> is_digest (DataHash r)"
    and "call_args cids_of (build_args ten e sec hash upd cids (head_hash rs)) = Some a" and "wf_args a"
    and "submit_guard (stub_of tx (world n)) a = Inr ()" and "authorizeEvaluate (stub_of tx (world n)) = Inr m"
    and "GetTxTimestamp (stub_of tx (world n)) = Inr ts" and "\<And>k v. PutState (stub_of tx (world n)) k v = Inr ()"
    and "\<And>nm p. SetEvent (stub_of tx (world n)) nm p = Inr ()"
  shows "\<exists>out n' rs'. SubmitRecordProfileSection c ten e sec (build_args ten e sec hash upd cids) n = (Inr out, n')
    \<and> committed (world n') k = map marshal_record rs' \<and> chain_ok e sec rs'
    \<and> rs' \<noteq> [] \<and> DataHash (last rs') = hash \<and> (rs' = rs \<or> butlast rs' = rs)"
proof -
  note p = chain_network.axioms(1) [OF responsive_network.axioms(1) [OF assms(1)]]
  have "peer.holds_chain committed key_of (world n) e sec rs"
    using assms(2-4) by (simp add: peer.holds_chain_def [OF p])
  from responsive_network.first_attempt_accepted [OF assms(1) this assms(5-12)] show ?thesis
    using assms(2) unfolding peer.holds_chain_def [OF p] by force
qed

text \<open>An enterprise client writes the first version of a section.\<close>

lemma ascii_hexdigs: "list_all is_hexdig s \<Longrightarrow> is_ascii s"
  using plain_hexdig by (auto simp: is_ascii_def list_all_iff plain_char_def)

lemma key_part_hexdigs:
  assumes "list_all is_hexdig s"
  shows "key_part_ok s"
proof -
  have small: "(of_char c :: nat) < 128 \<and> 32 \<le> (of_char c :: nat)" if "c \<in> set s" for c
    using assms plain_hexdig that by (auto simp: list_all_iff plain_char_def)
  have "\<not> contains s (map char_of [0xF4, 0x8F, 0xBF, 0xBF :: nat])"
    using small [of "char_of (0xF4 :: nat)"] contains_set [of s] by fastforce
  moreover have "NUL \<notin> set s" using small [of NUL] by (auto simp: NUL_def)
  ultimately show ?thesis using valid_utf8_ascii [OF ascii_hexdigs [OF assms]] by (simp add: key_part_ok_def)
qed

abbreviation demo_ledger :: "submit_args list contract" where
  "demo_ledger \<equiv> ledger_contract demo_uuid demo_tx"

lemma demo_cids: "decode_cids ''[]'' = Some (Some [])"
  by code_simp

lemma payroll_key:
  assumes "list_all is_hexdig e"
  shows "\<exists>k. composite_key profileKeyObjectType [e, ''PAYROLL''] = Inr k"
proof -
  have "key_part_ok profileKeyObjectType" "key_part_ok ''PAYROLL''" by code_simp+
  with key_part_hexdigs [OF assms] show ?thesis by (simp add: composite_key_def)
qed

definition demo_call :: "string \<Rightarrow> string \<Rightarrow> string \<Rightarrow> submit_args" where
  "demo_call e hash upd =
     \<lparr>arg_tenantId = ''x'', arg_employeeID = e, arg_profileSection = ''PAYROLL'', arg_dataHash = hash, arg_prevHash = [],
      arg_updatedBy = upd, arg_ipfsCIDs = Some [], arg_canonicalizationVersion = CanonicalizationVersion_const,
      arg_hashAlgo = HashAlgo_const, arg_clientTimestamp = []\<rparr>"

lemma demo_call_facts:
  assumes "list_all is_hexdig e" "e \<noteq> []" "is_ascii hash" "hash \<noteq> []" "is_ascii upd" "upd \<noteq> []"
  shows "call_args decode_cids (build_args ''x'' e ''PAYROLL'' hash upd ''[]'' (head_hash [])) = Some (demo_call e hash upd)"
    and "wf_args (demo_call e hash upd)"
    and "submit_guard (peer_stub demo_tx w) (demo_call e hash upd) = Inr ()"
    and "authorizeEvaluate (peer_stub demo_tx w) = Inr ''OrgClient-tenant01MSP''"
proof -
  show "call_args decode_cids (build_args ''x'' e ''PAYROLL'' hash upd ''[]'' (head_hash [])) = Some (demo_call e hash upd)"
    by (simp add: call_args_build demo_cids demo_call_def head_hash_def)
  have "is_ascii CanonicalizationVersion_const" "is_ascii HashAlgo_const" "is_ascii ''x''" "is_ascii ''PAYROLL''" "is_ascii []"
    by code_simp+
  then show "wf_args (demo_call e hash upd)"
    using assms ascii_hexdigs by (simp add: wf_args_def demo_call_def valid_utf8_ascii)
  show "authorizeEvaluate (peer_stub demo_tx w) = Inr ''OrgClient-tenant01MSP''"
    by (simp add: authorizeEvaluate_Inr callerMSPID_Inr isOrgClientMSP_def orgClientPrefix_def
        orgClientSuffix_def go_strings peer_stub_def demo_tx_def)
  show "submit_guard (peer_stub demo_tx w) (demo_call e hash upd) = Inr ()"
    using assms
    by (simp add: submit_guard_def demo_call_def demo_tx_def peer_stub_def requiredStringArgs_Inr
        IsValidProfileSection_def allProfileSections_def authorizeSubmit_def callerMSPID_def mspOrg1_def
        isOrgClientMSP_def orgClientPrefix_def orgClientSuffix_def go_strings CanonicalizationVersion_const_def HashAlgo_const_def)
qed

lemma demo_stub_works:
  "GetTxTimestamp (peer_stub demo_tx w) = Inr (0, 0)" "PutState (peer_stub demo_tx w) k v = Inr ()"
  "SetEvent (peer_stub demo_tx w) nm p = Inr ()"
  by (simp_all add: peer_stub_def demo_tx_def)

lemma demo_first_record:
  assumes "list_all is_hexdig e" "e \<noteq> []" "is_ascii hash" "hash \<noteq> []" "is_ascii upd" "upd \<noteq> []"
  shows "\<exists>out n k rec. SubmitRecordProfileSection demo_ledger ''x'' e ''PAYROLL'' (build_args ''x'' e ''PAYROLL'' hash upd ''[]'') []
    = (Inr out, n) \<and> composite_key profileKeyObjectType [e, ''PAYROLL''] = Inr k
    \<and> log_world demo_uuid demo_tx n k = [marshal_record rec] \<and> wf_record rec"
proof -
  obtain k where k: "composite_key profileKeyObjectType [e, ''PAYROLL''] = Inr k" using payroll_key [OF assms(1)] by blast
  then have "pw.holds_chain (log_world demo_uuid demo_tx []) e ''PAYROLL'' []" by (simp add: pw.holds_chain_def chain_empty)
  from ln.first_attempt_accepted [OF this _ demo_call_facts [OF assms] demo_stub_works] obtain out n rs where
    run: "SubmitRecordProfileSection demo_ledger ''x'' e ''PAYROLL'' (build_args ''x'' e ''PAYROLL'' hash upd ''[]'') [] = (Inr out, n)"
    and ch: "pw.holds_chain (log_world demo_uuid demo_tx n) e ''PAYROLL'' rs" and rs: "rs \<noteq> []" "rs = [] \<or> butlast rs = []" by force
  from rs obtain rec where rec: "rs = [rec]" by (cases rs rule: rev_cases) auto
  from ch k have "log_world demo_uuid demo_tx n k = [marshal_record rec]" "wf_record rec"
    by (auto simp: pw.holds_chain_def rec intro: chain_wf)
  with run k show ?thesis by blast
qed

theorem undisturbed_write_is_anchored_witness:
  "\<exists>out n rs. SubmitRecordProfileSection demo_ledger ''x'' ''e1'' ''PAYROLL'' (build_args ''x'' ''e1'' ''PAYROLL'' ''h1'' ''u1'' ''[]'') []
     = (Inr out, n) \<and> log_world demo_uuid demo_tx n demo_key = map marshal_record rs \<and> length rs = 1
     \<and> DataHash (last rs) = ''h1''"
proof -
  have hex: "list_all is_hexdig ''e1''" "''e1'' \<noteq> []" "is_ascii ''h1''" "''h1'' \<noteq> []" "is_ascii ''u1''" "''u1'' \<noteq> []" by code_simp+
  have "\<exists>out n' rs'. SubmitRecordProfileSection demo_ledger ''x'' ''e1'' ''PAYROLL''
      (build_args ''x'' ''e1'' ''PAYROLL'' ''h1'' ''u1'' ''[]'') [] = (Inr out, n')
    \<and> log_world demo_uuid demo_tx n' demo_key = map marshal_record rs' \<and> chain_ok ''e1'' ''PAYROLL'' rs'
    \<and> rs' \<noteq> [] \<and> DataHash (last rs') = ''h1'' \<and> (rs' = [] \<or> butlast rs' = [])"
    by (rule undisturbed_write_is_anchored [OF ln.responsive_network_axioms demo_key_eq _ chain_empty _
          demo_call_facts [OF hex] demo_stub_works]) simp_all
  then obtain out n' rs' where r: "SubmitRecordProfileSection demo_ledger ''x'' ''e1'' ''PAYROLL''
      (build_args ''x'' ''e1'' ''PAYROLL'' ''h1'' ''u1'' ''[]'') [] = (Inr out, n')"
    "log_world demo_uuid demo_tx n' demo_key = map marshal_record rs'" "rs' \<noteq> []" "DataHash (last rs') = ''h1''"
    "rs' = [] \<or> butlast rs' = []" by (elim exE conjE) (rule that; assumption)
  from r(3,5) have "length rs' = 1" by (cases rs' rule: rev_cases) auto
  with r(1,2,4) show ?thesis by (intro exI conjI)
qed

definition demo_start :: "submit_args list bridge" where
  "demo_start = \<lparr>b_op = NewInMemoryOperationalStore, b_fs = (demo_disk, demo_random), b_net = []\<rparr>"

definition demo_node :: "submit_args list Client" where
  "demo_node = NewIpfsClient \<lparr>NewRequest_check = (\<lambda>u. Inr ()), Do = (\<lambda>r. throwE (Plain ''down''))\<rparr> [] []"

abbreviation demo_write :: "submit_args list bridge \<Rightarrow> string res \<times> submit_args list bridge" where
  "demo_write \<equiv> save_and_anchor ''PAYROLL'' Inr
     (wired_hooks demo_node (SubmitRecordProfileSection demo_ledger) ''x'' (demo_file ''employee-keys.enc'')
       (demo_file ''salts.enc'') (demo_file ''document-keys.enc'')) ''i'' ''u'' [] ''x'' []"

lemma pseudonym_shapes:
  assumes "ComputeEmployeeID key = Inr e" and "ComputeUpdatedBy key user = Inr upd"
  shows "list_all is_hexdig e" "e \<noteq> []" "is_ascii upd" "upd \<noteq> []"
  using pseudonyms_are_separated [OF assms] ascii_hexdigs by auto

lemma demo_write_ok: "\<exists>res s. demo_write demo_start = (Inr res, s)"
  unfolding demo_start_def
proof (rule first_write_run)
  fix e hash upd
  assume "ComputeEmployeeID (replicate 16 (CHR ''r'')) = Inr e"
    and h: "ComputeDataHash Inr (replicate 16 (CHR ''r'')) ''x'' = Inr hash"
    and "ComputeUpdatedBy (replicate 16 (CHR ''r'')) ''u'' = Inr upd"
  note ids = pseudonym_shapes [OF this(1,3)]
  show "\<exists>res n'. SubmitRecordProfileSection demo_ledger ''x'' e ''PAYROLL''
      (build_args ''x'' e ''PAYROLL'' hash upd ''[]'') [] = (Inr res, n')"
    using demo_first_record [OF ids(1,2) digest_ascii [OF h] ids(3,4)] by blast
qed

lemma demo_start_inv:
  "wired_inv (demo_file ''employee-keys.enc'') (demo_file ''salts.enc'') (demo_file ''document-keys.enc'') demo_start"
  using demo_bridge_inv by (simp add: wired_inv_def demo_start_def demo_bridge_def)

theorem end_to_end_witness:
  "\<exists>res s key e salt hash rs. demo_write demo_start = (Inr res, s)
    \<and> file_view (demo_file ''employee-keys.enc'') (b_fs s) (key_lookup_id ''i'' []) = Some key \<and> ComputeEmployeeID key = Inr e
    \<and> ComputeDataHash Inr salt ''x'' = Inr hash \<and> chain_ok e ''PAYROLL'' rs \<and> hash \<in> DataHash ` set rs"
proof -
  obtain res s where run: "demo_write demo_start = (Inr res, s)" using demo_write_ok by blast
  from end_to_end [OF ln.chain_network_axioms demo_start_inv demo_payroll_section run]
  obtain key e salt hash rs where "file_view (demo_file ''employee-keys.enc'') (b_fs s) (key_lookup_id ''i'' []) = Some key"
    "ComputeEmployeeID key = Inr e" "ComputeDataHash Inr salt ''x'' = Inr hash" "chain_ok e ''PAYROLL'' rs"
    "hash \<in> DataHash ` set rs" by (elim exE conjE) (rule that; assumption)
  with run show ?thesis by (intro exI conjI)
qed

end
