(* ===== verification/Fullstack.thy ===== *)
theory Fullstack
  imports Endtoend
begin

text \<open>
  The whole write path in one statement: an HTTP request on a route of the bridge's table, the
  pipeline, the hook, the key and salt files, the gateway client and the chaincode on the network.
  It adds to theory Endtoend the answer of the contract API, which prints the result of the
  transaction, and the body of the HTTP response, in which a caller reads the outcome and the
  identifier of the record.
\<close>

section \<open>The answer of the network\<close>

locale answering_network = chain_network stub_of commit committed key_of c world cids_of NewSHA1 w0
  for stub_of :: "'t \<Rightarrow> 'w \<Rightarrow> stub" and commit committed key_of and c :: "'n contract"
    and world cids_of NewSHA1 w0 +
  assumes answer_law:
      "SubmitTransaction c ''RecordProfileSection'' args n = (Inr out, n') \<Longrightarrow>
       \<exists>t a w r w1. reachable stub_of commit NewSHA1 w0 w \<and> wf_args a \<and> call_args cids_of args = Some a
         \<and> serial_submit stub_of commit NewSHA1 t a w = (Inr r, w1)
         \<and> reachable stub_of commit NewSHA1 w1 (world n') \<and> out = json_print (result_json r)"
begin

text \<open>The answer is that of a record of the chain, with the submitted digest.\<close>

lemma answer_names_record:
  assumes "SubmitTransaction c ''RecordProfileSection'' (build_args ten e sec hash upd cids prev) n = (Inr out, n')"
  obtains rs rec where "holds_chain (world n') e sec rs" and "rec \<in> set rs" and "DataHash rec = hash"
    and "out = json_print (result_json (head_result rec))"
proof -
  from answer_law [OF assms] obtain t a w r w1 where w: "reachable stub_of commit NewSHA1 w0 w" and a: "wf_args a"
    "call_args cids_of (build_args ten e sec hash upd cids prev) = Some a"
    and run: "serial_submit stub_of commit NewSHA1 t a w = (Inr r, w1)"
    and later: "reachable stub_of commit NewSHA1 w1 (world n')" and out: "out = json_print (result_json r)"
    by (elim exE conjE) (rule that; assumption)
  note ids = call_args_build_Some [OF a(2)]
  obtain hd0 k where "readHead (stub_of t w) (arg_employeeID a) (arg_profileSection a) = Inr (hd0, k)"
    using run by (cases rule: submit_cases) auto
  then have k: "key_of profileKeyObjectType [e, sec] = Inr k" using readHead_key ids by metis
  obtain rs where rs: "holds_chain w e sec rs" by (rule chain_at [OF w k])
  have "\<exists>rs1 rec. holds_chain w1 e sec rs1 \<and> rec \<in> set rs1 \<and> DataHash rec = hash \<and> r = head_result rec"
    using submit_refines [of w a rs, OF _ a(1) uuid run] rs ids by (force intro: last_in_set)
  then obtain rs1 rec where rs1: "holds_chain w1 e sec rs1" "rec \<in> set rs1" "DataHash rec = hash" "r = head_result rec" by blast
  from reachable_chain [OF later uuid rs1(1)] obtain rs2 where "holds_chain (world n') e sec (rs1 @ rs2)" by blast
  then show ?thesis by (rule that) (use rs1 out in simp_all)
qed

end

lemma usable_result:
  assumes "wf_record rec"
  shows "usable_id (json_print (result_json (head_result rec))) = (if RecordID rec = [] then None else Some (RecordID rec))"
proof -
  have "wf_json (result_json (head_result rec))"
    using assms by (simp add: result_json_def head_result_def wf_record_def)
  then have "json_unmarshal (json_print (result_json (head_result rec))) = Some (result_json (head_result rec))" by (rule parse_print)
  moreover have "fold_name ''recordID'' \<noteq> fold_name ''timestamp''" "fold_name ''recordID'' \<noteq> fold_name ''version''" by code_simp+
  then have "lookup_field [(''recordID'', f)] ''timestamp'' = None" "lookup_field [(''recordID'', f)] ''version'' = None"
    for f :: "json \<Rightarrow> chaincodeResult \<Rightarrow> chaincodeResult option" by (simp_all add: lookup_field_def)
  ultimately show ?thesis
    by (simp add: usable_id_def unmarshal_chaincodeResult_def result_json_def head_result_def del: json_print.simps)
qed

section \<open>The answer of the bridge\<close>

text \<open>What a caller checks: the first member of the answer.\<close>

definition says_committed :: "response \<Rightarrow> bool" where
  "says_committed resp \<longleftrightarrow>
     has_prefix (payload resp) (CHR 0x7B # json_quote ''status'' @ '':'' @ json_quote ''committed'')"

lemma says_committed_status:
  assumes "rb_Status b \<in> {''committed'', ''rejected'', ''partial_failure'', ''error''}"
  shows "says_committed (write_json code (responseBody_json b)) \<longleftrightarrow> rb_Status b = ''committed''"
proof -
  have join: "\<exists>rest. join_with '','' (y # ys) = y @ rest" for y ys by (cases ys) auto
  obtain rest where "json_print (responseBody_json b) =
      CHR 0x7B # json_quote ''status'' @ '':'' @ json_quote (rb_Status b) @ rest"
    using join [of "json_quote ''status'' @ CHR '':'' # json_quote (rb_Status b)"]
    by (simp add: responseBody_json_def) (metis append.assoc append_Cons)
  then have "says_committed (write_json code (responseBody_json b)) \<longleftrightarrow>
      prefix (json_quote ''committed'') (json_quote (rb_Status b) @ rest @ [CHR 0x0A])"
    by (simp add: says_committed_def write_json_def has_prefix_iff del: json_print.simps)
  moreover have q: "json_quote ''committed'' = CHR 0x22 # ''committed'' @ [CHR 0x22]" "json_quote ''rejected'' = CHR 0x22 # ''rejected'' @ [CHR 0x22]"
    "json_quote ''error'' = CHR 0x22 # ''error'' @ [CHR 0x22]" "json_quote ''partial_failure'' = CHR 0x22 # ''partial_failure'' @ [CHR 0x22]"
    by code_simp+
  ultimately show ?thesis using assms by (elim insertE emptyE) (simp_all add: q)
qed

lemma classify_error: "classify (Some e) \<in> {''rejected'', ''partial_failure'', ''error''}"
  by (simp add: classify_def)

text \<open>A route says \<open>committed\<close> only when the hook returned a result with a usable identifier.\<close>

lemma committed_response:
  assumes "RegisterProfileSectionRoute ctxErr route authCfg tenantID timeout r s = (Some resp, s')" and "says_committed resp"
  obtains i user x doc recid result ident where "authenticate r authCfg = None"
    and "validateRequest r = Inr (i, user, x, doc, recid)" and "rc_Dispatch route i user recid x doc s = (Inr result, s')"
    and "usable_id result = Some ident"
    and "resp = write_json 200 (responseBody_json \<lparr>rb_Status = ''committed'', rb_RecordID = ident, rb_Detail = []\<rparr>)"
proof -
  have err: "\<not> says_committed (respond (classify (Some e)) result (Some e))" for e result
    using classify_error [of e] says_committed_status
    by (auto simp: respond_def Let_def response_body_error)
  from assms obtain i user x doc recid result where a: "authenticate r authCfg = None"
    "validateRequest r = Inr (i, user, x, doc, recid)" "rc_Dispatch route i user recid x doc s = (Inr result, s')"
    and resp: "resp = respond ''committed'' result None"
    by (auto simp: RegisterProfileSectionRoute_def respond_bc_def dispatch_def err err [of DeadlineExceeded, simplified] Let_def
        split: option.splits sum.splits prod.splits if_splits)
  have "usable_id result \<noteq> None"
  proof
    assume "usable_id result = None"
    then show False using assms(2) by (simp add: resp respond_def Let_def response_body_committed says_committed_status)
  qed
  then obtain ident where "usable_id result = Some ident" by blast
  then show ?thesis
    by (intro that [OF a]) (simp_all add: resp respond_def Let_def response_body_committed httpStatusFor_def StatusOK_def)
qed

section \<open>Properties\<close>

text \<open>C1: The whole write path. When a caller posts to the route of a section and reads \<open>committed\<close> in the
  answer, then the request carried the two right credentials and passed validation; its value, byte for byte, is
  in the operational store; the employee's key and the salt are on file; the ledger holds, in
  the hash chain of that employee and section, a record with the digest of exactly that value
  under that salt, whatever other clients do; and the record identifier in the answer is that record's.\<close>

theorem committed_answer_is_anchored:
  assumes "answering_network stub_of commit committed key_of c world cids_of NewSHA1 w0"
    and "wired_inv fk fsl fd s" and "sec \<in> set AllProfileSections"
    and "h = wired_hooks ipfs (SubmitRecordProfileSection c) t fk fsl fd"
    and "ServeHTTP (buildMux T ctxErr h reader authCfg timeout) ''POST'' (''/v1/profile-sections/'' @ sec) req s = (Some resp, s')"
    and "says_committed resp"
  shows "\<exists>i user x doc recid key e salt k rs rec.
    authenticate req authCfg = None \<and> validateRequest req = Inr (i, user, x, doc, recid)
    \<and> vals (b_op s') (op_key i sec) = Some x
    \<and> file_view fk (b_fs s') (key_lookup_id i recid) = Some key \<and> ComputeEmployeeID key = Inr e
    \<and> file_salts fsl (b_fs s') (e, sec, next_op_version (b_op s) (op_key i sec)) = Some salt
    \<and> ComputeDataHash T salt x = Inr (DataHash rec)
    \<and> key_of profileKeyObjectType [e, sec] = Inr k \<and> committed (world (b_net s')) k = map marshal_record rs
    \<and> chain_ok e sec rs \<and> rec \<in> set rs
    \<and> resp = write_json 200 (responseBody_json \<lparr>rb_Status = ''committed'', rb_RecordID = RecordID rec, rb_Detail = []\<rparr>)"
proof -
  have other: "''GET'' \<noteq> ''POST''" "''x'' \<notin> set AllProfileSections \<union> {''history'', ''verify''}"
    by (simp_all add: AllProfileSections_def)
  note route = conjunct1 [OF routes_match_sections [OF refl other assms(3)]]
  obtain i user x doc recid result ident where a: "authenticate req authCfg = None"
    "validateRequest req = Inr (i, user, x, doc, recid)"
    and run: "save_and_anchor sec T h i user recid x doc s = (Inr result, s')" and id: "usable_id result = Some ident"
    and resp: "resp = write_json 200 (responseBody_json \<lparr>rb_Status = ''committed'', rb_RecordID = ident, rb_Detail = []\<rparr>)"
    by (rule committed_response [OF assms(5) [unfolded route] assms(6), unfolded RouteConfig.simps]) (rule that; assumption)
  obtain key e salt hash upd cids q n where
    k: "ComputeEmployeeID key = Inr e" "ComputeDataHash T salt x = Inr hash" "vals (b_op s') (op_key i sec) = Some x"
    and sub: "SubmitTransaction c ''RecordProfileSection'' (build_args t e sec hash upd cids q) n = (Inr result, b_net s')"
    and on_file: "file_view fk (b_fs s') (key_lookup_id i recid) = Some key"
      "file_salts fsl (b_fs s') (e, sec, next_op_version (b_op s) (op_key i sec)) = Some salt"
    by (rule wired_submission [OF assms(2,3) run [unfolded assms(4)]]) (rule that; assumption)
  from answering_network.answer_names_record [OF assms(1) sub] obtain rs rec where
    ch: "peer.holds_chain committed key_of (world (b_net s')) e sec rs" and rec: "rec \<in> set rs" "DataHash rec = hash"
    and out: "result = json_print (result_json (head_result rec))" by blast
  note p = chain_network.axioms(1) [OF answering_network.axioms(1) [OF assms(1)]]
  from ch obtain kk where kk: "key_of profileKeyObjectType [e, sec] = Inr kk" "committed (world (b_net s')) kk = map marshal_record rs"
    and ok: "chain_ok e sec rs" unfolding peer.holds_chain_def [OF p] by blast
  have "ident = RecordID rec" using usable_result [OF chain_wf [OF ok rec(1)]] id unfolding out by (simp split: if_splits)
  with resp have "resp = write_json 200 (responseBody_json \<lparr>rb_Status = ''committed'', rb_RecordID = RecordID rec, rb_Detail = []\<rparr>)"
    by (simp only:)
  moreover have "ComputeDataHash T salt x = Inr (DataHash rec)" using k(2) rec(2) by simp
  ultimately show ?thesis
    using a k(1,3) on_file kk ok rec(1)
    by - (rule exI [of _ i], rule exI [of _ user], rule exI [of _ x], rule exI [of _ doc], rule exI [of _ recid],
        rule exI [of _ key], rule exI [of _ e], rule exI [of _ salt], rule exI [of _ kk], rule exI [of _ rs],
        rule exI [of _ rec], intro conjI; assumption)
qed

text \<open>The network of theory Endtoend answers as the contract API does.\<close>

interpretation an: answering_network peer_stub peer_commit "\<lambda>w. w" composite_key "ledger_contract demo_uuid t"
  "log_world demo_uuid t" decode_cids demo_uuid "\<lambda>k. []" for t
proof unfold_locales
  fix args n out n'
  assume "SubmitTransaction (ledger_contract demo_uuid t) ''RecordProfileSection'' args n = (Inr out, n')"
  then obtain a r where a: "call_args decode_cids args = Some a" "wf_args a" "n' = a # n" "out = json_print (result_json r)"
    "fst (serial_submit peer_stub peer_commit demo_uuid t a (log_world demo_uuid t n)) = Inr r"
    unfolding ledger_contract_def ledger_submit_def
    by (auto split: option.splits if_splits sum.splits simp del: json_print.simps)
  then have "serial_submit peer_stub peer_commit demo_uuid t a (log_world demo_uuid t n) = (Inr r, log_world demo_uuid t n')"
    by (simp add: prod_eq_iff)
  with a(1,2,4) show "\<exists>ta a w r w1. reachable peer_stub peer_commit demo_uuid (\<lambda>k. []) w \<and> wf_args a
      \<and> call_args decode_cids args = Some a \<and> serial_submit peer_stub peer_commit demo_uuid ta a w = (Inr r, w1)
      \<and> reachable peer_stub peer_commit demo_uuid w1 (log_world demo_uuid t n') \<and> out = json_print (result_json r)"
    by - (rule exI [of _ t], rule exI [of _ a], rule exI [of _ "log_world demo_uuid t n"], rule exI [of _ r],
        rule exI [of _ "log_world demo_uuid t n'"], intro conjI log_world_reachable reach_start)
qed

text \<open>The first record of an employee is answered with an identifier.\<close>

lemma demo_first_answer:
  assumes "list_all is_hexdig e" "e \<noteq> []" "is_ascii hash" "hash \<noteq> []" "is_ascii upd" "upd \<noteq> []"
  shows "\<exists>out n. SubmitRecordProfileSection demo_ledger ''x'' e ''PAYROLL'' (build_args ''x'' e ''PAYROLL'' hash upd ''[]'') []
    = (Inr out, n) \<and> usable_id out \<noteq> None"
proof -
  let ?a = "demo_call e hash upd" and ?submit = "serial_submit peer_stub peer_commit demo_uuid demo_tx"
  note facts = demo_call_facts [OF assms]
  obtain k where k: "composite_key profileKeyObjectType [e, ''PAYROLL''] = Inr k" using payroll_key [OF assms(1)] by blast
  then have chain: "pw.holds_chain (\<lambda>k. []) e ''PAYROLL'' []" by (simp add: pw.holds_chain_def chain_empty)
  then have "pw.holds_chain (\<lambda>k. []) (arg_employeeID ?a) (arg_profileSection ?a) []" by (simp add: demo_call_def)
  from pw.submit_progress [OF this facts(2) demo_uuid_text facts(3) _ _ demo_stub_works] obtain rec w where
    run: "?submit ?a (\<lambda>k. []) = (Inr (head_result rec), w)" and w: "pw.holds_chain w e ''PAYROLL'' [rec]"
    using assms(4) by (auto simp: demo_call_def head_hash_def)
  have wf: "wf_record rec" using w chain_wf by (auto simp: pw.holds_chain_def)
  have "RecordID rec \<noteq> []"
    using run
  proof (cases rule: pw.submit_cases)
    case (noop h key)
    then show ?thesis by (simp add: readHead_def peer_stub_def split: sum.splits)
  next
    case (written hd0 key ts v)
    from written(5) have "RecordID rec = demo_uuid NameSpaceOID (GetTxID (peer_stub demo_tx (\<lambda>k. [])))"
      by (simp add: head_result_def new_record_def deterministicRecordID_def)
    then show ?thesis by (simp add: demo_uuid_def)
  qed simp
  then have use: "usable_id (json_print (result_json (head_result rec))) \<noteq> None" using usable_result [OF wf] by simp
  have sub: "SubmitTransaction demo_ledger ''RecordProfileSection'' (build_args ''x'' e ''PAYROLL'' hash upd ''[]'' (head_hash [])) []
      = (Inr (json_print (result_json (head_result rec))), [?a])"
    using facts(1,2) run by (simp add: ledger_contract_def ledger_submit_def del: json_print.simps)
  have val: "IsValidProfileSection ''PAYROLL''" by (simp add: IsValidProfileSection_iff allProfileSections_def)
  have "SubmitRecordProfileSection demo_ledger ''x'' e ''PAYROLL'' (build_args ''x'' e ''PAYROLL'' hash upd ''[]'') []
      = submit_loop demo_ledger ''x'' e ''PAYROLL'' (build_args ''x'' e ''PAYROLL'' hash upd ''[]'') MaxSubmitRetries (head_hash []) []"
    by (rule ln.submit_starts_at_head [OF _ _ facts(4) val]) (use chain in simp_all)
  also have "\<dots> = (Inr (json_print (result_json (head_result rec))), [?a])"
    by (subst submit_loop.simps) (simp only: sub prod.case sum.case)
  finally show ?thesis using use by blast
qed

abbreviation stack_hook :: "submit_args list bridge Hooks" where
  "stack_hook \<equiv> wired_hooks demo_node (SubmitRecordProfileSection demo_ledger) ''x'' (demo_file ''employee-keys.enc'')
     (demo_file ''salts.enc'') (demo_file ''document-keys.enc'')"

abbreviation stack_post :: "submit_args list bridge \<Rightarrow> response option \<times> submit_args list bridge" where
  "stack_post \<equiv> ServeHTTP (buildMux Inr (\<lambda>b s s'. None) stack_hook (\<lambda>t e p. throwE (Plain ''unused'')) demo_auth 5)
     ''POST'' (''/v1/profile-sections/'' @ ''PAYROLL'') demo_good"

lemma stack_run: "\<exists>resp s'. stack_post demo_start = (Some resp, s') \<and> says_committed resp"
proof -
  obtain e hash upd where ids: "ComputeEmployeeID demo_bytes = Inr e" "ComputeDataHash Inr demo_bytes ''{}'' = Inr hash"
    "ComputeUpdatedBy demo_bytes ''u'' = Inr upd" "length e = 64" by (rule demo_ids)
  note shapes = pseudonym_shapes [OF ids(1,3)]
  from demo_first_answer [OF shapes(1,2) digest_ascii [OF ids(2)] shapes(3,4)] obtain out n where
    net: "SubmitRecordProfileSection demo_ledger ''x'' e ''PAYROLL'' (build_args ''x'' e ''PAYROLL'' hash upd ''[]'') [] = (Inr out, n)"
    and use: "usable_id out \<noteq> None" by blast
  have "next_op_version NewInMemoryOperationalStore (op_key ''i'' ''PAYROLL'') = 1"
    by (simp add: next_op_version_def NewInMemoryOperationalStore_def is_int64_def)
  then have "length (saltFileKey e ''PAYROLL'' (next_op_version NewInMemoryOperationalStore (op_key ''i'' ''PAYROLL''))) < 100"
    using ids(4) by (simp add: saltFileKey_def itoa_def nat_digits.simps)
  moreover have "length (key_lookup_id ''i'' []) < 100" by (simp add: key_lookup_id_def)
  ultimately obtain s' where run: "save_and_anchor ''PAYROLL'' Inr stack_hook ''i'' ''u'' [] ''{}'' [] demo_start = (Inr out, s')"
    using fresh_write_run [where submit = "SubmitRecordProfileSection demo_ledger" and t = "''x''" and n = "[]" and recid = "[]",
        OF ids(1-3) _ _ net] unfolding demo_start_def by blast
  have other: "''GET'' \<noteq> ''POST''" "''x'' \<notin> set AllProfileSections \<union> {''history'', ''verify''}"
    by (simp_all add: AllProfileSections_def)
  note route = conjunct1 [OF routes_match_sections [OF refl other demo_payroll_section]]
  obtain ident where "usable_id out = Some ident" using use by blast
  then have "stack_post demo_start = (Some (write_json 200 (responseBody_json
      \<lparr>rb_Status = ''committed'', rb_RecordID = ident, rb_Detail = []\<rparr>)), s')"
    unfolding route using run demo_auth_ok demo_valid
    by (simp add: RegisterProfileSectionRoute_def dispatch_def respond_bc_def respond_def Let_def response_body_committed
        httpStatusFor_def StatusOK_def)
  then show ?thesis by (simp add: says_committed_status)
qed

theorem committed_answer_is_anchored_witness:
  "\<exists>resp s' (rec :: EmployeeProfileRecord) salt. stack_post demo_start = (Some resp, s') \<and> says_committed resp
     \<and> ComputeDataHash Inr salt ''{}'' = Inr (DataHash rec)
     \<and> resp = write_json 200 (responseBody_json \<lparr>rb_Status = ''committed'', rb_RecordID = RecordID rec, rb_Detail = []\<rparr>)"
proof -
  obtain resp s' where run: "stack_post demo_start = (Some resp, s')" and say: "says_committed resp" using stack_run by blast
  from committed_answer_is_anchored [OF an.answering_network_axioms demo_start_inv demo_payroll_section refl run say]
  obtain i user x doc recid salt and rec :: EmployeeProfileRecord where v: "validateRequest demo_good = Inr (i, user, x, doc, recid)"
    and d: "ComputeDataHash Inr salt x = Inr (DataHash rec)"
    and resp: "resp = write_json 200 (responseBody_json \<lparr>rb_Status = ''committed'', rb_RecordID = RecordID rec, rb_Detail = []\<rparr>)"
    by (elim exE conjE) (rule that; assumption)
  have "x = ''{}''" using v demo_valid by simp
  with run say d resp show ?thesis
    by - (rule exI [of _ resp], rule exI [of _ s'], rule exI [of _ rec], rule exI [of _ salt], simp only: simp_thms)
qed

end
