(* ===== verification/Divergence.thy ===== *)
theory Divergence
  imports Endtoend
begin

text \<open>
  Where the two version counters part. The write path files a salt under the version of the
  operational store (writepaths/writepaths.go), the verify route looks it up under the version of the
  ledger (internal/pipeline/verify.go). Two situations in which the counters differ are shown here on the
  wired bridge over a network that runs the chaincode: a write whose anchoring failed, and a second
  record of one section. A third, the restart of the process, is in theory Bridge.
\<close>

text \<open>The verdict of the verify route when the salt it finds is not the one the digest was made with.\<close>

lemma wrong_salt_verdict:
  assumes "ComputeDataHash T new x = Inr (che_DataHash ent)" and "16 \<le> length lost"
    and "vrc_Salts cfg e sec (che_Version ent) s = (Inr lost, s1)" and "x \<noteq> []" and "x \<noteq> ''null''"
  shows "new = lost \<or> (\<exists>cx. T x = Inr cx \<and> sha_collision (lost @ cx) (new @ cx))
    \<or> vr_Status (fst (compare_with_latest T cfg e sec x [ent] s)) = ''compromised''"
proof -
  obtain cx where cx: "T x = Inr cx" "che_DataHash ent = ''sha256:'' @ hex_encode (sha256 (new @ cx))"
    using assms(1) by (auto simp: ComputeDataHash_Inr)
  define h where "h = ''sha256:'' @ hex_encode (sha256 (lost @ cx))"
  have h: "ComputeDataHash T lost x = Inr h"
    using cx(1) assms(2) by (simp add: ComputeDataHash_Inr Digest.MinSaltBytes_def h_def)
  show ?thesis
  proof (cases "h = che_DataHash ent")
    case True
    then have "sha256 (lost @ cx) = sha256 (new @ cx)" using cx(2) by (simp add: h_def hex_encode_inject)
    then show ?thesis using cx(1) unfolding sha_collision_def by (metis append_same_eq)
  next
    case False
    then show ?thesis using assms(3-5) h by (simp add: compare_with_latest_def Let_def)
  qed
qed

text \<open>A successful write that is the only record of its key on the ledger: it is version 1 there, its salt
  is filed under the version of the operational store, and no other salt of the section changed.\<close>

lemma only_record_written:
  assumes "chain_network stub_of commit committed key_of c world cids_of NewSHA1 w0"
    and "wired_inv fk fsl fd s" and "sec \<in> set AllProfileSections"
    and "save_and_anchor sec T (wired_hooks ipfs (SubmitRecordProfileSection c) t fk fsl fd) i user recid x doc s = (Inr res, s')"
    and "Some key \<in> {file_view fk (b_fs s) (key_lookup_id i recid), file_view fk (b_fs s') (key_lookup_id i recid)}"
    and "ComputeEmployeeID key = Inr e" and "key_of profileKeyObjectType [e, sec] = Inr k"
    and "committed (world (b_net s')) k = [marshal_record rec]" and "wf_record rec"
  obtains new where "Version rec = 1" and "file_inv fsl (b_fs s')" and "ComputeDataHash T new x = Inr (DataHash rec)"
    and "file_salts fsl (b_fs s') (e, sec, next_op_version (b_op s) (op_key i sec)) = Some new"
    and "\<And>v. v \<noteq> next_op_version (b_op s) (op_key i sec) \<Longrightarrow>
      file_salts fsl (b_fs s') (e, sec, v) = file_salts fsl (b_fs s) (e, sec, v)"
proof -
  obtain key' e' new hash upd cids q n where
    k: "ComputeEmployeeID key' = Inr e'" "ComputeDataHash T new x = Inr hash"
    and sub: "SubmitTransaction c ''RecordProfileSection'' (build_args t e' sec hash upd cids q) n = (Inr res, b_net s')"
    and inv: "file_inv fsl (b_fs s')"
    and on_file: "file_view fk (b_fs s) (key_lookup_id i recid) \<in> {None, Some key'}"
      "file_view fk (b_fs s') (key_lookup_id i recid) = Some key'"
    and salts: "file_salts fsl (b_fs s') (e', sec, next_op_version (b_op s) (op_key i sec)) = Some new"
      "\<And>v. v \<noteq> next_op_version (b_op s) (op_key i sec) \<Longrightarrow>
        file_salts fsl (b_fs s') (e', sec, v) = file_salts fsl (b_fs s) (e', sec, v)"
    by (rule wired_submission [OF assms(2-4)]) (rule that; assumption)
  have e: "e' = e" using on_file k(1) assms(5,6) by auto
  note rec = chain_network.only_record [OF assms(1) sub [unfolded e] assms(7-9)]
  show ?thesis by (rule that [of new]) (use rec k(2) inv salts e in simp_all)
qed

lemma wired_salt_read:
  assumes "file_inv fsl (b_fs s)" and "GetSalt (Salts (wired_hooks ipfs submit t fk fsl fd)) e sec v s = (Inr salt, s1)"
  shows "file_salts fsl (b_fs s) (e, sec, v) = Some salt"
  using FileSaltStore_GetSalt_ok [OF assms(1)] assms(2)
  by (auto simp: wired_defs on_files_def on_part_def file_salts_def split: prod.splits)

lemma no_salt_verdict:
  assumes "file_inv fsl (b_fs s)" and "vrc_Salts cfg = GetSalt (Salts (wired_hooks ipfs submit t fk fsl fd))"
    and "file_salts fsl (b_fs s) (e, sec, che_Version (latest_entry c cs)) = None" and "x \<noteq> []" and "x \<noteq> ''null''"
  shows "vr_Status (fst (compare_with_latest T cfg e sec x (c # cs) s)) = ''error''"
proof -
  obtain q s1 where get: "vrc_Salts cfg e sec (che_Version (latest_entry c cs)) s = (q, s1)" by (metis surj_pair)
  have "\<nexists>salt. q = Inr salt"
    using wired_salt_read [OF assms(1)] get assms(2,3) by fastforce
  then obtain err where "q = Inl err" by (cases q) auto
  with get assms(4,5) show ?thesis by (simp add: compare_with_latest_def Let_def)
qed

text \<open>C15: A failed anchoring makes a later, correct record look forged. The first write of a section took
  a salt for version 1 and was then not accepted by the ledger; the second write succeeds. It is
  version 2 of the operational store and its salt is filed under 2, but it is version 1 of the ledger.
  The verify route looks for the salt under the ledger's version, finds the one of the lost write, and
  answers \<open>compromised\<close> for exactly the value that was anchored, unless the two salts are equal or
  give a SHA-256 collision of the two salted forms of the value.\<close>

theorem failed_anchor_raises_false_alarm:
  assumes "chain_network stub_of commit committed key_of c world cids_of NewSHA1 w0"
    and "wired_inv fk fsl fd s" and "sec \<in> set AllProfileSections" and "x \<noteq> []" and "x \<noteq> ''null''"
    and "file_view fk (b_fs s) (key_lookup_id i recid) = Some key" and "ComputeEmployeeID key = Inr e"
    and "file_salts fsl (b_fs s) (e, sec, 1) = Some lost" and "16 \<le> length lost"
    and "versions (b_op s) (op_key i sec) = Some 1"
    and "h = wired_hooks ipfs (SubmitRecordProfileSection c) t fk fsl fd"
    and "save_and_anchor sec T h i user recid x doc s = (Inr res, s')"
    and "key_of profileKeyObjectType [e, sec] = Inr k" and "committed (world (b_net s')) k = [marshal_record rec]"
    and "wf_record rec" and "vrc_Salts cfg = GetSalt (Salts h)"
    and "GetSalt (Salts h) e sec 1 s' = (Inr salt, s1)"
    and "che_Version ent = Version rec" and "che_DataHash ent = DataHash rec"
  shows "Version rec = 1 \<and> (\<exists>new. file_salts fsl (b_fs s') (e, sec, 2) = Some new
    \<and> ComputeDataHash T new x = Inr (DataHash rec)
    \<and> (new = lost \<or> (\<exists>cx. T x = Inr cx \<and> sha_collision (lost @ cx) (new @ cx))
       \<or> vr_Status (fst (compare_with_latest T cfg e sec x [ent] s')) = ''compromised''))"
proof -
  have two: "next_op_version (b_op s) (op_key i sec) = 2" using assms(10) by (simp add: next_op_version_def is_int64_def)
  from assms(6) have on_file: "Some key \<in> {file_view fk (b_fs s) (key_lookup_id i recid), file_view fk (b_fs s') (key_lookup_id i recid)}"
    by simp
  obtain new where w: "Version rec = 1" "file_inv fsl (b_fs s')" "ComputeDataHash T new x = Inr (DataHash rec)"
    "file_salts fsl (b_fs s') (e, sec, 2) = Some new"
    "\<And>v. v \<noteq> 2 \<Longrightarrow> file_salts fsl (b_fs s') (e, sec, v) = file_salts fsl (b_fs s) (e, sec, v)"
    by (rule only_record_written [OF assms(1-3) assms(12) [unfolded assms(11)] on_file assms(7,13-15), unfolded two])
      (rule that; assumption)
  have "salt = lost"
    using wired_salt_read [OF w(2) assms(17) [unfolded assms(11)]] w(5) [of 1] assms(8) by simp
  with assms(16,17,18) w(1) have "vrc_Salts cfg e sec (che_Version ent) s' = (Inr lost, s1)" by simp
  from wrong_salt_verdict [OF _ assms(9) this assms(4,5), of T new] w assms(19) show ?thesis by auto
qed

text \<open>C16: A second record of a section cannot be verified. The operational store counts the writes of
  an employee and section and ignores the record identity; the ledger counts the versions of
  a pseudonym, which depends on it. When a hook succeeds for a record identity with no record before,
  while the section was written before under another identity, the record is version 1 on the ledger
  and its salt is filed under another version. The verify route then answers \<open>error\<close> for the value
  that was just anchored, whatever the disk does, although the digest on the ledger is right.\<close>

theorem second_record_cannot_be_verified:
  assumes "chain_network stub_of commit committed key_of c world cids_of NewSHA1 w0"
    and "wired_inv fk fsl fd s" and "sec \<in> set AllProfileSections" and "x \<noteq> []" and "x \<noteq> ''null''"
    and "versions (b_op s) (op_key i sec) = Some n" and "0 < n" and "n < 2 ^ 63 - 1"
    and "h = wired_hooks ipfs (SubmitRecordProfileSection c) t fk fsl fd"
    and "save_and_anchor sec T h i user recid x doc s = (Inr res, s')"
    and "file_view fk (b_fs s') (key_lookup_id i recid) = Some key" and "ComputeEmployeeID key = Inr e"
    and "file_salts fsl (b_fs s) (e, sec, 1) = None"
    and "key_of profileKeyObjectType [e, sec] = Inr k" and "committed (world (b_net s')) k = [marshal_record rec]"
    and "wf_record rec" and "vrc_Salts cfg = GetSalt (Salts h)" and "che_Version ent = Version rec"
  shows "Version rec = 1 \<and> vr_Status (fst (compare_with_latest T cfg e sec x [ent] s')) = ''error''
    \<and> (\<exists>new. file_salts fsl (b_fs s') (e, sec, n + 1) = Some new \<and> ComputeDataHash T new x = Inr (DataHash rec))"
proof -
  have v: "next_op_version (b_op s) (op_key i sec) = n + 1"
    using assms(6-8) by (simp add: next_op_version_def is_int64_def)
  from assms(11) have on_file: "Some key \<in> {file_view fk (b_fs s) (key_lookup_id i recid), file_view fk (b_fs s') (key_lookup_id i recid)}"
    by simp
  obtain new where w: "Version rec = 1" "file_inv fsl (b_fs s')" "ComputeDataHash T new x = Inr (DataHash rec)"
    "file_salts fsl (b_fs s') (e, sec, n + 1) = Some new"
    "\<And>v. v \<noteq> n + 1 \<Longrightarrow> file_salts fsl (b_fs s') (e, sec, v) = file_salts fsl (b_fs s) (e, sec, v)"
    by (rule only_record_written [OF assms(1-3) assms(10) [unfolded assms(9)] on_file assms(12,14-16), unfolded v])
      (rule that; assumption)
  have none: "file_salts fsl (b_fs s') (e, sec, 1) = None" using w(5) [of 1] assms(7,13) by simp
  then have "file_salts fsl (b_fs s') (e, sec, che_Version (latest_entry ent [])) = None" by (simp add: assms(18) w(1))
  from no_salt_verdict [OF w(2) assms(17) [unfolded assms(9)] this assms(4,5)] w show ?thesis by blast
qed

text \<open>The files after a first write that was lost: the employee's key, and a salt for version 1.\<close>

abbreviation key_file :: fileStore where
  "key_file \<equiv> demo_file ''employee-keys.enc''"

abbreviation salt_file :: fileStore where
  "salt_file \<equiv> demo_file ''salts.enc''"

abbreviation doc_file :: fileStore where
  "doc_file \<equiv> demo_file ''document-keys.enc''"

abbreviation lost_salt :: string where
  "lost_salt \<equiv> replicate 16 (CHR ''q'')"

abbreviation demo_inv :: "'n bridge \<Rightarrow> bool" where
  "demo_inv \<equiv> wired_inv key_file salt_file (demo_file ''document-keys.enc'')"

lemma saltFileKey_short:
  assumes "length e = 64"
  shows "length (saltFileKey e ''PAYROLL'' 1) < 100" and "length (saltFileKey e ''PAYROLL'' 2) < 100"
  using assms by (simp_all add: saltFileKey_def itoa_def nat_digits.simps)

lemma after_lost_write:
  fixes n :: 'n
  assumes "length e = 64"
  shows "\<exists>x. calm x \<and> demo_inv \<lparr>b_op = op, b_fs = x, b_net = n\<rparr> \<and> file_view key_file x = [''i'' \<mapsto> demo_bytes]
    \<and> file_view doc_file x = Map.empty \<and> file_view salt_file x = [saltFileKey e ''PAYROLL'' 1 \<mapsto> lost_salt]"
proof -
  let ?s = "(demo_disk, demo_random)" and ?b = "\<lambda>x. \<lparr>b_op = op, b_fs = x, b_net = n\<rparr>"
  have inv: "demo_inv (?b ?s)" using demo_bridge_inv by (simp add: wired_inv_def demo_bridge_def)
  have c: "calm ?s" and none: "file_data f (fst ?s) = Inr []" for f
    by (simp_all add: calm_def demo_disk_def file_data_def)
  obtain x1 where k: "file_GetOrCreate ''employeeKey_i'' key_file ''i'' ?s = (Inr demo_bytes, x1)" "calm x1"
    using calm_create(1) [OF c _ none, where f = key_file and k = "''i''" and what = "''employeeKey_i''"] gob_small_entries
    by auto
  have "file_inv key_file ?s" and doc: "file_inv doc_file ?s" using inv by (simp_all add: wired_inv_def)
  from file_GetOrCreate_ok [OF this(1) k(1)] none [of key_file] have
    k1: "file_inv key_file x1" "file_view key_file x1 = [''i'' \<mapsto> demo_bytes]" by (simp_all add: file_view_def)
  note doc1 = other_files(1,2) [OF demo_files_apart(2) doc k(1) k1(1) file_ops_keep(1)]
  from on_key_file [of _ _ _ "?b ?s", OF inv _ k1(1) refl file_ops_keep(1)] k(1) have i1: "demo_inv (?b x1)" by simp
  let ?data = "[(saltFileKey e ''PAYROLL'' 1, lost_salt)]"
  have "length (gob_encode ?data) < 2 ^ 62" using saltFileKey_short [OF assms] by (intro gob_small_entries) simp_all
  from calm_save [OF k(2) _ this, of salt_file] obtain x where x: "save salt_file ?data x1 = (Inr (), x)" "calm x" by auto
  have "file_inv salt_file (fst x1, snd x1)" using i1 by (simp add: wired_inv_def)
  from save_view [OF this, of ?data "Inr ()" x] x(1) have v: "file_inv salt_file x" "file_view salt_file x = map_of ?data" by simp_all
  from on_salt_file [of _ _ _ "?b x1", OF i1 _ v(1) refl keeps_save] x(1) have i2: "demo_inv (?b x)" by simp
  have "apart salt_file key_file" using demo_files_apart(1) by (rule apart_sym)
  from other_files(2) [OF this k1(1) x(1) v(1) keeps_save] k1(2) have "file_view key_file x = [''i'' \<mapsto> demo_bytes]" by simp
  moreover from other_files(2) [OF demo_files_apart(3) doc1(1) x(1) v(1) keeps_save] doc1(2) none [of doc_file]
  have "file_view doc_file x = Map.empty" by (simp add: file_view_def)
  ultimately show ?thesis using x(2) i2 v(2) by (intro exI [of _ x]) simp
qed

lemma single_entry:
  assumes "map_of data = [k \<mapsto> v]" and "distinct (map fst data)"
  shows "data = [(k, v)]"
proof (cases data)
  case (Cons d ds)
  obtain a b where d: "d = (a, b)" by (cases d)
  have "dom (map_of data) = {k}" using assms(1) by simp
  then have "set (map fst data) = {k}" by (simp add: dom_map_of_conv_image_fst)
  with Cons d assms(2) have "ds = []" "a = k" by (cases ds; auto)+
  with assms(1) Cons d show ?thesis by (auto simp: fun_eq_iff split: if_splits)
qed (use fun_cong [OF assms(1), of k] in simp)

lemma saltFileKey_versions: "saltFileKey e p 2 \<noteq> saltFileKey e p 1"
  by (simp add: saltFileKey_def itoa_def nat_digits.simps digit_def)

lemma demo_second_salt:
  assumes "calm x" and "file_inv salt_file x" and "file_view salt_file x = [saltFileKey e ''PAYROLL'' 1 \<mapsto> lost_salt]"
    and "length e = 64"
  shows "\<exists>x'. FileSaltStore_PutSalt salt_file e ''PAYROLL'' 2 x = (Inr demo_bytes, x') \<and> calm x'"
proof -
  obtain data where d: "file_data salt_file (fst x) = Inr data" "distinct (map fst data)"
    using assms(2) by (auto simp: file_inv_def)
  with assms(3) have "map_of data = [saltFileKey e ''PAYROLL'' 1 \<mapsto> lost_salt]" by (simp add: file_view_def)
  with d(2) have data: "data = [(saltFileKey e ''PAYROLL'' 1, lost_salt)]" by (intro single_entry)
  have "map_of data (saltFileKey e ''PAYROLL'' 2) = None" using saltFileKey_versions by (simp add: data)
  moreover have "length (gob_encode (AList.update (saltFileKey e ''PAYROLL'' 2) demo_bytes data)) < 2 ^ 62"
    using saltFileKey_short [OF assms(4)] saltFileKey_versions by (intro gob_small_entries) (simp_all add: data)
  ultimately show ?thesis using calm_create(2) [OF assms(1) _ d(1)] by simp
qed

lemma tick_file [simp]: "file_inv f (tick s) = file_inv f s" "file_view f (tick s) = file_view f s"
  by (simp_all add: tick_def file_inv_def file_view_def file_data_def disk_ok_def)

definition lost_op :: op_state where
  "lost_op = \<lparr>versions = [op_key ''i'' ''PAYROLL'' \<mapsto> 1], vals = Map.empty\<rparr>"

abbreviation demo_hook :: "submit_args list bridge Hooks" where
  "demo_hook \<equiv> wired_hooks demo_node (SubmitRecordProfileSection demo_ledger) ''x'' key_file salt_file
     (demo_file ''document-keys.enc'')"

lemma write_after_lost:
  obtains e s res s' k rec s1 where "ComputeEmployeeID demo_bytes = Inr e" and "demo_inv s"
    and "file_view key_file (b_fs s) ''i'' = Some demo_bytes" and "file_salts salt_file (b_fs s) (e, ''PAYROLL'', 1) = Some lost_salt"
    and "b_op s = lost_op" and "demo_write s = (Inr res, s')"
    and "composite_key profileKeyObjectType [e, ''PAYROLL''] = Inr k"
    and "log_world demo_uuid demo_tx (b_net s') k = [marshal_record rec]" and "wf_record rec"
    and "GetSalt (Salts demo_hook) e ''PAYROLL'' 1 s' = (Inr lost_salt, s1)"
    and "file_salts salt_file (b_fs s') (e, ''PAYROLL'', 2) = Some demo_bytes"
proof -
  obtain e hash upd where ids: "ComputeEmployeeID demo_bytes = Inr e" "ComputeDataHash Inr demo_bytes ''x'' = Inr hash"
    "ComputeUpdatedBy demo_bytes ''u'' = Inr upd" "length e = 64" by (rule demo_ids)
  obtain x where x: "calm x" "demo_inv \<lparr>b_op = lost_op, b_fs = x, b_net = ([] :: submit_args list)\<rparr>"
    "file_view key_file x = [''i'' \<mapsto> demo_bytes]" "file_view salt_file x = [saltFileKey e ''PAYROLL'' 1 \<mapsto> lost_salt]"
    using after_lost_write [OF ids(4), of lost_op "[]"] by (elim exE conjE) (rule that; assumption)
  let ?s = "\<lparr>b_op = lost_op, b_fs = x, b_net = ([] :: submit_args list)\<rparr>"
  have inv: "file_inv key_file x" "file_inv salt_file x" using x(2) by (simp_all add: wired_inv_def)
  note key = calm_found(1) [OF x(1) inv(1), of "''i''" demo_bytes "''employeeKey_i''"]
  obtain x' where p: "FileSaltStore_PutSalt salt_file e ''PAYROLL'' 2 (tick x) = (Inr demo_bytes, x')" "calm x'"
    using demo_second_salt [of "tick x" e] x(1,4) inv(2) ids(4) by auto
  from FileSaltStore_PutSalt_ok [OF _ p(1)] inv(2) x(4) have v: "file_inv salt_file x'"
    "file_view salt_file x' = [saltFileKey e ''PAYROLL'' 1 \<mapsto> lost_salt, saltFileKey e ''PAYROLL'' 2 \<mapsto> demo_bytes]" by simp_all
  then have salts: "file_salts salt_file x' (e, ''PAYROLL'', 1) = Some lost_salt"
    "file_salts salt_file x' (e, ''PAYROLL'', 2) = Some demo_bytes"
    using saltFileKey_versions by (simp_all add: file_salts_def eq_commute)
  note shapes = pseudonym_shapes [OF ids(1,3)]
  from demo_first_record [OF shapes(1,2) digest_ascii [OF ids(2)] shapes(3,4)] obtain out n k rec where
    net: "SubmitRecordProfileSection demo_ledger ''x'' e ''PAYROLL'' (build_args ''x'' e ''PAYROLL'' hash upd ''[]'') [] = (Inr out, n)"
    "composite_key profileKeyObjectType [e, ''PAYROLL''] = Inr k" "log_world demo_uuid demo_tx n k = [marshal_record rec]"
    "wf_record rec" by (elim exE conjE) (rule that; assumption)
  have "next_op_version lost_op (op_key ''i'' ''PAYROLL'') = 2" by (simp add: next_op_version_def lost_op_def is_int64_def)
  then have put: "FileSaltStore_PutSalt salt_file e ''PAYROLL'' (next_op_version (b_op ?s) (op_key ''i'' ''PAYROLL'')) (tick x)
      = (Inr demo_bytes, x')" using p(1) by simp
  have "\<exists>op. demo_write ?s = (Inr out, \<lparr>b_op = op, b_fs = x', b_net = n\<rparr>)"
    by (rule save_and_anchor_run [OF _ ids(1) put ids(2,3)]) (use key x(3) net(1) in \<open>simp_all add: key_lookup_id_def\<close>)
  then obtain op where run: "demo_write ?s = (Inr out, \<lparr>b_op = op, b_fs = x', b_net = n\<rparr>)" by blast
  have get: "GetSalt (Salts demo_hook) e ''PAYROLL'' 1 \<lparr>b_op = op, b_fs = x', b_net = n\<rparr>
      = (Inr lost_salt, \<lparr>b_op = op, b_fs = tick x', b_net = n\<rparr>)"
    using calm_found(2) [OF p(2) v(1) salts(1)] by (simp add: wired_defs on_files_def on_part_def)
  show ?thesis
    by (rule that [OF ids(1) x(2) _ _ _ run net(2) _ net(4) get])
      (use x(3,4) net(3) salts in \<open>simp_all add: file_salts_def\<close>)
qed

definition demo_verify :: "submit_args list bridge VerifyRouteConfig" where
  "demo_verify = \<lparr>vrc_Keys = GetOrCreateEmployeeKey (Keys demo_hook), vrc_Salts = GetSalt (Salts demo_hook),
     vrc_Ledger = (\<lambda>t e p. throwE (Plain ''unused'')), vrc_TenantID = ''x''\<rparr>"

theorem failed_anchor_raises_false_alarm_witness:
  "\<exists>s res s' e (rec :: EmployeeProfileRecord). demo_write s = (Inr res, s')
     \<and> ComputeDataHash Inr demo_bytes ''x'' = Inr (DataHash rec)
     \<and> (sha_collision (lost_salt @ ''x'') (demo_bytes @ ''x'')
        \<or> vr_Status (fst (compare_with_latest Inr demo_verify e ''PAYROLL'' ''x''
             [zero_history_entry\<lparr>che_Version := 1, che_DataHash := DataHash rec\<rparr>] s')) = ''compromised'')"
proof -
  obtain e s res s' k rec s1 where r: "ComputeEmployeeID demo_bytes = Inr e" "demo_inv s"
    "file_view key_file (b_fs s) ''i'' = Some demo_bytes" "file_salts salt_file (b_fs s) (e, ''PAYROLL'', 1) = Some lost_salt"
    "b_op s = lost_op" "demo_write s = (Inr res, s')" "composite_key profileKeyObjectType [e, ''PAYROLL''] = Inr k"
    "log_world demo_uuid demo_tx (b_net s') k = [marshal_record rec]" "wf_record rec"
    "GetSalt (Salts demo_hook) e ''PAYROLL'' 1 s' = (Inr lost_salt, s1)"
    "file_salts salt_file (b_fs s') (e, ''PAYROLL'', 2) = Some demo_bytes" by (rule write_after_lost)
  let ?ent = "zero_history_entry\<lparr>che_Version := Version rec, che_DataHash := DataHash rec\<rparr>"
  have key: "file_view key_file (b_fs s) (key_lookup_id ''i'' []) = Some demo_bytes" using r(3) by (simp add: key_lookup_id_def)
  have ver: "versions (b_op s) (op_key ''i'' ''PAYROLL'') = Some 1" by (simp add: r(5) lost_op_def)
  have x: "''x'' \<noteq> []" "''x'' \<noteq> ''null''" "16 \<le> length lost_salt" by simp_all
  have cfg: "vrc_Salts demo_verify = GetSalt (Salts demo_hook)" by (simp add: demo_verify_def)
  have hook: "demo_hook = wired_hooks demo_node (SubmitRecordProfileSection demo_ledger) ''x'' key_file salt_file
     (demo_file ''document-keys.enc'')" by (rule refl)
  have ent: "che_Version ?ent = Version rec" "che_DataHash ?ent = DataHash rec" by simp_all
  have "Version rec = 1 \<and> (\<exists>new. file_salts salt_file (b_fs s') (e, ''PAYROLL'', 2) = Some new
    \<and> ComputeDataHash Inr new ''x'' = Inr (DataHash rec)
    \<and> (new = lost_salt \<or> (\<exists>cx. (Inr ''x'' :: string res) = Inr cx \<and> sha_collision (lost_salt @ cx) (new @ cx))
       \<or> vr_Status (fst (compare_with_latest Inr demo_verify e ''PAYROLL'' ''x'' [?ent] s')) = ''compromised''))"
    by (rule failed_anchor_raises_false_alarm [where committed = "\<lambda>w. w" and world = "log_world demo_uuid demo_tx"
          and c = demo_ledger and key_of = composite_key, OF ln.chain_network_axioms r(2) demo_payroll_section x(1,2) key r(1,4) x(3) ver
          hook r(6-9) cfg r(10) ent])
  moreover have "demo_bytes \<noteq> lost_salt" by simp
  ultimately have "ComputeDataHash Inr demo_bytes ''x'' = Inr (DataHash rec)
    \<and> (sha_collision (lost_salt @ ''x'') (demo_bytes @ ''x'')
       \<or> vr_Status (fst (compare_with_latest Inr demo_verify e ''PAYROLL'' ''x''
            [zero_history_entry\<lparr>che_Version := 1, che_DataHash := DataHash rec\<rparr>] s')) = ''compromised'')"
    using r(11) by (elim conjE exE) (simp only: option.inject sum.inject simp_thms)
  with r(6) show ?thesis
    by - (rule exI [of _ s], rule exI [of _ res], rule exI [of _ s'], rule exI [of _ e], rule exI [of _ rec], rule conjI; assumption)
qed

text \<open>A section that was written once before; now a record identity gets its first record.\<close>

lemma second_record_run:
  obtains e res s' k rec where "ComputeEmployeeID demo_bytes = Inr e"
    and "save_and_anchor ''PAYROLL'' Inr demo_hook ''i'' ''u'' ''r'' ''x'' [] (demo_start\<lparr>b_op := lost_op\<rparr>) = (Inr res, s')"
    and "file_view key_file (b_fs s') (key_lookup_id ''i'' ''r'') = Some demo_bytes"
    and "composite_key profileKeyObjectType [e, ''PAYROLL''] = Inr k"
    and "log_world demo_uuid demo_tx (b_net s') k = [marshal_record rec]" and "wf_record rec"
proof -
  obtain e hash upd where ids: "ComputeEmployeeID demo_bytes = Inr e" "ComputeDataHash Inr demo_bytes ''x'' = Inr hash"
    "ComputeUpdatedBy demo_bytes ''u'' = Inr upd" "length e = 64" by (rule demo_ids)
  note shapes = pseudonym_shapes [OF ids(1,3)]
  from demo_first_record [OF shapes(1,2) digest_ascii [OF ids(2)] shapes(3,4)] obtain out n k rec where
    net: "SubmitRecordProfileSection demo_ledger ''x'' e ''PAYROLL'' (build_args ''x'' e ''PAYROLL'' hash upd ''[]'') [] = (Inr out, n)"
    "composite_key profileKeyObjectType [e, ''PAYROLL''] = Inr k" "log_world demo_uuid demo_tx n k = [marshal_record rec]"
    "wf_record rec" by (elim exE conjE) (rule that; assumption)
  have "next_op_version lost_op (op_key ''i'' ''PAYROLL'') = 2" by (simp add: next_op_version_def lost_op_def is_int64_def)
  then have "length (saltFileKey e ''PAYROLL'' (next_op_version lost_op (op_key ''i'' ''PAYROLL''))) < 100"
    using saltFileKey_short(2) [OF ids(4)] by simp
  moreover have "length (key_lookup_id ''i'' ''r'') < 100" by (simp add: key_lookup_id_def)
  ultimately have "\<exists>op' x. save_and_anchor ''PAYROLL'' Inr demo_hook ''i'' ''u'' ''r'' ''x'' []
      \<lparr>b_op = lost_op, b_fs = (demo_disk, demo_random), b_net = []\<rparr> = (Inr out, \<lparr>b_op = op', b_fs = x, b_net = n\<rparr>)
    \<and> file_view key_file x (key_lookup_id ''i'' ''r'') = Some demo_bytes"
    using fresh_write_run [where submit = "SubmitRecordProfileSection demo_ledger" and t = "''x''" and n = "[]", OF ids(1-3) _ _ net(1)]
    by blast
  then obtain op' x where run: "save_and_anchor ''PAYROLL'' Inr demo_hook ''i'' ''u'' ''r'' ''x'' []
      (demo_start\<lparr>b_op := lost_op\<rparr>) = (Inr out, \<lparr>b_op = op', b_fs = x, b_net = n\<rparr>)"
    and key: "file_view key_file x (key_lookup_id ''i'' ''r'') = Some demo_bytes"
    unfolding demo_start_def by (simp only: bridge.simps) blast
  show ?thesis by (rule that [OF ids(1) run _ net(2) _ net(4)]) (simp_all only: bridge.simps key net(3))
qed

theorem second_record_cannot_be_verified_witness:
  "\<exists>res s' e ent. save_and_anchor ''PAYROLL'' Inr demo_hook ''i'' ''u'' ''r'' ''x'' [] (demo_start\<lparr>b_op := lost_op\<rparr>) = (Inr res, s')
     \<and> vr_Status (fst (compare_with_latest Inr demo_verify e ''PAYROLL'' ''x'' [ent] s')) = ''error''"
proof -
  obtain e res s' k rec where r: "ComputeEmployeeID demo_bytes = Inr e"
    "save_and_anchor ''PAYROLL'' Inr demo_hook ''i'' ''u'' ''r'' ''x'' [] (demo_start\<lparr>b_op := lost_op\<rparr>) = (Inr res, s')"
    "file_view key_file (b_fs s') (key_lookup_id ''i'' ''r'') = Some demo_bytes"
    "composite_key profileKeyObjectType [e, ''PAYROLL''] = Inr k"
    "log_world demo_uuid demo_tx (b_net s') k = [marshal_record rec]" "wf_record rec" by (rule second_record_run)
  let ?s = "demo_start\<lparr>b_op := lost_op\<rparr>" and ?ent = "zero_history_entry\<lparr>che_Version := Version rec\<rparr>"
  have inv: "demo_inv ?s" using demo_start_inv by (simp add: wired_inv_def)
  have ver: "versions (b_op ?s) (op_key ''i'' ''PAYROLL'') = Some 1" by (simp add: lost_op_def)
  have x: "''x'' \<noteq> []" "''x'' \<noteq> ''null''" "(0 :: int) < 1" "(1 :: int) < 2 ^ 63 - 1" by simp_all
  have none: "file_salts salt_file (b_fs ?s) (e, ''PAYROLL'', 1) = None"
    by (simp add: file_salts_def file_view_def file_data_def demo_start_def demo_disk_def)
  have cfg: "vrc_Salts demo_verify = GetSalt (Salts demo_hook)" by (simp add: demo_verify_def)
  have ent: "che_Version ?ent = Version rec" by simp
  have "Version rec = 1 \<and> vr_Status (fst (compare_with_latest Inr demo_verify e ''PAYROLL'' ''x'' [?ent] s')) = ''error''
    \<and> (\<exists>new. file_salts salt_file (b_fs s') (e, ''PAYROLL'', 1 + 1) = Some new \<and> ComputeDataHash Inr new ''x'' = Inr (DataHash rec))"
    by (rule second_record_cannot_be_verified [where committed = "\<lambda>w. w" and world = "log_world demo_uuid demo_tx"
          and c = demo_ledger and key_of = composite_key, OF ln.chain_network_axioms inv demo_payroll_section x(1,2) ver x(3,4)
          refl r(2,3,1) none r(4-6) cfg ent])
  with r(2) show ?thesis
    by - (rule exI [of _ res], rule exI [of _ s'], rule exI [of _ e], rule exI [of _ ?ent], elim conjE, rule conjI; assumption)
qed

end
