(* ===== verification/Erasure.thy ===== *)
theory Erasure
  imports Divergence
begin

text \<open>
  Erasure of an employee on the wired bridge (writepaths/erasure.go over the encrypted files of
  keystore/filestore.go), on every outcome. A failed erasure keeps the employee key, from which
  the pseudonym of the salts is derived, so it can be repeated; a successful one removes the key,
  the document key, the values and every salt of the pseudonym from the files, after which no
  value can be compared with the records that stay on the ledger, and the verify route resolves the
  employee to the pseudonym of a new key.
\<close>

context hooks_env
begin

lemma erase_sections_keys:
  "inv s \<Longrightarrow> set ss \<subseteq> set AllProfileSections \<Longrightarrow> erase_sections h i ss s = (r, s') \<Longrightarrow>
   inv s' \<and> v_keys (view s') = v_keys (view s) \<and> v_salts (view s') = v_salts (view s)"
proof (induction ss arbitrary: s)
  case (Cons sec ss)
  obtain q s1 where d: "DeleteSection (Store h) i sec s = (q, s1)" by (metis surj_pair)
  from unsave_law [OF Cons.prems(1) _ d] Cons.prems(2)
  have "inv s1 \<and> v_keys (view s1) = v_keys (view s) \<and> v_salts (view s1) = v_salts (view s)" by (cases q) auto
  with Cons.IH [of s1] Cons.prems(2,3) d show ?case by (cases q) auto
qed simp

text \<open>A failed erasure leaves the employee key where it was.\<close>

lemma Erase_failure:
  assumes "inv s" and "Erase h i s = (Inl err, s')" and "v_keys (view s) i = Some key" and "ComputeEmployeeID key = Inr e"
  shows "inv s' \<and> v_keys (view s') = v_keys (view s)
    \<and> (\<forall>k. v_salts (view s') k = v_salts (view s) k \<or> fst k = e \<and> v_salts (view s') k = None)"
proof -
  let ?kept = "\<lambda>t. inv t \<and> v_keys (view t) = v_keys (view s) \<and> v_salts (view t) = v_salts (view s)"
  let ?docs = "case DocumentKeys h of None \<Rightarrow> returnE ()
      | Some dk \<Rightarrow> mapErr (wrap ''writepaths: erasure step 2 (KEY_EMPLOYEE)'') (DeleteDocumentKey dk i)"
  obtain q1 s1 where a: "erase_sections h i AllProfileSections s = (q1, s1)" by (metis surj_pair)
  obtain q2 s2 where b: "?docs s1 = (q2, s2)" by (metis surj_pair)
  obtain q3 s3 where c: "GetOrCreateEmployeeKey (Keys h) i s2 = (q3, s3)" by (metis surj_pair)
  obtain q4 s4 where d: "DeleteAllSaltsForEmployee (Salts h) e s3 = (q4, s4)" by (metis surj_pair)
  obtain q5 s5 where f: "DeleteEmployeeKey (Keys h) i s4 = (q5, s5)" by (metis surj_pair)
  have k1: "?kept s1" using erase_sections_keys [OF assms(1) subset_refl a] .
  have k2: "?kept s2"
  proof (cases "DocumentKeys h")
    case (Some dk)
    obtain q t where t: "DeleteDocumentKey dk i s1 = (q, t)" by (metis surj_pair)
    with b Some have "s2 = t" by (cases q) auto
    with undoc_law [OF _ Some t] k1 show ?thesis by (cases q) auto
  qed (use b k1 in simp)
  have k3: "?kept s3" and key: "q3 = Inr k' \<Longrightarrow> k' = key" for k'
    using key_law [OF _ c] k2 assms(3) by (cases q3; auto simp: fun_upd_idem)+
  from unsalt_law [OF _ okid_employee [OF assms(4)] d] k3 have k4: "inv s4" "v_keys (view s4) = v_keys (view s)"
    "v_salts (view s4) = (case q4 of Inl _ \<Rightarrow> v_salts (view s) | Inr _ \<Rightarrow> (\<lambda>k. if fst k = e then None else v_salts (view s) k))"
    by (cases q4; auto)+
  from unkey_law [OF k4(1) f] have k5: "inv s5" "q5 = Inl x \<Longrightarrow> view s5 = view s4" for x by (cases q5; auto)+
  consider "s' = s1" | "s' = s2" | "s' = s3" | "s' = s4" | x where "s' = s5" "q5 = Inl x"
    using assms(2,4) a b c d f key unfolding Erase_def
    by (cases q1; cases q2; cases q3; cases q4; cases q5) auto
  then show ?thesis using k1 k2 k3 k4 k5 by cases (auto split: sum.splits)
qed

end

lemma wired_erase_keeps_net: "keeps b_net (Erase (wired_hooks ipfs submit t fk fsl fd) i)"
proof -
  have "keeps b_net (erase_sections (wired_hooks ipfs submit t fk fsl fd) i ss)" for ss
    by (induction ss) (auto simp: wired_defs intro!: keeps_on_part)
  then show ?thesis unfolding Erase_def by (auto simp: wired_defs on_files_def intro!: keeps_on_part)
qed

text \<open>Salts of well-formed identifiers are the salts of the view.\<close>

lemma file_salts_view:
  "nul_free e \<Longrightarrow> nul_free p \<Longrightarrow> file_salts fsl (b_fs s) (e, p, v) = v_salts (wired_view fk fsl fd s) (e, p, v)"
  by (simp add: wired_view_def ok_salts_def)

lemma wired_erase_fails:
  assumes "wired_inv fk fsl fd s" and "file_view fk (b_fs s) i = Some key" and "ComputeEmployeeID key = Inr e"
    and "Erase (wired_hooks ipfs submit t fk fsl fd) i s = (Inl err, s')"
  shows "wired_inv fk fsl fd s'" and "file_view fk (b_fs s') = file_view fk (b_fs s)"
    and "e' \<noteq> e \<Longrightarrow> nul_free e' \<Longrightarrow> nul_free sec \<Longrightarrow>
      file_salts fsl (b_fs s') (e', sec, v) = file_salts fsl (b_fs s) (e', sec, v)"
proof -
  have key: "v_keys (wired_view fk fsl fd s) i = Some key" using assms(2) by (simp add: wired_view_def)
  note f = wired.Erase_failure [OF assms(1,4) key assms(3)]
  from f show "wired_inv fk fsl fd s'" "file_view fk (b_fs s') = file_view fk (b_fs s)" by (simp_all add: wired_view_def)
  show "file_salts fsl (b_fs s') (e', sec, v) = file_salts fsl (b_fs s) (e', sec, v)"
    if "e' \<noteq> e" "nul_free e'" "nul_free sec"
    using f that(1) by (simp add: file_salts_view [OF that(2,3), where fk = fk and fd = fd]) blast
qed

lemma wired_erase_succeeds:
  assumes "wired_inv fk fsl fd s" and "file_view fk (b_fs s) i = Some key" and "ComputeEmployeeID key = Inr e"
    and "Erase (wired_hooks ipfs submit t fk fsl fd) i s = (Inr u, s')"
  shows "wired_inv fk fsl fd s'" and "file_view fk (b_fs s') = (file_view fk (b_fs s))(i := None)"
    and "file_view fd (b_fs s') = (file_view fd (b_fs s))(i := None)"
    and "sec \<in> set AllProfileSections \<Longrightarrow> vals (b_op s') (op_key i sec) = None"
    and "nul_free e' \<Longrightarrow> nul_free sec \<Longrightarrow>
      file_salts fsl (b_fs s') (e', sec, v) = (if e' = e then None else file_salts fsl (b_fs s) (e', sec, v))"
proof -
  let ?h = "wired_hooks ipfs submit t fk fsl fd" and ?w = "wired_view fk fsl fd"
  from wired.Erase_success [OF assms(1,4)] obtain key' e'' where inv: "wired_inv fk fsl fd s'"
    and k: "v_keys (?w s) i \<in> {None, Some key'}" "ComputeEmployeeID key' = Inr e''"
    and v: "?w s' = (?w s)\<lparr>v_keys := (v_keys (?w s))(i := None),
       v_docs := (if DocumentKeys ?h = None then v_docs (?w s) else (v_docs (?w s))(i := None)),
       v_salts := (\<lambda>k. if fst k = e'' then None else v_salts (?w s) k),
       v_vals := (\<lambda>k. if fst k = i \<and> snd k \<in> set AllProfileSections then None else v_vals (?w s) k)\<rparr>" by blast
  have e: "e'' = e" using k assms(2,3) by (simp add: wired_view_def)
  show "wired_inv fk fsl fd s'" by (rule inv)
  show "file_view fk (b_fs s') = (file_view fk (b_fs s))(i := None)"
    using arg_cong [OF v, of v_keys] by (simp add: wired_view_def)
  show "file_view fd (b_fs s') = (file_view fd (b_fs s))(i := None)"
    using arg_cong [OF v, of v_docs] by (simp add: wired_view_def wired_defs)
  show "vals (b_op s') (op_key i sec) = None" if "sec \<in> set AllProfileSections"
    using fun_cong [OF arg_cong [OF v, of v_vals], of "(i, sec)"] that by (simp add: wired_view_def op_view_def)
  show "file_salts fsl (b_fs s') (e', sec, v) = (if e' = e then None else file_salts fsl (b_fs s) (e', sec, v))"
    if "nul_free e'" "nul_free sec"
    using v e by (simp add: file_salts_view [OF that, where fk = fk and fd = fd])
qed

text \<open>An authenticated, well-formed verify request about the plain identity of employee \<open>i\<close>.\<close>

definition asks_about :: "AuthConfig \<Rightarrow> request \<Rightarrow> string \<Rightarrow> string \<Rightarrow> bool" where
  "asks_about authCfg req i sec \<longleftrightarrow>
     authenticate req authCfg = None \<and> i \<noteq> [] \<and> sec \<in> set AllProfileSections
     \<and> (case decode_raw_struct verifyRequestEnvelope_fields (body req) zero_verify_envelope of
          None \<Rightarrow> False
        | Some env \<Rightarrow> trim_space (ve_EmployeeInternalID env) = i \<and> trim_space (ve_ProfileSection env) = sec
            \<and> ve_RecordIdentity env = [])"

lemma asked_route:
  assumes "asks_about authCfg req i sec"
  shows "\<exists>x. verify_outcome T cfg authCfg req s =
    (case ResolveEmployeeID (vrc_Keys cfg) i [] s of (q, s2) \<Rightarrow>
     (case q of
       Inl err \<Rightarrow> (verdict ''error'' (''integrationbridge: resolving employee key: '' @ error_text err), s2)
     | Inr e \<Rightarrow>
         (case vrc_Ledger cfg (vrc_TenantID cfg) e sec s2 of
            (Inl err, s3) \<Rightarrow> (verdict ''error'' (''integrationbridge: querying ledger history: '' @ error_text err), s3)
          | (Inr raw, s3) \<Rightarrow>
              (case unmarshal_chunk raw of
                 None \<Rightarrow> (verdict ''error'' (''integrationbridge: decoding ledger history: '' @ ''json: cannot unmarshal''), s3)
               | Some chunk \<Rightarrow> compare_with_latest T cfg e sec x chunk s3))))"
proof -
  from assms obtain env where env: "authenticate req authCfg = None"
    "decode_raw_struct verifyRequestEnvelope_fields (body req) zero_verify_envelope = Some env"
    "trim_space (ve_EmployeeInternalID env) = i" "trim_space (ve_ProfileSection env) = sec" "ve_RecordIdentity env = []"
    "i \<noteq> []" "isKnownProfileSection sec"
    unfolding asks_about_def by (auto simp: isKnownProfileSection_iff split: option.splits)
  then show ?thesis
    by (intro exI [of _ "ve_CurrentValue env"]) (simp only: verify_outcome_def Let_def option.case simp_thms if_False)
qed

text \<open>Resolving an employee without a key makes one.\<close>

lemma wired_resolve_fresh:
  assumes "wired_inv fk fsl fd s" and "file_view fk (b_fs s) i = None"
    and "ResolveEmployeeID (GetOrCreateEmployeeKey (Keys (wired_hooks ipfs submit t fk fsl fd))) i [] s = (Inr e, s1)"
  shows "\<exists>key. length key = MinKeyBytes \<and> ComputeEmployeeID key = Inr e
    \<and> file_view fk (b_fs s1) = (file_view fk (b_fs s))(i \<mapsto> key)"
proof -
  from assms(3) obtain key where k: "GetOrCreateEmployeeKey (Keys (wired_hooks ipfs submit t fk fsl fd)) i s = (Inr key, s1)"
    and e: "ComputeEmployeeID key = Inr e"
    unfolding ResolveEmployeeID_def ResolveEmployeeKey_def
    by (auto simp: key_lookup_id_def elim!: bindE_InrE dest!: mapErr_InrD)
  from k obtain x where x: "file_GetOrCreate ''employeeKey_i'' fk i (b_fs s) = (Inr key, x)" "s1 = s\<lparr>b_fs := x\<rparr>"
    by (auto simp: wired_defs file_store_defs elim: on_files_E)
  from file_GetOrCreate_ok [OF _ x(1)] assms(1,2) x(2) e show ?thesis by (auto simp: wired_inv_def)
qed

text \<open>The verify route works with a new key for the employee: either no key can be made and it answers
  \<open>error\<close>, or a key of the store's length is filed for the employee, the ledger is asked about its
  pseudonym, and an empty history is answered with \<open>no_anchor_found\<close>.\<close>

definition verifies_afresh ::
  "fileStore \<Rightarrow> (string \<Rightarrow> string res) \<Rightarrow> 'n bridge VerifyRouteConfig \<Rightarrow> AuthConfig \<Rightarrow> request
   \<Rightarrow> string \<Rightarrow> string \<Rightarrow> 'n bridge \<Rightarrow> bool" where
  "verifies_afresh fk T cfg authCfg req i sec s \<longleftrightarrow>
     (case ResolveEmployeeID (vrc_Keys cfg) i [] s of
        (Inl err, s2) \<Rightarrow> (\<exists>d. RegisterProfileVerifyRoute T cfg authCfg req s = (respondVerify (verdict ''error'' d), s2))
      | (Inr e2, s2) \<Rightarrow>
          (\<exists>key2. length key2 = MinKeyBytes \<and> ComputeEmployeeID key2 = Inr e2
             \<and> file_view fk (b_fs s2) = (file_view fk (b_fs s))(i \<mapsto> key2))
          \<and> (\<forall>raw s3. vrc_Ledger cfg (vrc_TenantID cfg) e2 sec s2 = (Inr raw, s3) \<and> unmarshal_chunk raw = Some [] \<longrightarrow>
               (\<exists>d. RegisterProfileVerifyRoute T cfg authCfg req s = (respondVerify (verdict ''no_anchor_found'' d), s3))))"

lemma route_after_erasure:
  assumes "wired_inv fk fsl fd s" and "file_view fk (b_fs s) i = None"
    and "vrc_Keys cfg = GetOrCreateEmployeeKey (Keys (wired_hooks ipfs submit t fk fsl fd))"
    and "asks_about authCfg req i sec"
  shows "verifies_afresh fk T cfg authCfg req i sec s"
proof -
  obtain q s2 where q: "ResolveEmployeeID (vrc_Keys cfg) i [] s = (q, s2)" by (rule prod.exhaust)
  obtain x where out: "verify_outcome T cfg authCfg req s =
    (case q of
       Inl err \<Rightarrow> (verdict ''error'' (''integrationbridge: resolving employee key: '' @ error_text err), s2)
     | Inr e \<Rightarrow>
         (case vrc_Ledger cfg (vrc_TenantID cfg) e sec s2 of
            (Inl err, s3) \<Rightarrow> (verdict ''error'' (''integrationbridge: querying ledger history: '' @ error_text err), s3)
          | (Inr raw, s3) \<Rightarrow>
              (case unmarshal_chunk raw of
                 None \<Rightarrow> (verdict ''error'' (''integrationbridge: decoding ledger history: '' @ ''json: cannot unmarshal''), s3)
               | Some chunk \<Rightarrow> compare_with_latest T cfg e sec x chunk s3)))"
    using asked_route [OF assms(4), of T cfg s] unfolding q prod.case by blast
  show ?thesis
  proof (cases q)
    case (Inl err)
    then show ?thesis unfolding verifies_afresh_def RegisterProfileVerifyRoute_def out q
      by (simp only: prod.case sum.case) blast
  next
    case (Inr e2)
    note key = wired_resolve_fresh [OF assms(1,2) q [unfolded assms(3) Inr]]
    have "\<exists>d. RegisterProfileVerifyRoute T cfg authCfg req s = (respondVerify (verdict ''no_anchor_found'' d), s3)"
      if "vrc_Ledger cfg (vrc_TenantID cfg) e2 sec s2 = (Inr raw, s3)" "unmarshal_chunk raw = Some []" for raw s3
      unfolding RegisterProfileVerifyRoute_def out Inr
      by (simp only: prod.case sum.case that option.case compare_with_latest_def list.case) blast
    with key show ?thesis unfolding verifies_afresh_def q Inr by (simp only: prod.case sum.case) blast
  qed
qed

section \<open>Properties\<close>

text \<open>C11: Erasure on the encrypted files, on every outcome. The ledger and the salts of all other
  employees are untouched. An erasure that fails, at whatever step and disk fault, leaves every employee key on file,
  so that a repetition derives the same pseudonym and finds the salts still to be removed. One that succeeds removes the
  employee's key and document key from their files, keeping all others, the values of the five
  sections, and every salt of the pseudonym, whatever its version; so a comparison of any value with a history under
  the old pseudonym could only end in \<open>error\<close>. The verify route does not even ask for it: for the erased employee it
  makes and files a new key, asks the ledger about the pseudonym of that key, and answers \<open>no_anchor_found\<close> when the
  ledger has nothing under it, whatever value (or deletion) the request asserts; if the key cannot be made it
  answers \<open>error\<close>.\<close>

theorem wired_erasure:
  assumes "wired_inv fk fsl fd s" and "file_view fk (b_fs s) i = Some key" and "ComputeEmployeeID key = Inr e"
    and "h = wired_hooks ipfs submit t fk fsl fd" and "Erase h i s = (r, s')"
  shows "wired_inv fk fsl fd s' \<and> b_net s' = b_net s
    \<and> (\<forall>e' sec v. e' \<noteq> e \<and> nul_free e' \<and> nul_free sec \<longrightarrow>
         file_salts fsl (b_fs s') (e', sec, v) = file_salts fsl (b_fs s) (e', sec, v))
    \<and> (case r of
         Inl err \<Rightarrow> file_view fk (b_fs s') = file_view fk (b_fs s)
       | Inr _ \<Rightarrow>
           file_view fk (b_fs s') = (file_view fk (b_fs s))(i := None)
           \<and> file_view fd (b_fs s') = (file_view fd (b_fs s))(i := None)
           \<and> (\<forall>sec\<in>set AllProfileSections. vals (b_op s') (op_key i sec) = None
                \<and> (\<forall>v. file_salts fsl (b_fs s') (e, sec, v) = None)
                \<and> (\<forall>T cfg x c cs. vrc_Salts cfg = GetSalt (Salts h) \<and> x \<noteq> [] \<and> x \<noteq> ''null'' \<longrightarrow>
                     vr_Status (fst (compare_with_latest T cfg e sec x (c # cs) s')) = ''error''))
           \<and> (\<forall>T cfg authCfg req sec. vrc_Keys cfg = GetOrCreateEmployeeKey (Keys h) \<and> asks_about authCfg req i sec \<longrightarrow>
                verifies_afresh fk T cfg authCfg req i sec s'))"
proof -
  have net: "b_net s' = b_net s" using keepsD [OF wired_erase_keeps_net] assms(4,5) by blast
  show ?thesis
  proof (cases r)
    case (Inl err)
    note f = wired_erase_fails [OF assms(1-3) assms(5) [unfolded assms(4) Inl]]
    show ?thesis using f net Inl by (simp only: sum.case) blast
  next
    case (Inr u)
    note f = wired_erase_succeeds [OF assms(1-3) assms(5) [unfolded assms(4) Inr]]
    have gone: "file_salts fsl (b_fs s') (e, sec, w) = None" if "sec \<in> set AllProfileSections" for sec w
      using f(5) [OF ComputeEmployeeID_nul_free [OF assms(3)] section_nul_free [OF that]] by simp
    have kept: "file_salts fsl (b_fs s') (e', sec, w) = file_salts fsl (b_fs s) (e', sec, w)"
      if "e' \<noteq> e" "nul_free e'" "nul_free sec" for e' sec w using f(5) [OF that(2,3)] that(1) by simp
    have "vr_Status (fst (compare_with_latest T cfg e sec x (c # cs) s')) = ''error''"
      if "sec \<in> set AllProfileSections" "vrc_Salts cfg = GetSalt (Salts h)" "x \<noteq> []" "x \<noteq> ''null''" for T cfg sec x c cs
      by (rule no_salt_verdict [OF _ that(2) [unfolded assms(4)] gone [OF that(1)] that(3,4)])
        (use f(1) in \<open>simp add: wired_inv_def\<close>)
    moreover have "verifies_afresh fk T cfg authCfg req i sec s'"
      if "vrc_Keys cfg = GetOrCreateEmployeeKey (Keys h)" "asks_about authCfg req i sec" for T cfg authCfg req sec
      by (rule route_after_erasure [OF f(1) _ that(1) [unfolded assms(4)] that(2)]) (simp add: f(2))
    ultimately show ?thesis using Inr net f(1-4) gone kept by (simp only: sum.case) blast
  qed
qed

text \<open>An erasure on a disk that works, for the witness.\<close>

lemma calm_delete:
  assumes "calm s" and "length (fs_key f) = 32" and "file_view f s = [k \<mapsto> v] \<or> file_view f s = Map.empty"
    and "file_inv f s"
  shows "k' = k \<Longrightarrow> \<exists>s'. file_Delete f k' s = (Inr (), s') \<and> calm s'"
    and "has_prefix k (e @ [CHR 0x00]) \<Longrightarrow> \<exists>s'. FileSaltStore_DeleteAllSaltsForEmployee f e s = (Inr (), s') \<and> calm s'"
proof -
  obtain data where d: "file_data f (fst s) = Inr data" "distinct (map fst data)" using assms(4) by (auto simp: file_inv_def)
  have data: "data = [] \<or> data = [(k, v)]"
    using assms(3) d single_entry [of data k v] by (auto simp: file_view_def)
  note ld = calm_load_then [OF assms(1) d(1)]
  have sv: "\<exists>s'. save f [] (tick s) = (Inr (), s') \<and> calm s'"
    using gob_small_entries [of "[]"] assms(1) by (intro calm_save [OF _ assms(2)]) simp_all
  show "\<exists>s'. file_Delete f k' s = (Inr (), s') \<and> calm s'" if "k' = k"
    using data sv that by (auto simp: file_Delete_def ld)
  show "\<exists>s'. FileSaltStore_DeleteAllSaltsForEmployee f e s = (Inr (), s') \<and> calm s'" if "has_prefix k (e @ [CHR 0x00])"
    using data sv that by (auto simp: FileSaltStore_DeleteAllSaltsForEmployee_def ld)
qed

text \<open>The run of an erasure whose steps succeed.\<close>

lemma erase_run:
  assumes "file_Delete fd i (b_fs s) = (Inr (), x1)" and "file_GetOrCreate ''employeeKey_i'' fk i x1 = (Inr key, x2)"
    and "ComputeEmployeeID key = Inr e" and "FileSaltStore_DeleteAllSaltsForEmployee fsl e x2 = (Inr (), x3)"
    and "file_Delete fk i x3 = (Inr (), x4)"
  shows "\<exists>op. Erase (wired_hooks ipfs submit t fk fsl fd) i s = (Inr (), \<lparr>b_op = op, b_fs = x4, b_net = b_net s\<rparr>)"
  using assms
  by (cases s) (simp add: Erase_def AllProfileSections_def bindE_def mapErr_def wired_defs on_part_def on_files_def file_store_defs
      InMemoryOperationalStore_DeleteSection_def Let_def)

lemma demo_erase:
  assumes "calm x" and "demo_inv \<lparr>b_op = op, b_fs = x, b_net = ([] :: submit_args list)\<rparr>"
    and "file_view key_file x = [''i'' \<mapsto> demo_bytes]" and "file_view doc_file x = Map.empty"
    and "file_view salt_file x = [saltFileKey e ''PAYROLL'' 1 \<mapsto> lost_salt]" and "ComputeEmployeeID demo_bytes = Inr e"
  shows "\<exists>s'. Erase demo_hook ''i'' \<lparr>b_op = op, b_fs = x, b_net = []\<rparr> = (Inr (), s')"
proof -
  have inv: "file_inv key_file x" "file_inv salt_file x" "file_inv doc_file x" using assms(2) by (simp_all add: wired_inv_def)
  have apart: "apart doc_file key_file" "apart doc_file salt_file" "apart salt_file key_file"
    by (rule apart_sym, rule demo_files_apart)+
  obtain x1 where d: "file_Delete doc_file ''i'' x = (Inr (), x1)" "calm x1"
    using calm_delete(1) [of x doc_file "''i''" "[]" "''i''"] assms(1,4) inv(3) by auto
  have i1: "file_inv doc_file x1" using file_Delete_ok [OF inv(3) d(1)] by simp
  note k1 = other_files(1,2) [OF apart(1) inv(1) d(1) i1 file_ops_keep(2)]
    and s1 = other_files(1,2) [OF apart(2) inv(2) d(1) i1 file_ops_keep(2)]
  have key: "file_GetOrCreate ''employeeKey_i'' key_file ''i'' x1 = (Inr demo_bytes, tick x1)"
    using k1 assms(3) by (intro calm_found(1) [OF d(2)]) simp_all
  have salt: "file_inv salt_file (tick x1)" "file_view salt_file (tick x1) = [saltFileKey e ''PAYROLL'' 1 \<mapsto> lost_salt]"
    using s1 assms(5) by simp_all
  obtain x3 where p: "FileSaltStore_DeleteAllSaltsForEmployee salt_file e (tick x1) = (Inr (), x3)" "calm x3"
    using calm_delete(2) [of "tick x1" salt_file "saltFileKey e ''PAYROLL'' 1" lost_salt e] salt d(2)
    by (auto simp: saltFileKey_def has_prefix_iff)
  have i3: "file_inv salt_file x3" using FileSaltStore_DeleteAll_ok [OF salt(1) p(1)] by simp
  have "file_inv key_file (tick x1)" using k1(1) by simp
  note k3 = other_files(1,2) [OF apart(3) this p(1) i3 file_ops_keep(4)]
  obtain x4 where "file_Delete key_file ''i'' x3 = (Inr (), x4)"
    using calm_delete(1) [of x3 key_file "''i''" demo_bytes "''i''"] k3 k1(2) assms(3) p(2) by auto
  from erase_run [OF _ key assms(6) p(1) this] d(1) show ?thesis by (metis bridge.select_convs(2))
qed

theorem wired_erasure_witness:
  "\<exists>s s' e. ComputeEmployeeID demo_bytes = Inr e \<and> file_salts salt_file (b_fs s) (e, ''PAYROLL'', 1) = Some lost_salt
     \<and> Erase demo_hook ''i'' s = (Inr (), s') \<and> file_salts salt_file (b_fs s') (e, ''PAYROLL'', 1) = None
     \<and> file_view key_file (b_fs s') ''i'' = None"
proof -
  obtain e hash upd where ids: "ComputeEmployeeID demo_bytes = Inr e" "ComputeDataHash Inr demo_bytes ''x'' = Inr hash"
    "ComputeUpdatedBy demo_bytes ''u'' = Inr upd" "length e = 64" by (rule demo_ids)
  obtain x where x: "calm x" "demo_inv \<lparr>b_op = lost_op, b_fs = x, b_net = ([] :: submit_args list)\<rparr>"
    "file_view key_file x = [''i'' \<mapsto> demo_bytes]" "file_view doc_file x = Map.empty"
    "file_view salt_file x = [saltFileKey e ''PAYROLL'' 1 \<mapsto> lost_salt]"
    using after_lost_write [OF ids(4), of lost_op "[]"] by (elim exE conjE) (rule that; assumption)
  let ?s = "\<lparr>b_op = lost_op, b_fs = x, b_net = ([] :: submit_args list)\<rparr>"
  obtain s' where run: "Erase demo_hook ''i'' ?s = (Inr (), s')" using demo_erase [OF x ids(1)] by blast
  have key: "file_view key_file (b_fs ?s) ''i'' = Some demo_bytes" using x(3) by simp
  have "file_salts salt_file (b_fs ?s) (e, ''PAYROLL'', 1) = Some lost_salt" using x(5) by (simp add: file_salts_def)
  moreover have "file_view key_file (b_fs s') ''i'' = None" "file_salts salt_file (b_fs s') (e, ''PAYROLL'', 1) = None"
    using wired_erasure [OF x(2) key ids(1) refl run] demo_payroll_section by (simp_all only: sum.case fun_upd_same) 
  ultimately show ?thesis using ids(1) run by - (rule exI [of _ ?s], rule exI [of _ s'], rule exI [of _ e], intro conjI; assumption)
qed

end
