(* ===== verification/Nettools.thy ===== *)
theory Nettools
  imports Go_Errors Go_Strings
begin

text \<open>
  What the command-line tools under fabric-network/tools share: they drive the Fabric binaries
  with \<open>exec.Command(...).CombinedOutput()\<close> and end with \<open>os.Exit(1)\<close> when a step fails. The
  operating system is an argument: a function from the command line and the world to output,
  error and new world. \<open>logged\<close> records the commands, so that order and absence of commands can
  be stated. Printing and \<open>time.Sleep\<close> are not modelled.
\<close>

type_synonym 'w exec = "string list \<Rightarrow> 'w \<Rightarrow> (string \<times> goerr option) \<times> 'w"

type_synonym 'w journal = "'w \<times> string list list"

definition logged :: "'w exec \<Rightarrow> 'w journal exec" where
  "logged X args s = (case X args (fst s) of (r, w') \<Rightarrow> (r, (w', snd s @ [args])))"

lemma logged_simp: "logged X args (w, log) = (fst (X args w), (snd (X args w), log @ [args]))"
  by (simp add: logged_def split: prod.split)

text \<open>\<open>answered\<close> records the commands together with their answers, the output and the error.\<close>

type_synonym answer = "string list \<times> string \<times> goerr option"

definition answered :: "'w exec \<Rightarrow> ('w \<times> answer list) exec" where
  "answered X args s = (case X args (fst s) of ((out, err), w') \<Rightarrow> ((out, err), (w', snd s @ [(args, out, err)])))"

lemma answered_simp:
  "X args w = ((out, err), w') \<Longrightarrow> answered X args (w, t) = ((out, err), (w', t @ [(args, out, err)]))"
  by (simp add: answered_def)

text \<open>\<open>must(step, out, err)\<close>: the output, or the end of the process.\<close>

definition must_run :: "('w \<Rightarrow> (string \<times> goerr option) \<times> 'w) \<Rightarrow> string \<Rightarrow> ('w, goerr, string) act" where
  "must_run cmd step w =
     (case cmd w of
        ((out, Some err), w') \<Rightarrow> (Inl (wrap (''FATAL at '' @ step) err), w')
      | ((out, None), w') \<Rightarrow> (Inr out, w'))"

section \<open>Journals\<close>

text \<open>Every command that the action runs satisfies \<open>P\<close>, and the journal only grows.\<close>

definition runs_only :: "(string list \<Rightarrow> bool) \<Rightarrow> ('w journal \<Rightarrow> 'r \<times> 'w journal) \<Rightarrow> bool" where
  "runs_only P m \<longleftrightarrow> (\<forall>s. \<exists>cs. snd (snd (m s)) = snd s @ cs \<and> list_all P cs)"

lemma runs_onlyD: "runs_only P m \<Longrightarrow> m (w, log) = (r, (w', log')) \<Longrightarrow> \<exists>cs. log' = log @ cs \<and> list_all P cs"
  unfolding runs_only_def by (metis snd_conv)

lemma runs_only_logged: "P args \<Longrightarrow> runs_only P (logged X args)"
  by (auto simp: runs_only_def logged_def split: prod.split)

lemma runs_only_must: "runs_only P m \<Longrightarrow> runs_only P (must_run m step)"
  unfolding runs_only_def must_run_def by (auto split: prod.split option.split) (metis snd_conv)+

lemma runs_only_return: "runs_only P (\<lambda>s. (r, s))"
  by (simp add: runs_only_def)

lemma runs_only_returnE: "runs_only P (returnE x)"
  by (simp add: runs_only_def returnE_def)

lemma runs_only_bindE:
  assumes "runs_only P m" and "\<And>x. runs_only P (f x)"
  shows "runs_only P (bindE m f)"
  unfolding runs_only_def
proof
  fix s
  obtain r s1 where m: "m s = (r, s1)" by (metis surj_pair)
  with assms(1) obtain cs where cs: "snd s1 = snd s @ cs" "list_all P cs" unfolding runs_only_def by (metis snd_conv)
  show "\<exists>cs. snd (snd (bindE m f s)) = snd s @ cs \<and> list_all P cs"
  proof (cases r)
    case (Inr x)
    from assms(2) [of x] obtain ds where "snd (snd (f x s1)) = snd s1 @ ds" "list_all P ds"
      unfolding runs_only_def by blast
    with cs m Inr show ?thesis by (intro exI [of _ "cs @ ds"]) simp
  next
    case Inl
    with cs m show ?thesis by auto
  qed
qed

lemma runs_only_mono: "runs_only P m \<Longrightarrow> (\<And>c. P c \<Longrightarrow> Q c) \<Longrightarrow> runs_only Q m"
  unfolding runs_only_def list_all_iff by blast

section \<open>Plans\<close>

text \<open>A step of a plan is a command with the answers that let the tool go on. A run obeys a plan when
  it runs its commands one after the other and each is answered well before the next one is
  run: all of them when it succeeds; when it fails, the first part of them, the last one answered badly.\<close>

type_synonym plan_step = "string list \<times> (string \<Rightarrow> goerr option \<Rightarrow> bool)"

definition met :: "plan_step \<Rightarrow> answer \<Rightarrow> bool" where
  "met st a \<longleftrightarrow> fst a = fst st \<and> snd st (fst (snd a)) (snd (snd a))"

definition stopped :: "plan_step list \<Rightarrow> answer list \<Rightarrow> bool" where
  "stopped plan t \<longleftrightarrow>
     (\<exists>done_steps st rest ds a. plan = done_steps @ st # rest \<and> t = ds @ [a] \<and> list_all2 met done_steps ds
        \<and> fst a = fst st \<and> \<not> met st a)"

definition outcome :: "plan_step list \<Rightarrow> 'e + 'a \<Rightarrow> answer list \<Rightarrow> bool" where
  "outcome plan r t = (case r of Inr _ \<Rightarrow> list_all2 met plan t | Inl _ \<Rightarrow> stopped plan t)"

definition obeys :: "plan_step list \<Rightarrow> ('w \<times> answer list, goerr, 'a) act \<Rightarrow> bool" where
  "obeys plan m \<longleftrightarrow> (\<forall>w t r w' t'. m (w, t) = (r, (w', t')) \<longrightarrow> (\<exists>ds. t' = t @ ds \<and> outcome plan r ds))"

lemma obeysE:
  assumes "obeys plan m" and "m (w, t) = (r, (w', t'))"
  obtains ds where "t' = t @ ds" "outcome plan r ds"
  using assms unfolding obeys_def by blast

lemma stopped_single: "fst a = fst st \<Longrightarrow> \<not> met st a \<Longrightarrow> stopped (st # rest) [a]"
  unfolding stopped_def by (intro exI [of _ "[]"] exI [of _ st] exI [of _ rest] exI [of _ a]) simp

lemma stopped_longer: "stopped plan t \<Longrightarrow> stopped (plan @ more) t"
  unfolding stopped_def by (elim exE conjE, intro exI conjI) (simp, assumption+)

lemma stopped_later:
  assumes "list_all2 met plan1 ds" and "stopped plan2 t"
  shows "stopped (plan1 @ plan2) (ds @ t)"
proof -
  from assms(2) obtain d st rest es a where "plan2 = d @ st # rest" "t = es @ [a]" "list_all2 met d es"
    "fst a = fst st" "\<not> met st a" unfolding stopped_def by blast
  with assms(1) show ?thesis unfolding stopped_def
    by (intro exI [of _ "plan1 @ d"] exI [of _ st] exI [of _ rest] exI [of _ "ds @ es"] exI [of _ a])
      (simp add: list_all2_appendI)
qed

lemma outcome_append:
  "outcome as (Inr x) ds \<Longrightarrow> outcome bs r es \<Longrightarrow> outcome (as @ bs) r (ds @ es)"
  "outcome as (Inl e) ds \<Longrightarrow> outcome (as @ bs) (Inl e') ds"
  by (auto simp: outcome_def stopped_later stopped_longer list_all2_appendI split: sum.splits)

lemma obeys_returnE: "obeys [] (returnE x)"
  by (simp add: obeys_def outcome_def)

lemma obeys_bindE:
  assumes "obeys as m" and "\<And>x. obeys bs (f x)"
  shows "obeys (as @ bs) (bindE m f)"
  unfolding obeys_def
proof (intro allI impI)
  fix w t r w' t'
  assume b: "bindE m f (w, t) = (r, (w', t'))"
  obtain r1 w1 t1 where m: "m (w, t) = (r1, (w1, t1))" by (metis surj_pair)
  obtain ds where d: "t1 = t @ ds" "outcome as r1 ds" by (rule obeysE [OF assms(1) m])
  show "\<exists>ds. t' = t @ ds \<and> outcome (as @ bs) r ds"
  proof (cases r1)
    case (Inl e)
    with b m have "r = Inl e" "t' = t1" by simp_all
    with d Inl outcome_append(2) [of as e ds bs e] show ?thesis by auto
  next
    case (Inr x)
    with b m have f: "f x (w1, t1) = (r, (w', t'))" by simp
    obtain es where "t' = t1 @ es" "outcome bs r es" by (rule obeysE [OF assms(2) f])
    with d Inr outcome_append(1) [of as x ds bs r es] show ?thesis by auto
  qed
qed

text \<open>A command that must end without an error.\<close>

definition must_step :: "string list \<Rightarrow> plan_step" where
  "must_step args = (args, \<lambda>out err. err = None)"

lemma obeys_must: "obeys [must_step args] (must_run (answered X args) step)"
  unfolding obeys_def
proof (intro allI impI)
  fix w t r w' t'
  assume run: "must_run (answered X args) step (w, t) = (r, (w', t'))"
  obtain out err w1 where x: "X args w = ((out, err), w1)" by (metis surj_pair)
  from run x have "t' = t @ [(args, out, err)]" "r \<in> range Inr \<longleftrightarrow> err = None"
    by (auto simp: must_run_def answered_def split: option.splits)
  then show "\<exists>ds. t' = t @ ds \<and> outcome [must_step args] r ds"
    by (cases r) (auto simp: outcome_def must_step_def met_def intro!: stopped_single)
qed

section \<open>\<open>strings.Split\<close> with a longer separator\<close>

function split_str :: "string \<Rightarrow> string \<Rightarrow> string list" where
  "split_str sep s =
     (if sep = [] then map (\<lambda>c. [c]) s
      else case index_of s sep of
             None \<Rightarrow> [s]
           | Some i \<Rightarrow> take i s # split_str sep (drop (i + length sep) s))"
  by pat_completeness auto

lemma index_of_bound: "index_of s sub = Some i \<Longrightarrow> i + length sub \<le> length s"
proof (induction s arbitrary: i)
  case (Cons c s)
  then show ?case by (auto simp: has_prefix_iff dest: prefix_length_le split: if_splits)
qed (auto split: if_splits)

termination split_str
proof (relation "measure (\<lambda>(sep, s). length s)")
  fix sep s :: string and i
  assume "sep \<noteq> []" and "index_of s sep = Some i"
  with index_of_bound [of s sep i] show "((sep, drop (i + length sep) s), (sep, s)) \<in> measure (\<lambda>(sep, s). length s)"
    by (cases sep) auto
qed simp

declare split_str.simps [simp del]

end
