(* ===== verification/Pilscan.thy ===== *)
theory Pilscan
  imports Writepaths Chaincode Nettools
begin

text \<open>
  The confidentiality scanner (tools/pilscan): every block of every channel is fetched and
  checked twice, once as raw bytes against a dictionary of strings that must never be on the
  ledger, once structurally, walking the protobuf messages down to transaction arguments,
  world-state writes and events. The protobuf library is the record \<open>protos\<close>, one decoder per
  message type with the fields the scanner reads; the operating system that runs docker and the
  peer binary is the record \<open>docker\<close>. Go iterates over a map in no fixed order; the model takes the order of the text.
  Block numbers and counters are natural numbers here and 64-bit integers in Go: the model
  describes channels of less than 2^63 blocks and entries.
\<close>

definition chaincodeName :: string where
  "chaincodeName = ''employeeprofilerecord''"

definition channels :: "string list" where
  "channels = [''tenant-tenant01'', ''tenant-tenant02'']"

definition fixtureDictionary :: "string list" where
  "fixtureDictionary =
     [''REC-4 Demo Employee'', ''INT-1 Partial-Failure Demo'', ''QA-2 Erasure Demo'',
      ''REC-7 Verify Test'', ''INT-2 NotFound Test'', ''INT-2 Fixture'', ''TAMPERED NAME'',
      ''Test Employee'', ''Generic City'', ''Generic University'', ''Generic Bank'',
      ''Attacker Bank'', ''Staff Engineer'', ''Software Engineer'', ''Executive'',
      ''Chief Officer'', ''Erasure Fixture'', ''B.Sc.'', ''Bachelor'', ''State University'',
      ''Doctorate'', ''Diploma Mill University'', ''married'', ''single'', ''1234567890'',
      ''9999999999'', ''fullName'', ''jobTitle'', ''maritalStatus'', ''dependentCount'',
      ''dependents'', ''bankAccountNumber'', ''bankName'', ''accountLast4'', ''degree'',
      ''institution'', ''address'', ''hr-admin-rec4-demo'', ''hr-admin-int1-demo'',
      ''hr-admin-qa2-erasure-demo'',
      ''rec4demoemployee00000000000000000000000000000000000000000001'',
      ''int1demoemployee000000000000000000000000000000000000000001'',
      ''qa2erasuredemo00000000000000000000000000000000000000000001'',
      ''erasure-test-employee-001'', ''REC-5 integration fixture'', ''QA-2 IT-9 fixture'',
      ''supporting document content'', ''only the correct KEY_EMPLOYEE'',
      ''only the right KEY_EMPLOYEE recovers this'', ''identical content, encrypted twice'',
      ''same content, re-encrypted after a hypothetical key rotation'',
      ''tamper-detection fixture'']"

definition allowedRecordFields :: "string list" where
  "allowedRecordFields =
     [''canonicalizationVersion'', ''dataHash'', ''employeeID'', ''hashAlgo'', ''ipfsCIDs'', ''prevHash'',
      ''profileSection'', ''recordID'', ''tenantID'', ''timestamp'', ''updatedBy'', ''version'']"

section \<open>The regular expressions\<close>

definition hex64Re :: "string \<Rightarrow> bool" where
  "hex64Re v \<longleftrightarrow> length v = 64 \<and> list_all is_hexdig v"

definition dataHashRe :: "string \<Rightarrow> bool" where
  "dataHashRe v \<longleftrightarrow> take 7 v = ''sha256:'' \<and> hex64Re (drop 7 v)"

text \<open>The characters \<open>[1-9A-HJ-NP-Za-km-z]\<close>, \<open>[a-z2-7]\<close> and \<open>[A-Z2-7]\<close>.\<close>

definition in_range :: "char \<Rightarrow> char \<Rightarrow> char \<Rightarrow> bool" where
  "in_range a b c \<longleftrightarrow> (of_char a :: nat) \<le> of_char c \<and> (of_char c :: nat) \<le> of_char b"

definition base58_char :: "char \<Rightarrow> bool" where
  "base58_char c \<longleftrightarrow> in_range (CHR ''1'') (CHR ''9'') c \<or> in_range (CHR ''A'') (CHR ''H'') c
     \<or> in_range (CHR ''J'') (CHR ''N'') c \<or> in_range (CHR ''P'') (CHR ''Z'') c
     \<or> in_range (CHR ''a'') (CHR ''k'') c \<or> in_range (CHR ''m'') (CHR ''z'') c"

definition base32_lower :: "char \<Rightarrow> bool" where
  "base32_lower c \<longleftrightarrow> in_range (CHR ''a'') (CHR ''z'') c \<or> in_range (CHR ''2'') (CHR ''7'') c"

definition base32_upper :: "char \<Rightarrow> bool" where
  "base32_upper c \<longleftrightarrow> in_range (CHR ''A'') (CHR ''Z'') c \<or> in_range (CHR ''2'') (CHR ''7'') c"

definition cidPlausRe :: "string \<Rightarrow> bool" where
  "cidPlausRe v \<longleftrightarrow>
     take 2 v = ''Qm'' \<and> length v = 46 \<and> list_all base58_char (drop 2 v)
     \<or> 20 \<le> length v \<and> length v \<le> 120 \<and> list_all base32_lower v
     \<or> take 1 v = ''B'' \<and> 21 \<le> length v \<and> length v \<le> 121 \<and> list_all base32_upper (drop 1 v)"

definition sectionEnum :: "string list" where
  "sectionEnum = [''PERSONAL'', ''EMPLOYMENT'', ''EDUCATION'', ''ADDITIONAL'', ''PAYROLL'']"

section \<open>Findings and counts\<close>

record finding =
  f_Channel :: string
  f_Block :: nat
  f_Location :: string
  f_Detail :: string

record channelStats =
  cs_Channel :: string
  BlocksScanned :: nat
  HighestBlockNumber :: nat
  Envelopes :: nat
  ConfigEnvelopes :: nat
  EndorserTxEnvelopes :: nat
  ChaincodeInvocations :: nat
  TxArgsChecked :: nat
  WorldStateWrites :: nat
  EventsChecked :: nat
  IpfsCIDsChecked :: nat
  RawBytesScanned :: nat
  Findings :: "finding list"

definition new_stats :: "string \<Rightarrow> channelStats" where
  "new_stats channel =
     \<lparr>cs_Channel = channel, BlocksScanned = 0, HighestBlockNumber = 0, Envelopes = 0, ConfigEnvelopes = 0,
      EndorserTxEnvelopes = 0, ChaincodeInvocations = 0, TxArgsChecked = 0, WorldStateWrites = 0,
      EventsChecked = 0, IpfsCIDsChecked = 0, RawBytesScanned = 0, Findings = []\<rparr>"

definition report :: "nat \<Rightarrow> string \<Rightarrow> string \<Rightarrow> channelStats \<Rightarrow> channelStats" where
  "report blockNum location detail stats =
     stats\<lparr>Findings := Findings stats
       @ [\<lparr>f_Channel = cs_Channel stats, f_Block = blockNum, f_Location = location, f_Detail = detail\<rparr>]\<rparr>"

text \<open>\<open>if bad { report }\<close>.\<close>

definition report_if :: "bool \<Rightarrow> nat \<Rightarrow> string \<Rightarrow> string \<Rightarrow> channelStats \<Rightarrow> channelStats" where
  "report_if bad blockNum location detail stats = (if bad then report blockNum location detail stats else stats)"

definition containsFixture :: "string \<Rightarrow> string option" where
  "containsFixture s = find (contains s) fixtureDictionary"

definition report_fixture :: "nat \<Rightarrow> string \<Rightarrow> (string \<Rightarrow> string) \<Rightarrow> string \<Rightarrow> channelStats \<Rightarrow> channelStats" where
  "report_fixture blockNum location detail s stats =
     (case containsFixture s of None \<Rightarrow> stats | Some f \<Rightarrow> report blockNum location (detail f) stats)"

fun backstop_loop :: "string list \<Rightarrow> nat \<Rightarrow> string \<Rightarrow> channelStats \<Rightarrow> channelStats" where
  "backstop_loop [] blockNum s stats = stats"
| "backstop_loop (f # fs) blockNum s stats =
     backstop_loop fs blockNum s
       (report_if (contains s f) blockNum ''raw-block-backstop''
          (''fixture string '' @ go_quote f @ '' found in raw block bytes'') stats)"

definition scanRawBackstop :: "nat \<Rightarrow> string \<Rightarrow> channelStats \<Rightarrow> channelStats" where
  "scanRawBackstop blockNum raw stats =
     backstop_loop fixtureDictionary blockNum raw
       (stats\<lparr>RawBytesScanned := RawBytesScanned stats + length raw\<rparr>)"

definition truncate_text :: "string \<Rightarrow> nat \<Rightarrow> string" where
  "truncate_text s n = (if length s \<le> n then s else take n s @ ''...(truncated)'')"

section \<open>Records\<close>

definition checkCID :: "nat \<Rightarrow> string \<Rightarrow> string \<Rightarrow> channelStats \<Rightarrow> channelStats" where
  "checkCID blockNum location cid stats =
     report_if (130 < length cid) blockNum location
       (''ipfsCIDs entry implausibly long ('' @ itoa (int (length cid)) @ '' bytes) for a CID ''
        @ map char_of [0xE2, 0x80, 0x94 :: nat] @ '' possible embedded content: '' @ go_quote (truncate_text cid 60))
     (report_if (\<not> cidPlausRe cid) blockNum location
       (''ipfsCIDs entry is not a plausible CID string (wrong charset/length for base58 CIDv0 or base32/base64 CIDv1): ''
        @ go_quote cid)
     (report_fixture blockNum location
       (\<lambda>f. ''ipfsCIDs entry contains fixture string '' @ go_quote f
            @ '' (document content leaked into a CID field?): '' @ go_quote cid) cid stats))"

fun checkCIDs :: "nat \<Rightarrow> string \<Rightarrow> string list \<Rightarrow> channelStats \<Rightarrow> channelStats" where
  "checkCIDs blockNum location [] stats = stats"
| "checkCIDs blockNum location (c # cs) stats =
     checkCIDs blockNum location cs
       (checkCID blockNum location c (stats\<lparr>IpfsCIDsChecked := IpfsCIDsChecked stats + 1\<rparr>))"

text \<open>\<open>json.Unmarshal\<close> into \<open>map[string]interface{}\<close>: numbers become \<open>float64\<close>, and one that
  is out of range makes the whole call fail (\<open>ParseFloat\<close> says which); a repeated key keeps
  its last value; \<open>null\<close> leaves the nil map.\<close>

fun floats_ok :: "(string \<Rightarrow> bool) \<Rightarrow> json \<Rightarrow> bool" where
  "floats_ok ParseFloat (JNum t) = ParseFloat t"
| "floats_ok ParseFloat (JArr vs) = list_all (floats_ok ParseFloat) vs"
| "floats_ok ParseFloat (JObj kvs) = list_all (\<lambda>(k, v). floats_ok ParseFloat v) kvs"
| "floats_ok ParseFloat _ = True"

definition unmarshal_map :: "(string \<Rightarrow> bool) \<Rightarrow> string \<Rightarrow> (string \<times> json) list option" where
  "unmarshal_map ParseFloat raw =
     (case json_unmarshal raw of
        Some (JObj kvs) \<Rightarrow> if floats_ok ParseFloat (JObj kvs) then Some kvs else None
      | Some JNull \<Rightarrow> Some []
      | _ \<Rightarrow> None)"

fun as_string :: "json option \<Rightarrow> string option" where
  "as_string (Some (JStr s)) = Some s"
| "as_string _ = None"

fun strings_of :: "json list \<Rightarrow> string list" where
  "strings_of [] = []"
| "strings_of (JStr s # vs) = s # strings_of vs"
| "strings_of (v # vs) = strings_of vs"

fun schema_loop :: "nat \<Rightarrow> string \<Rightarrow> string list \<Rightarrow> channelStats \<Rightarrow> channelStats" where
  "schema_loop blockNum location [] stats = stats"
| "schema_loop blockNum location (k # ks) stats =
     schema_loop blockNum location ks
       (report_if (k \<notin> set allowedRecordFields) blockNum location
          (''SCHEMA VIOLATION: on-chain record has field '' @ go_quote k @ '', not in the ratified 12-field set'') stats)"

definition checkHex64 :: "nat \<Rightarrow> string \<Rightarrow> string \<Rightarrow> json option \<Rightarrow> channelStats \<Rightarrow> channelStats" where
  "checkHex64 blockNum location field v stats =
     (case as_string v of
        None \<Rightarrow> stats
      | Some v \<Rightarrow>
          report_if (\<not> hex64Re v) blockNum location
            (field @ '' is not a 64-hex-char HMAC-SHA256 output (plaintext-shaped?): '' @ go_quote v)
          (report_fixture blockNum location
            (\<lambda>f. field @ '' value contains fixture string '' @ go_quote f @ '': '' @ go_quote v) v stats))"

definition checkHash :: "nat \<Rightarrow> string \<Rightarrow> json option \<Rightarrow> channelStats \<Rightarrow> channelStats" where
  "checkHash blockNum location v stats =
     (case as_string v of
        None \<Rightarrow> stats
      | Some v \<Rightarrow>
          report_if (\<not> dataHashRe v) blockNum location
            (''dataHash is not '' @ [CHR 0x22] @ ''sha256:<64 hex>'' @ [CHR 0x22] @ '' (raw content?): '' @ go_quote v)
          (report_fixture blockNum location
            (\<lambda>f. ''dataHash contains fixture string '' @ go_quote f @ '': '' @ go_quote v) v stats))"

definition checkPrevHash :: "nat \<Rightarrow> string \<Rightarrow> json option \<Rightarrow> channelStats \<Rightarrow> channelStats" where
  "checkPrevHash blockNum location v stats =
     (case as_string v of
        None \<Rightarrow> stats
      | Some v \<Rightarrow>
          report_if (v \<noteq> [] \<and> \<not> dataHashRe v) blockNum location
            (''prevHash is neither empty nor '' @ [CHR 0x22] @ ''sha256:<64 hex>'' @ [CHR 0x22] @ '': '' @ go_quote v) stats)"

definition checkSection :: "nat \<Rightarrow> string \<Rightarrow> json option \<Rightarrow> channelStats \<Rightarrow> channelStats" where
  "checkSection blockNum location v stats =
     (case as_string v of
        None \<Rightarrow> stats
      | Some v \<Rightarrow>
          report_if (v \<notin> set sectionEnum) blockNum location
            (''profileSection is not one of the five ratified values: '' @ go_quote v) stats)"

definition checkRecordJSON :: "(string \<Rightarrow> bool) \<Rightarrow> nat \<Rightarrow> string \<Rightarrow> string \<Rightarrow> channelStats \<Rightarrow> channelStats" where
  "checkRecordJSON ParseFloat blockNum location raw stats =
     (case unmarshal_map ParseFloat raw of
        None \<Rightarrow> stats
      | Some kvs \<Rightarrow>
          (let m = map_of (rev kvs);
               stats = schema_loop blockNum location (remdups (map fst kvs)) stats;
               stats = checkHex64 blockNum location ''employeeID'' (m ''employeeID'') stats;
               stats = checkHex64 blockNum location ''updatedBy'' (m ''updatedBy'') stats;
               stats = checkHash blockNum location (m ''dataHash'') stats;
               stats = checkPrevHash blockNum location (m ''prevHash'') stats;
               stats = checkSection blockNum location (m ''profileSection'') stats
           in case m ''ipfsCIDs'' of
                Some (JArr vs) \<Rightarrow> checkCIDs blockNum location (strings_of vs) stats
              | _ \<Rightarrow> stats))"

section \<open>Transaction arguments\<close>

fun args_loop :: "nat \<Rightarrow> string \<Rightarrow> nat \<Rightarrow> string list \<Rightarrow> channelStats \<Rightarrow> channelStats" where
  "args_loop blockNum fn i [] stats = stats"
| "args_loop blockNum fn i (s # args) stats =
     args_loop blockNum fn (i + 1) args
       (report_fixture blockNum ''tx-args''
          (\<lambda>f. ''fn='' @ fn @ '' arg['' @ itoa (int i) @ ''] contains fixture string '' @ go_quote f @ '': ''
               @ go_quote (truncate_text s 200)) s
          (stats\<lparr>TxArgsChecked := TxArgsChecked stats + 1\<rparr>))"

text \<open>\<open>json.Unmarshal\<close> into \<open>[]string\<close>.\<close>

fun decode_strings :: "json \<Rightarrow> string list option" where
  "decode_strings (JArr vs) = map_opt str_elem vs"
| "decode_strings JNull = Some []"
| "decode_strings _ = None"

definition cids_arg :: "string \<Rightarrow> string list" where
  "cids_arg t =
     (case json_unmarshal t of
        None \<Rightarrow> []
      | Some j \<Rightarrow> (case decode_strings j of None \<Rightarrow> [] | Some cs \<Rightarrow> cs))"

definition quoted_shape :: string where
  "quoted_shape = [CHR 0x22] @ ''sha256:<64 hex>'' @ [CHR 0x22]"

definition checkArgs :: "nat \<Rightarrow> string \<Rightarrow> string list \<Rightarrow> channelStats \<Rightarrow> channelStats" where
  "checkArgs blockNum fn args stats =
     (let stats = args_loop blockNum fn 0 args stats in
      if fn \<noteq> ''RecordProfileSection'' \<or> length args < 10 then stats
      else
        (let employeeID = args ! 1; profileSection = args ! 2; dataHash = args ! 3; prevHash = args ! 4;
             updatedBy = args ! 5; ipfsCIDsJSON = args ! 6;
             stats = report_if (\<not> hex64Re employeeID) blockNum ''tx-args''
                       (''employeeID arg is not 64-hex HMAC output: '' @ go_quote employeeID) stats;
             stats = report_if (\<not> hex64Re updatedBy) blockNum ''tx-args''
                       (''updatedBy arg is not 64-hex HMAC output: '' @ go_quote updatedBy) stats;
             stats = report_if (\<not> dataHashRe dataHash) blockNum ''tx-args''
                       (''dataHash arg is not '' @ quoted_shape @ '': '' @ go_quote dataHash) stats;
             stats = report_if (prevHash \<noteq> [] \<and> \<not> dataHashRe prevHash) blockNum ''tx-args''
                       (''prevHash arg is neither empty nor '' @ quoted_shape @ '': '' @ go_quote prevHash) stats;
             stats = report_if (profileSection \<notin> set sectionEnum) blockNum ''tx-args''
                       (''profileSection arg not one of the five ratified values: '' @ go_quote profileSection) stats
         in checkCIDs blockNum ''tx-args'' (cids_arg ipfsCIDsJSON) stats))"

section \<open>Blocks\<close>

text \<open>\<open>proto.Unmarshal\<close> for each message type, with the fields the scanner reads: block number
  and envelopes; payload; channel header and data; header type; action payloads; proposal
  payload and proposal response payload; input; arguments; extension; results and events;
  namespaces with their sets; keys with values; chaincode id, name, transaction id and
  payload of an event. The getters give zero values for absent parts.\<close>

record protos =
  u_Block :: "string \<Rightarrow> goerr + (nat \<times> string list)"
  u_Envelope :: "string \<Rightarrow> string option"
  u_Payload :: "string \<Rightarrow> (string \<times> string) option"
  u_ChannelHeader :: "string \<Rightarrow> int option"
  u_Transaction :: "string \<Rightarrow> string list option"
  u_ChaincodeActionPayload :: "string \<Rightarrow> (string \<times> string) option"
  u_ChaincodeProposalPayload :: "string \<Rightarrow> string option"
  u_ChaincodeInvocationSpec :: "string \<Rightarrow> string list option"
  u_ProposalResponsePayload :: "string \<Rightarrow> string option"
  u_ChaincodeAction :: "string \<Rightarrow> (string \<times> string) option"
  u_TxReadWriteSet :: "string \<Rightarrow> (string \<times> string) list option"
  u_KVRWSet :: "string \<Rightarrow> (string \<times> string) list option"
  u_ChaincodeEvent :: "string \<Rightarrow> (string \<times> string \<times> string \<times> string) option"

definition ENDORSER_TRANSACTION :: int where
  "ENDORSER_TRANSACTION = 3"

definition check_arguments :: "protos \<Rightarrow> nat \<Rightarrow> string \<Rightarrow> channelStats \<Rightarrow> channelStats" where
  "check_arguments P blockNum cpp_bytes stats =
     (case u_ChaincodeProposalPayload P cpp_bytes of
        None \<Rightarrow> stats
      | Some input \<Rightarrow>
          (case u_ChaincodeInvocationSpec P input of
             None \<Rightarrow> stats
           | Some rawArgs \<Rightarrow>
               (case rawArgs of
                  [] \<Rightarrow> stats
                | fnName # args \<Rightarrow>
                    checkArgs blockNum fnName args
                      (stats\<lparr>ChaincodeInvocations := ChaincodeInvocations stats + 1\<rparr>))))"

fun check_writes :: "(string \<Rightarrow> bool) \<Rightarrow> nat \<Rightarrow> string \<Rightarrow> (string \<times> string) list \<Rightarrow> channelStats \<Rightarrow> channelStats" where
  "check_writes ParseFloat blockNum ns [] stats = stats"
| "check_writes ParseFloat blockNum ns ((key, v) # ws) stats =
     (let loc = ''world-state-write ns='' @ ns @ '' key='' @ key;
          stats = stats\<lparr>WorldStateWrites := WorldStateWrites stats + 1\<rparr>;
          stats = report_fixture blockNum loc
            (\<lambda>f. ''write value contains fixture string '' @ go_quote f @ '': '' @ go_quote (truncate_text v 200)) v stats;
          stats = (if ns = chaincodeName then checkRecordJSON ParseFloat blockNum loc v stats else stats)
      in check_writes ParseFloat blockNum ns ws stats)"

fun check_namespaces ::
  "protos \<Rightarrow> (string \<Rightarrow> bool) \<Rightarrow> nat \<Rightarrow> (string \<times> string) list \<Rightarrow> channelStats \<Rightarrow> channelStats" where
  "check_namespaces P ParseFloat blockNum [] stats = stats"
| "check_namespaces P ParseFloat blockNum ((ns, rw) # nss) stats =
     check_namespaces P ParseFloat blockNum nss
       (case u_KVRWSet P rw of None \<Rightarrow> stats | Some ws \<Rightarrow> check_writes ParseFloat blockNum ns ws stats)"

definition check_results :: "protos \<Rightarrow> (string \<Rightarrow> bool) \<Rightarrow> nat \<Rightarrow> string \<Rightarrow> channelStats \<Rightarrow> channelStats" where
  "check_results P ParseFloat blockNum results stats =
     (if 0 < length results
      then (case u_TxReadWriteSet P results of
              None \<Rightarrow> stats
            | Some nss \<Rightarrow> check_namespaces P ParseFloat blockNum nss stats)
      else stats)"

definition check_event :: "protos \<Rightarrow> (string \<Rightarrow> bool) \<Rightarrow> nat \<Rightarrow> string \<Rightarrow> channelStats \<Rightarrow> channelStats" where
  "check_event P ParseFloat blockNum events stats =
     (if 0 < length events
      then (case u_ChaincodeEvent P events of
              None \<Rightarrow> stats
            | Some (ccid, name, txid, evpayload) \<Rightarrow>
                (let loc = ''event chaincodeId='' @ ccid @ '' eventName='' @ name @ '' txId='' @ txid;
                     stats = stats\<lparr>EventsChecked := EventsChecked stats + 1\<rparr>;
                     stats = report_fixture blockNum loc
                       (\<lambda>f. ''event payload contains fixture string '' @ go_quote f @ '': ''
                            @ go_quote (truncate_text evpayload 200)) evpayload stats
                 in checkRecordJSON ParseFloat blockNum loc evpayload stats))
      else stats)"

definition check_action :: "protos \<Rightarrow> (string \<Rightarrow> bool) \<Rightarrow> nat \<Rightarrow> string \<Rightarrow> channelStats \<Rightarrow> channelStats" where
  "check_action P ParseFloat blockNum action stats =
     (case u_ChaincodeActionPayload P action of
        None \<Rightarrow> stats
      | Some (cpp_bytes, prp_bytes) \<Rightarrow>
          (let stats = check_arguments P blockNum cpp_bytes stats
           in case u_ProposalResponsePayload P prp_bytes of
                None \<Rightarrow> stats
              | Some extension \<Rightarrow>
                  (case u_ChaincodeAction P extension of
                     None \<Rightarrow> stats
                   | Some (results, events) \<Rightarrow>
                       check_event P ParseFloat blockNum events
                         (check_results P ParseFloat blockNum results stats))))"

definition check_envelope :: "protos \<Rightarrow> (string \<Rightarrow> bool) \<Rightarrow> nat \<Rightarrow> string \<Rightarrow> channelStats \<Rightarrow> channelStats" where
  "check_envelope P ParseFloat blockNum envBytes stats =
     (case u_Envelope P envBytes of
        None \<Rightarrow> stats
      | Some payload_bytes \<Rightarrow>
          (case u_Payload P payload_bytes of
             None \<Rightarrow> stats
           | Some (chdr_bytes, data) \<Rightarrow>
               (case u_ChannelHeader P chdr_bytes of
                  None \<Rightarrow> stats
                | Some t \<Rightarrow>
                    (let stats = stats\<lparr>Envelopes := Envelopes stats + 1\<rparr>
                     in if t \<noteq> ENDORSER_TRANSACTION
                        then stats\<lparr>ConfigEnvelopes := ConfigEnvelopes stats + 1\<rparr>
                        else
                          (let stats = stats\<lparr>EndorserTxEnvelopes := EndorserTxEnvelopes stats + 1\<rparr>
                           in case u_Transaction P data of
                                None \<Rightarrow> stats
                              | Some actions \<Rightarrow> fold (check_action P ParseFloat blockNum) actions stats)))))"

definition parseBlock :: "protos \<Rightarrow> (string \<Rightarrow> bool) \<Rightarrow> string \<Rightarrow> channelStats \<Rightarrow> goerr option \<times> channelStats" where
  "parseBlock P ParseFloat raw stats =
     (case u_Block P raw of
        Inl err \<Rightarrow> (Some (wrap ''unmarshal common.Block'' err), stats)
      | Inr (blockNum, envelopes) \<Rightarrow>
          (let stats = stats\<lparr>BlocksScanned := BlocksScanned stats + 1\<rparr>;
               stats = (if HighestBlockNumber stats < blockNum then stats\<lparr>HighestBlockNumber := blockNum\<rparr> else stats);
               stats = scanRawBackstop blockNum raw stats
           in (None, fold (check_envelope P ParseFloat blockNum) envelopes stats)))"

section \<open>Fetching\<close>

text \<open>The operating system runs a command line and returns its combined output and error, or, for
  \<open>Output\<close>, its standard output alone or the error.\<close>

record 'w docker =
  CombinedOutput :: "'w exec"
  Output :: "string list \<Rightarrow> ('w, goerr, string) act"

definition helperContainer :: string where
  "helperContainer = ''fabric-tools-net''"

definition dockerExec :: "'w docker \<Rightarrow> string \<Rightarrow> 'w \<Rightarrow> (string \<times> goerr option) \<times> 'w" where
  "dockerExec D shCmd = CombinedOutput D [''docker'', ''exec'', helperContainer, ''sh'', ''-c'', shCmd]"

definition dockerCatBinary :: "'w docker \<Rightarrow> string \<Rightarrow> ('w, goerr, string) act" where
  "dockerCatBinary D containerPath = Output D [''docker'', ''exec'', helperContainer, ''cat'', containerPath]"

definition containerScratchDir :: string where
  "containerScratchDir = ''/tmp/pilscan''"

definition ordererAddr :: string where
  "ordererAddr = ''orderer0.org1:7050''"

definition ordererTLSCA :: string where
  "ordererTLSCA = ''/net/crypto-config/ordererOrganizations/org1/tlsca/tlsca.org1-cert.pem''"

definition org1AdminMSP :: string where
  "org1AdminMSP = ''/net/crypto-config/peerOrganizations/org1/users/Admin@org1/msp''"

definition org1TLSDir :: string where
  "org1TLSDir = ''/net/crypto-config/peerOrganizations/org1/users/Admin@org1/tls''"

definition org1TLSCAFile :: string where
  "org1TLSCAFile = ''/net/crypto-config/peerOrganizations/org1/tlsca/tlsca.org1-cert.pem''"

definition peerCLIEnv :: string where
  "peerCLIEnv =
     ''CORE_PEER_LOCALMSPID=Org1MSP CORE_PEER_MSPCONFIGPATH='' @ org1AdminMSP
     @ '' CORE_PEER_ADDRESS=peer0.org1:7051 CORE_PEER_TLS_ENABLED=true CORE_PEER_TLS_ROOTCERT_FILE='' @ org1TLSCAFile
     @ '' CORE_PEER_TLS_CLIENTAUTHREQUIRED=true CORE_PEER_TLS_CLIENTCERT_FILE='' @ org1TLSDir
     @ ''/client.crt CORE_PEER_TLS_CLIENTKEY_FILE='' @ org1TLSDir @ ''/client.key''"

definition ordererTLSClientFlags :: string where
  "ordererTLSClientFlags =
     ''--clientauth --certfile '' @ org1TLSDir @ ''/client.crt --keyfile '' @ org1TLSDir @ ''/client.key''"

definition block_path :: "string \<Rightarrow> string \<Rightarrow> string" where
  "block_path channel blockSpec = containerScratchDir @ ''/'' @ channel @ ''_'' @ blockSpec @ ''.block''"

definition fetch_command :: "string \<Rightarrow> string \<Rightarrow> string" where
  "fetch_command channel blockSpec =
     peerCLIEnv @ '' peer channel fetch '' @ blockSpec @ '' '' @ block_path channel blockSpec @ '' -c '' @ channel
     @ '' -o '' @ ordererAddr @ '' --tls --cafile '' @ ordererTLSCA @ '' '' @ ordererTLSClientFlags"

definition fetchBlock :: "'w docker \<Rightarrow> string \<Rightarrow> string \<Rightarrow> ('w, goerr, string) act" where
  "fetchBlock D channel blockSpec w =
     (case dockerExec D (fetch_command channel blockSpec) w of
        ((out, Some err), w1) \<Rightarrow>
          (Inl (Wrapf (''peer channel fetch '' @ blockSpec @ '' (channel='' @ channel @ ''): '') err ([CHR 0x0A] @ out)), w1)
      | ((out, None), w1) \<Rightarrow>
          mapErr (\<lambda>err. Wrapf (''reading back fetched block '' @ blockSpec @ '' (channel='' @ channel @ ''): '') err [])
            (dockerCatBinary D (block_path channel blockSpec)) w1)"

text \<open>The loop over the block numbers from \<open>n\<close>, \<open>k\<close> of them.\<close>

fun scan_blocks ::
  "protos \<Rightarrow> (string \<Rightarrow> bool) \<Rightarrow> 'w docker \<Rightarrow> string \<Rightarrow> nat \<Rightarrow> nat \<Rightarrow> channelStats \<Rightarrow> 'w
   \<Rightarrow> (goerr option \<times> channelStats) \<times> 'w" where
  "scan_blocks P ParseFloat D channel n 0 stats w = ((None, stats), w)"
| "scan_blocks P ParseFloat D channel n (Suc k) stats w =
     (case fetchBlock D channel (nat_digits n) w of
        (Inl err, w1) \<Rightarrow> ((Some (wrap (''fetching block '' @ nat_digits n) err), stats), w1)
      | (Inr raw, w1) \<Rightarrow>
          (case parseBlock P ParseFloat raw stats of
             (Some err, stats') \<Rightarrow> ((Some (wrap (''parsing block '' @ nat_digits n) err), stats'), w1)
           | (None, stats') \<Rightarrow> scan_blocks P ParseFloat D channel (n + 1) k stats' w1))"

definition scanChannel ::
  "protos \<Rightarrow> (string \<Rightarrow> bool) \<Rightarrow> 'w docker \<Rightarrow> string \<Rightarrow> 'w \<Rightarrow> (channelStats option \<times> goerr option) \<times> 'w" where
  "scanChannel P ParseFloat D channel w =
     (case dockerExec D (''mkdir -p '' @ containerScratchDir) w of
        ((_, Some err), w1) \<Rightarrow> ((None, Some (wrap ''mkdir scratch dir'' err)), w1)
      | ((_, None), w1) \<Rightarrow>
          (case fetchBlock D channel ''newest'' w1 of
             (Inl err, w2) \<Rightarrow> ((None, Some (wrap ''fetching newest block for height discovery'' err)), w2)
           | (Inr newest, w2) \<Rightarrow>
               (case u_Block P newest of
                  Inl err \<Rightarrow> ((None, Some (wrap ''unmarshal newest block'' err)), w2)
                | Inr (height, _) \<Rightarrow>
                    (case scan_blocks P ParseFloat D channel 0 (height + 1) (new_stats channel) w2 of
                       ((err, stats), w3) \<Rightarrow> ((Some stats, err), w3)))))"

text \<open>The loop of \<open>main\<close>: what was collected and whether everything passed; the process exits
  with status 1 when not.\<close>

fun scan_all ::
  "protos \<Rightarrow> (string \<Rightarrow> bool) \<Rightarrow> 'w docker \<Rightarrow> string list \<Rightarrow> channelStats list \<Rightarrow> bool \<Rightarrow> 'w
   \<Rightarrow> (channelStats list \<times> bool) \<times> 'w" where
  "scan_all P ParseFloat D [] allStats overallPass w = ((allStats, overallPass), w)"
| "scan_all P ParseFloat D (ch # chs) allStats overallPass w =
     (case scanChannel P ParseFloat D ch w of
        ((stats, err), w1) \<Rightarrow>
          (let allStats = (case stats of None \<Rightarrow> allStats | Some st \<Rightarrow> allStats @ [st]);
               ok = (case (stats, err) of (Some st, None) \<Rightarrow> Findings st = [] | _ \<Rightarrow> False)
           in scan_all P ParseFloat D chs allStats (overallPass \<and> ok) w1))"

definition pilscan_main :: "protos \<Rightarrow> (string \<Rightarrow> bool) \<Rightarrow> 'w docker \<Rightarrow> 'w \<Rightarrow> (channelStats list \<times> bool) \<times> 'w" where
  "pilscan_main P ParseFloat D w = scan_all P ParseFloat D channels [] True w"

section \<open>Findings are never dropped\<close>

definition grows :: "(channelStats \<Rightarrow> channelStats) \<Rightarrow> bool" where
  "grows f \<longleftrightarrow> (\<forall>s. prefix (Findings s) (Findings (f s)))"

lemma growsI: "(\<And>s. prefix (Findings s) (Findings (f s))) \<Longrightarrow> grows f"
  by (simp add: grows_def)

lemma grows_trans: "grows f \<Longrightarrow> prefix (Findings s) (Findings t) \<Longrightarrow> prefix (Findings s) (Findings (f t))"
  using prefix_order.trans unfolding grows_def by blast

lemma grows_clean: "grows f \<Longrightarrow> Findings (f s) = [] \<Longrightarrow> Findings s = []"
  unfolding grows_def by (metis prefix_Nil)

lemma grows_report_if: "grows (report_if b n l d)"
  by (simp add: grows_def report_if_def report_def)

lemma grows_report_fixture: "grows (report_fixture n l d s)"
  by (simp add: grows_def report_fixture_def report_def split: option.splits)

lemma grows_checkCID: "grows (checkCID n l c)"
  by (intro growsI) (simp add: checkCID_def grows_trans grows_report_if grows_report_fixture)

lemma grows_checkCIDs: "grows (checkCIDs n l cs)"
proof (induction cs)
  case (Cons c cs)
  have "prefix (Findings s) (Findings (checkCIDs n l (c # cs) s))" for s
    using grows_checkCID [of n l c] Cons by (simp add: grows_trans)
  then show ?case by (rule growsI)
qed (simp add: grows_def)

lemma grows_schema_loop: "grows (schema_loop n l ks)"
proof (induction ks)
  case (Cons k ks)
  have "prefix (Findings s) (Findings (schema_loop n l (k # ks) s))" for s
    using Cons by (simp add: grows_trans grows_report_if)
  then show ?case by (rule growsI)
qed (simp add: grows_def)

lemma grows_field_checks:
  "grows (checkHex64 n l f v)" "grows (checkHash n l v)" "grows (checkPrevHash n l v)" "grows (checkSection n l v)"
  by (intro growsI; simp add: checkHex64_def checkHash_def checkPrevHash_def checkSection_def grows_trans
      grows_report_if grows_report_fixture split: option.splits)+

lemma grows_checkRecordJSON: "grows (checkRecordJSON F n l raw)"
  by (intro growsI) (simp add: checkRecordJSON_def Let_def grows_trans grows_schema_loop grows_field_checks
      grows_checkCIDs split: option.splits json.splits)

lemma grows_args_loop: "grows (args_loop n fn i args)"
proof (induction args arbitrary: i)
  case (Cons a args)
  have "prefix (Findings s) (Findings (args_loop n fn i (a # args) s))" for s
    using Cons by (simp add: grows_trans grows_report_fixture)
  then show ?case by (rule growsI)
qed (simp add: grows_def)

lemma grows_checkArgs: "grows (checkArgs n fn args)"
  by (intro growsI) (simp add: checkArgs_def Let_def grows_trans grows_args_loop grows_report_if grows_checkCIDs)

lemma grows_fold: "(\<And>x. grows (f x)) \<Longrightarrow> grows (fold f xs)"
proof (induction xs)
  case (Cons x xs)
  then have "grows (fold f xs)" "grows (f x)" by blast+
  then show ?case by (intro growsI) (simp add: grows_trans)
qed (simp add: grows_def)

lemma grows_check_writes: "grows (check_writes F n ns ws)"
proof (induction ws)
  case (Cons w ws)
  have "prefix (Findings s) (Findings (check_writes F n ns (w # ws) s))" for s
    using Cons by (cases w) (simp add: Let_def grows_trans grows_report_fixture grows_checkRecordJSON)
  then show ?case by (rule growsI)
qed (simp add: grows_def)

lemma grows_check_namespaces: "grows (check_namespaces P F n nss)"
proof (induction nss)
  case (Cons w nss)
  have "prefix (Findings s) (Findings (check_namespaces P F n (w # nss) s))" for s
    using Cons by (cases w) (simp add: grows_trans grows_check_writes split: option.splits)
  then show ?case by (rule growsI)
qed (simp add: grows_def)

lemma grows_check_action: "grows (check_action P F n a)"
  by (intro growsI) (simp add: check_action_def check_arguments_def check_results_def check_event_def Let_def grows_trans
      grows_checkArgs grows_check_namespaces grows_report_fixture grows_checkRecordJSON split: option.splits list.splits)

lemma grows_check_envelope: "grows (check_envelope P F n e)"
  by (intro growsI) (simp add: check_envelope_def Let_def grows_trans grows_fold grows_check_action split: option.splits)

lemma grows_backstop: "grows (backstop_loop fs n s)"
proof (induction fs)
  case (Cons f fs)
  have "prefix (Findings t) (Findings (backstop_loop (f # fs) n s t))" for t
    using Cons by (simp add: grows_trans grows_report_if)
  then show ?case by (rule growsI)
qed (simp add: grows_def)

section \<open>What a passed scan shows\<close>

lemma report_if_clean: "Findings (report_if b n l d s) = [] \<longleftrightarrow> \<not> b \<and> Findings s = []"
  by (simp add: report_if_def report_def)

lemma backstop_clean: "Findings (backstop_loop fs n s st) = [] \<Longrightarrow> \<forall>f\<in>set fs. \<not> contains s f"
proof (induction fs arbitrary: st)
  case (Cons f fs)
  note rest = Cons.prems [unfolded backstop_loop.simps]
  from grows_clean [OF grows_backstop rest] have "\<not> contains s f" by (simp only: report_if_clean) simp
  with Cons.IH [OF rest] show ?case by simp
qed simp

text \<open>The state in which the block's raw bytes are scanned.\<close>

definition block_entered :: "nat \<Rightarrow> string \<Rightarrow> channelStats \<Rightarrow> channelStats" where
  "block_entered blockNum raw stats =
     (let stats = stats\<lparr>BlocksScanned := BlocksScanned stats + 1\<rparr>;
          stats = (if HighestBlockNumber stats < blockNum then stats\<lparr>HighestBlockNumber := blockNum\<rparr> else stats)
      in stats\<lparr>RawBytesScanned := RawBytesScanned stats + length raw\<rparr>)"

lemma block_entered_findings: "Findings (block_entered n raw st) = Findings st"
  by (simp add: block_entered_def Let_def)

lemma parseBlock_view:
  "parseBlock P F raw st =
     (case u_Block P raw of
        Inl err \<Rightarrow> (Some (wrap ''unmarshal common.Block'' err), st)
      | Inr (n, es) \<Rightarrow>
          (None, fold (check_envelope P F n) es (backstop_loop fixtureDictionary n raw (block_entered n raw st))))"
  by (simp only: parseBlock_def scanRawBackstop_def block_entered_def Let_def)

lemma parseBlock_clean:
  assumes "parseBlock P F raw st = (None, st')" and "Findings st' = []"
  shows "Findings st = [] \<and> (\<forall>f\<in>set fixtureDictionary. \<not> contains raw f)"
proof -
  from assms(1) obtain n es where
    st': "st' = fold (check_envelope P F n) es (backstop_loop fixtureDictionary n raw (block_entered n raw st))"
    by (cases "u_Block P raw") (fastforce simp only: parseBlock_view sum.case prod.case split: prod.splits)+
  have b: "Findings (backstop_loop fixtureDictionary n raw (block_entered n raw st)) = []"
    using assms(2) unfolding st' by (rule grows_clean [OF grows_fold, rotated]) (rule grows_check_envelope)
  from grows_clean [OF grows_backstop b] backstop_clean [OF b] show ?thesis
    by (simp only: block_entered_findings simp_thms)
qed

text \<open>A block that was fetched and passed both kinds of check.\<close>

definition clean_block :: "protos \<Rightarrow> (string \<Rightarrow> bool) \<Rightarrow> 'w docker \<Rightarrow> string \<Rightarrow> nat \<Rightarrow> string \<Rightarrow> bool" where
  "clean_block P F D ch n raw \<longleftrightarrow>
     (\<exists>w w'. fetchBlock D ch (nat_digits n) w = (Inr raw, w'))
     \<and> (\<exists>st st'. parseBlock P F raw st = (None, st') \<and> Findings st' = [])"

lemma clean_block_bytes:
  "clean_block P F D ch n raw \<Longrightarrow> \<exists>w w'. fetchBlock D ch (nat_digits n) w = (Inr raw, w')"
  "clean_block P F D ch n raw \<Longrightarrow> \<forall>f\<in>set fixtureDictionary. \<not> contains raw f"
  unfolding clean_block_def using parseBlock_clean by blast+

lemma scan_blocks_clean:
  "scan_blocks P F D ch n k st w = ((None, st'), w') \<Longrightarrow> Findings st' = [] \<Longrightarrow>
   Findings st = [] \<and> (\<exists>raws. length raws = k \<and> (\<forall>i<k. clean_block P F D ch (n + i) (raws ! i)))"
proof (induction k arbitrary: n st w)
  case (Suc k)
  from Suc.prems(1) obtain raw w1 st1 where f: "fetchBlock D ch (nat_digits n) w = (Inr raw, w1)"
    and p: "parseBlock P F raw st = (None, st1)"
    and r: "scan_blocks P F D ch (n + 1) k st1 w1 = ((None, st'), w')"
    by (auto split: prod.splits sum.splits option.splits)
  from Suc.IH [OF r Suc.prems(2)] obtain raws where raws: "Findings st1 = []" "length raws = k"
    "\<forall>i<k. clean_block P F D ch (n + 1 + i) (raws ! i)" by blast
  from parseBlock_clean [OF p raws(1)] f p raws(1) have "Findings st = []" "clean_block P F D ch n raw"
    unfolding clean_block_def by blast+
  moreover have "\<forall>i<Suc k. clean_block P F D ch (n + i) ((raw # raws) ! i)"
    using raws(3) \<open>clean_block P F D ch n raw\<close> by (auto simp: nth_Cons less_Suc_eq_0_disj)
  ultimately show ?case using raws(2) by (intro conjI exI [of _ "raw # raws"]) auto
qed simp

definition clean_channel :: "protos \<Rightarrow> (string \<Rightarrow> bool) \<Rightarrow> 'w docker \<Rightarrow> string \<Rightarrow> bool" where
  "clean_channel P F D ch \<longleftrightarrow>
     (\<exists>newest es w w' raws. fetchBlock D ch ''newest'' w = (Inr newest, w')
        \<and> u_Block P newest = Inr (length raws - 1, es) \<and> raws \<noteq> []
        \<and> (\<forall>i<length raws. clean_block P F D ch i (raws ! i)))"

lemma scanChannel_clean:
  assumes "scanChannel P F D ch w = ((Some st, None), w')" and "Findings st = []"
  shows "clean_channel P F D ch"
proof -
  from assms(1) obtain w1 newest w2 h es where f: "fetchBlock D ch ''newest'' w1 = (Inr newest, w2)"
    and b: "u_Block P newest = Inr (h, es)"
    and r: "scan_blocks P F D ch 0 (h + 1) (new_stats ch) w2 = ((None, st), w')"
    by (auto simp: scanChannel_def split: prod.splits sum.splits option.splits)
  from scan_blocks_clean [OF r assms(2)] obtain raws where "length raws = h + 1"
    "\<forall>i<h + 1. clean_block P F D ch i (raws ! i)" by auto
  with f b show ?thesis unfolding clean_channel_def by (metis add_diff_cancel_right' length_0_conv nat.simps(3) Suc_eq_plus1)
qed

lemma scan_all_clean:
  "scan_all P F D chs acc p w = ((all, True), w') \<Longrightarrow> p \<and> (\<forall>ch\<in>set chs. clean_channel P F D ch)"
proof (induction chs arbitrary: acc p w)
  case (Cons ch chs)
  obtain stats err w1 where sc: "scanChannel P F D ch w = ((stats, err), w1)" by (metis prod.exhaust)
  from Cons.prems sc Cons.IH have "p" "case (stats, err) of (Some st, None) \<Rightarrow> Findings st = [] | _ \<Rightarrow> False"
    "\<forall>ch\<in>set chs. clean_channel P F D ch" by (fastforce simp: Let_def)+
  with sc scanChannel_clean [of P F D ch w] show ?case by (auto split: option.splits)
qed simp

section \<open>When a check is silent\<close>

definition quiet :: "(channelStats \<Rightarrow> channelStats) \<Rightarrow> channelStats \<Rightarrow> bool" where
  "quiet f s \<longleftrightarrow> Findings (f s) = Findings s"

lemma quiet_compose:
  assumes "grows f" and "grows g"
  shows "quiet (\<lambda>s. g (f s)) s \<longleftrightarrow> quiet f s \<and> quiet g (f s)"
proof -
  have "prefix (Findings s) (Findings (f s))" "prefix (Findings (f s)) (Findings (g (f s)))"
    using assms by (simp_all add: grows_def)
  then show ?thesis unfolding quiet_def by (metis prefix_order.antisym)
qed

lemma quiet_report_if: "quiet (report_if b n l d) s \<longleftrightarrow> \<not> b"
  by (simp add: quiet_def report_if_def report_def)

lemma quiet_report_fixture: "quiet (report_fixture n l d v) s \<longleftrightarrow> containsFixture v = None"
  by (cases "containsFixture v") (simp_all add: quiet_def report_fixture_def report_def)

lemma grows_compose: "grows f \<Longrightarrow> grows g \<Longrightarrow> grows (\<lambda>s. g (f s))"
  by (intro growsI) (simp add: grows_trans grows_def)

lemma after_report_if:
  "grows f \<Longrightarrow> grows (\<lambda>s. report_if b n l d (f s))"
  "grows f \<Longrightarrow> quiet (\<lambda>s. report_if b n l d (f s)) s \<longleftrightarrow> quiet f s \<and> \<not> b"
  by (simp_all add: grows_compose grows_report_if quiet_compose quiet_report_if)

lemma after_report_fixture:
  "grows f \<Longrightarrow> grows (\<lambda>s. report_fixture n l d v (f s))"
  "grows f \<Longrightarrow> quiet (\<lambda>s. report_fixture n l d v (f s)) s \<longleftrightarrow> quiet f s \<and> containsFixture v = None"
  by (simp_all add: grows_compose grows_report_fixture quiet_compose quiet_report_fixture)

lemma plausible_cid_short: "cidPlausRe c \<Longrightarrow> length c \<le> 130"
  unfolding cidPlausRe_def by linarith

definition cid_ok :: "string \<Rightarrow> bool" where
  "cid_ok c \<longleftrightarrow> cidPlausRe c \<and> containsFixture c = None"

lemma quiet_checkCID: "quiet (checkCID n l c) s \<longleftrightarrow> cid_ok c"
  unfolding checkCID_def [abs_def] cid_ok_def
  using plausible_cid_short [of c]
  by (simp only: after_report_if grows_report_fixture quiet_report_fixture not_less) blast

lemma quiet_checkCIDs: "quiet (checkCIDs n l cs) s \<longleftrightarrow> (\<forall>c\<in>set cs. cid_ok c)"
proof (induction cs arbitrary: s)
  case (Cons c cs)
  let ?s = "s\<lparr>IpfsCIDsChecked := IpfsCIDsChecked s + 1\<rparr>"
  have "quiet (checkCIDs n l (c # cs)) s \<longleftrightarrow> quiet (\<lambda>s. checkCIDs n l cs (checkCID n l c s)) ?s"
    by (simp add: quiet_def)
  also have "\<dots> \<longleftrightarrow> cid_ok c \<and> (\<forall>c\<in>set cs. cid_ok c)"
    by (simp only: quiet_compose grows_checkCID grows_checkCIDs quiet_checkCID Cons.IH)
  finally show ?case by (simp only: list.set ball_simps)
qed (simp add: quiet_def)

lemma quiet_args_loop: "quiet (args_loop n fn i args) s \<longleftrightarrow> (\<forall>a\<in>set args. containsFixture a = None)"
proof (induction args arbitrary: i s)
  case (Cons a args)
  let ?s = "s\<lparr>TxArgsChecked := TxArgsChecked s + 1\<rparr>"
  obtain d where "quiet (args_loop n fn i (a # args)) s
      \<longleftrightarrow> quiet (\<lambda>s. args_loop n fn (i + 1) args (report_fixture n ''tx-args'' d a s)) ?s"
    by (simp add: quiet_def)
  also have "\<dots> \<longleftrightarrow> containsFixture a = None \<and> (\<forall>a\<in>set args. containsFixture a = None)"
    by (simp only: quiet_compose grows_report_fixture grows_args_loop quiet_report_fixture Cons.IH)
  finally show ?case by (simp only: list.set ball_simps)
qed (simp add: quiet_def)

lemma after_checkCIDs:
  "grows f \<Longrightarrow> grows (\<lambda>s. checkCIDs n l cs (f s))"
  "grows f \<Longrightarrow> quiet (\<lambda>s. checkCIDs n l cs (f s)) s \<longleftrightarrow> quiet f s \<and> (\<forall>c\<in>set cs. cid_ok c)"
  by (simp_all add: grows_compose grows_checkCIDs quiet_compose quiet_checkCIDs)

lemmas quiet_steps = after_report_if after_report_fixture after_checkCIDs

lemma quiet_checkArgs:
  assumes "10 \<le> length args"
  shows "quiet (checkArgs n ''RecordProfileSection'' args) s \<longleftrightarrow>
    (\<forall>a\<in>set args. containsFixture a = None) \<and> hex64Re (args ! 1) \<and> args ! 2 \<in> set sectionEnum
    \<and> dataHashRe (args ! 3) \<and> (args ! 4 = [] \<or> dataHashRe (args ! 4)) \<and> hex64Re (args ! 5)
    \<and> (\<forall>c\<in>set (cids_arg (args ! 6)). cid_ok c)"
  using assms unfolding checkArgs_def [abs_def] Let_def
  by (simp only: not_less [symmetric] simp_thms if_False quiet_steps grows_args_loop quiet_args_loop) blast

lemma is_digest_dataHashRe: "is_digest h \<longleftrightarrow> dataHashRe h"
  by (auto simp: is_digest_def dataHashRe_def hex64Re_def)

lemma grows_then:
  "grows f \<Longrightarrow> grows (\<lambda>s. checkHex64 n l fd v (f s))"
  "grows f \<Longrightarrow> grows (\<lambda>s. checkHash n l v (f s))"
  "grows f \<Longrightarrow> grows (\<lambda>s. checkPrevHash n l v (f s))"
  "grows f \<Longrightarrow> grows (\<lambda>s. checkSection n l v (f s))"
  by (simp_all add: grows_compose grows_field_checks)

lemma quiet_field_checks:
  "quiet (checkHex64 n l fd (Some (JStr v))) s \<longleftrightarrow> hex64Re v \<and> containsFixture v = None"
  "quiet (checkHash n l (Some (JStr v))) s \<longleftrightarrow> dataHashRe v \<and> containsFixture v = None"
  "quiet (checkPrevHash n l (Some (JStr v))) s \<longleftrightarrow> v = [] \<or> dataHashRe v"
  "quiet (checkSection n l (Some (JStr v))) s \<longleftrightarrow> v \<in> set sectionEnum"
  unfolding checkHex64_def [abs_def] checkHash_def [abs_def] checkPrevHash_def [abs_def] checkSection_def [abs_def]
  by (simp_all only: as_string.simps option.case quiet_steps grows_report_fixture quiet_report_fixture quiet_report_if) blast+

lemma quiet_then:
  "grows f \<Longrightarrow> quiet (\<lambda>s. checkHex64 n l fd (Some (JStr v)) (f s)) s
     \<longleftrightarrow> quiet f s \<and> hex64Re v \<and> containsFixture v = None"
  "grows f \<Longrightarrow> quiet (\<lambda>s. checkHash n l (Some (JStr v)) (f s)) s
     \<longleftrightarrow> quiet f s \<and> dataHashRe v \<and> containsFixture v = None"
  "grows f \<Longrightarrow> quiet (\<lambda>s. checkPrevHash n l (Some (JStr v)) (f s)) s \<longleftrightarrow> quiet f s \<and> (v = [] \<or> dataHashRe v)"
  "grows f \<Longrightarrow> quiet (\<lambda>s. checkSection n l (Some (JStr v)) (f s)) s \<longleftrightarrow> quiet f s \<and> v \<in> set sectionEnum"
  by (simp_all only: quiet_compose grows_field_checks quiet_field_checks)

lemma quiet_schema_loop: "quiet (schema_loop n l ks) s \<longleftrightarrow> set ks \<subseteq> set allowedRecordFields"
proof (induction ks arbitrary: s)
  case (Cons k ks)
  obtain d where "quiet (schema_loop n l (k # ks)) s
      \<longleftrightarrow> quiet (\<lambda>s. schema_loop n l ks (report_if (k \<notin> set allowedRecordFields) n l d s)) s"
    by (simp add: quiet_def)
  also have "\<dots> \<longleftrightarrow> k \<in> set allowedRecordFields \<and> set ks \<subseteq> set allowedRecordFields"
    by (simp only: quiet_compose grows_report_if grows_schema_loop quiet_report_if Cons.IH) blast
  finally show ?case by (simp only: list.set insert_subset)
qed (simp add: quiet_def)

fun record_pairs :: "json \<Rightarrow> (string \<times> json) list" where
  "record_pairs (JObj kvs) = kvs"
| "record_pairs _ = []"

lemma record_pairs_record:
  "record_json r = JObj (record_pairs (record_json r))"
  "map fst (record_pairs (record_json r)) = allowedRecordFields"
  "distinct (map fst (record_pairs (record_json r)))"
  by (simp_all add: record_json_def allowedRecordFields_def)

lemma unmarshal_map_record:
  assumes "wf_record r" and "F (itoa (Version r))"
  shows "unmarshal_map F (marshal_record r) = Some (record_pairs (record_json r))"
proof -
  have "json_unmarshal (marshal_record r) = Some (JObj (record_pairs (record_json r)))"
    using parse_print [OF wf_record_json [OF assms(1)]] record_pairs_record(1) by (simp add: marshal_record_def)
  moreover have "floats_ok F (JObj (record_pairs (record_json r)))"
    using assms(2) by (cases "IpfsCIDs r") (auto simp: record_json_def strs_json_def list_all_iff)
  ultimately show ?thesis by (simp add: unmarshal_map_def)
qed

lemma map_of_rev_distinct: "distinct (map fst xs) \<Longrightarrow> map_of (rev xs) = map_of xs"
proof (induction xs)
  case (Cons x xs)
  then have "fst x \<notin> dom (map_of xs)" by (simp add: dom_map_of_conv_image_fst)
  with Cons show ?case by (cases x) (auto simp: map_add_def fun_eq_iff split: option.splits)
qed simp

lemma record_lookup:
  "map_of (rev (record_pairs (record_json r))) = map_of (record_pairs (record_json r))"
  by (rule map_of_rev_distinct) (rule record_pairs_record(3))

lemma record_lookups:
  "map_of (record_pairs (record_json r)) ''employeeID'' = Some (JStr (EmployeeID r))"
  "map_of (record_pairs (record_json r)) ''updatedBy'' = Some (JStr (UpdatedBy r))"
  "map_of (record_pairs (record_json r)) ''dataHash'' = Some (JStr (DataHash r))"
  "map_of (record_pairs (record_json r)) ''prevHash'' = Some (JStr (PrevHash r))"
  "map_of (record_pairs (record_json r)) ''profileSection'' = Some (JStr (ProfileSection r))"
  "map_of (record_pairs (record_json r)) ''ipfsCIDs'' = Some (strs_json (IpfsCIDs r))"
  by (simp_all add: record_json_def)

lemma strings_of_map: "strings_of (map JStr cs) = cs"
  by (induction cs) simp_all

definition record_cids :: "EmployeeProfileRecord \<Rightarrow> string list" where
  "record_cids r = (case IpfsCIDs r of None \<Rightarrow> [] | Some cs \<Rightarrow> cs)"

lemma checkRecordJSON_record:
  assumes "wf_record r" and "F (itoa (Version r))"
  shows "checkRecordJSON F n l (marshal_record r) = (\<lambda>s.
    checkCIDs n l (record_cids r)
     (checkSection n l (Some (JStr (ProfileSection r)))
     (checkPrevHash n l (Some (JStr (PrevHash r)))
     (checkHash n l (Some (JStr (DataHash r)))
     (checkHex64 n l ''updatedBy'' (Some (JStr (UpdatedBy r)))
     (checkHex64 n l ''employeeID'' (Some (JStr (EmployeeID r)))
     (schema_loop n l allowedRecordFields s)))))))"
  using record_pairs_record [of r]
  by (cases "IpfsCIDs r")
    (simp_all only: fun_eq_iff checkRecordJSON_def unmarshal_map_record [of r F, OF assms] option.case Let_def record_lookup
      record_lookups record_cids_def strs_json_def json.case strings_of_map checkCIDs.simps distinct_remdups_id simp_thms)

text \<open>C18: A passed scan is a statement about every byte. When the scanner reports success,
  then on each of the configured channels it has fetched the newest block, taken its number
  as the height, fetched every block from 0 up to it, and none of these blocks contains any
  of the dictionary's strings anywhere in its raw bytes, whatever the protobuf decoding made
  of them. Equivalently, one forbidden string in one block makes the scan fail.\<close>

theorem passed_scan_covers_every_byte:
  assumes "pilscan_main P ParseFloat D w = ((all, True), w')" and "ch \<in> set channels"
  shows "\<exists>newest es w1 w2 raws. fetchBlock D ch ''newest'' w1 = (Inr newest, w2)
      \<and> u_Block P newest = Inr (length raws - 1, es) \<and> raws \<noteq> []
      \<and> (\<forall>n<length raws. (\<exists>w3 w4. fetchBlock D ch (nat_digits n) w3 = (Inr (raws ! n), w4))
            \<and> (\<forall>f\<in>set fixtureDictionary. \<not> contains (raws ! n) f))"
proof -
  from scan_all_clean [OF assms(1) [unfolded pilscan_main_def]] assms(2) have "clean_channel P ParseFloat D ch" by blast
  then obtain newest es w1 w2 raws where n: "fetchBlock D ch ''newest'' w1 = (Inr newest, w2)"
    "u_Block P newest = Inr (length raws - 1, es)" "raws \<noteq> []"
    and c: "\<forall>i<length raws. clean_block P ParseFloat D ch i (raws ! i)"
    unfolding clean_channel_def by (elim exE conjE) (rule that; assumption)
  have "\<forall>i<length raws. (\<exists>w3 w4. fetchBlock D ch (nat_digits i) w3 = (Inr (raws ! i), w4))
      \<and> (\<forall>f\<in>set fixtureDictionary. \<not> contains (raws ! i) f)"
    using c clean_block_bytes by blast
  with n show ?thesis by blast
qed


text \<open>A ledger of one empty block per channel, for the witness; the world counts the commands.\<close>

definition empty_protos :: protos where
  "empty_protos =
     \<lparr>u_Block = \<lambda>_. Inr (0, []), u_Envelope = \<lambda>_. None, u_Payload = \<lambda>_. None, u_ChannelHeader = \<lambda>_. None,
      u_Transaction = \<lambda>_. None, u_ChaincodeActionPayload = \<lambda>_. None, u_ChaincodeProposalPayload = \<lambda>_. None,
      u_ChaincodeInvocationSpec = \<lambda>_. None, u_ProposalResponsePayload = \<lambda>_. None, u_ChaincodeAction = \<lambda>_. None,
      u_TxReadWriteSet = \<lambda>_. None, u_KVRWSet = \<lambda>_. None, u_ChaincodeEvent = \<lambda>_. None\<rparr>"

definition genesis_docker :: "nat docker" where
  "genesis_docker =
     \<lparr>CombinedOutput = \<lambda>_ w. (([], None), w + 1), Output = \<lambda>_ w. (Inr ''g0'', w)\<rparr>"

lemma genesis_fetch: "fetchBlock genesis_docker ch spec w = (Inr ''g0'', w + 1)"
  by (simp add: fetchBlock_def genesis_docker_def dockerExec_def dockerCatBinary_def Let_def mapErr_def)

lemma genesis_parse: "\<exists>st'. parseBlock empty_protos F ''g0'' st = (None, st') \<and> Findings st' = Findings st"
proof -
  have "list_all (\<lambda>f. length ''g0'' < length f) fixtureDictionary" by (simp add: fixtureDictionary_def)
  then have nofix: "list_all (\<lambda>f. \<not> contains ''g0'' f) fixtureDictionary"
    unfolding contains_iff_sublist list_all_iff using sublist_length_le leD by blast
  have loop: "list_all (\<lambda>f. \<not> contains raw f) fs \<Longrightarrow> backstop_loop fs n raw st = st" for fs n raw st
    by (induction fs arbitrary: st) (simp_all add: report_if_def)
  have "u_Block empty_protos ''g0'' = Inr (0, [])" by (simp add: empty_protos_def)
  then have "parseBlock empty_protos F ''g0'' st = (None, block_entered 0 ''g0'' st)"
    by (simp only: parseBlock_view loop [OF nofix] sum.case prod.case fold_simps)
  with block_entered_findings show ?thesis by blast
qed

lemma genesis_scan:
  "\<exists>st. scanChannel empty_protos F genesis_docker ch w = ((Some st, None), w + 3) \<and> Findings st = []"
proof -
  obtain st' where p: "parseBlock empty_protos F ''g0'' (new_stats ch) = (None, st')" "Findings st' = []"
    using genesis_parse [of F "new_stats ch"] by (auto simp: new_stats_def)
  have b: "u_Block empty_protos ''g0'' = Inr (0, [])" by (simp add: empty_protos_def)
  have m: "dockerExec genesis_docker c w = (([], None), w + 1)" for c w by (simp add: genesis_docker_def dockerExec_def)
  have "scan_blocks empty_protos F genesis_docker ch 0 (0 + 1) (new_stats ch) (w + 1 + 1) = ((None, st'), w + 3)"
    using p(1) by (simp add: genesis_fetch)
  with p(2) show ?thesis by (simp only: scanChannel_def m genesis_fetch b prod.case sum.case option.case) simp
qed

theorem passed_scan_covers_every_byte_witness:
  "\<exists>all w'. pilscan_main empty_protos (\<lambda>_. True) genesis_docker 0 = ((all, True), w')
    \<and> (\<exists>newest es w1 w2 raws. fetchBlock genesis_docker ''tenant-tenant02'' ''newest'' w1 = (Inr newest, w2)
      \<and> u_Block empty_protos newest = Inr (length raws - 1, es) \<and> raws \<noteq> []
      \<and> (\<forall>n<length raws. (\<exists>w3 w4. fetchBlock genesis_docker ''tenant-tenant02'' (nat_digits n) w3 = (Inr (raws ! n), w4))
            \<and> (\<forall>f\<in>set fixtureDictionary. \<not> contains (raws ! n) f)))"
proof -
  let ?scan = "scanChannel empty_protos (\<lambda>_. True) genesis_docker"
  obtain s1 s2 where s: "?scan ''tenant-tenant01'' 0 = ((Some s1, None), 0 + 3)" "Findings s1 = []"
    "?scan ''tenant-tenant02'' (0 + 3) = ((Some s2, None), 0 + 3 + 3)" "Findings s2 = []"
    using genesis_scan by metis
  have run: "pilscan_main empty_protos (\<lambda>_. True) genesis_docker 0 = (([s1, s2], True), 0 + 3 + 3)"
    by (simp only: pilscan_main_def channels_def scan_all.simps prod.case option.case Let_def s simp_thms append.simps)
  have "''tenant-tenant02'' \<in> set channels" by (simp add: channels_def)
  from passed_scan_covers_every_byte [OF run this] run show ?thesis by blast
qed

lemma pseudonyms_hex64:
  "ComputeEmployeeID key = Inr e \<Longrightarrow> hex64Re e" "ComputeUpdatedBy key user = Inr u \<Longrightarrow> hex64Re u"
  by (auto simp: ComputeEmployeeID_def ComputeUpdatedBy_def hex64Re_def hex_encode_hexdigs split: if_splits)

text \<open>C34: The scanner raises no alarm on what the write path submits, and on nothing else: for the
  arguments built from the computed pseudonyms and data hash, with a known section and a
  previous hash that is empty or a digest, the argument check adds no finding exactly when no
  argument contains a dictionary string and every CID of the document list is plausible and
  free of dictionary strings.\<close>

theorem scan_accepts_write_path_arguments:
  assumes "ComputeEmployeeID key = Inr e" and "ComputeUpdatedBy key user = Inr u"
    and "ComputeDataHash Transform salt x = Inr h" and "sec \<in> set AllProfileSections"
    and "prev = [] \<or> is_digest prev"
  shows "Findings (checkArgs n ''RecordProfileSection'' (build_args tenant e sec h u cids prev) st) = Findings st \<longleftrightarrow>
    (\<forall>a\<in>set (build_args tenant e sec h u cids prev). containsFixture a = None)
    \<and> (\<forall>c\<in>set (cids_arg cids). cidPlausRe c \<and> containsFixture c = None)"
proof -
  let ?args = "build_args tenant e sec h u cids prev"
  have "hex64Re e" "hex64Re u" using assms(1,2) by (simp_all add: pseudonyms_hex64)
  moreover have "dataHashRe h" using ComputeDataHash_digest [OF assms(3)] by (simp add: is_digest_dataHashRe)
  moreover have "sec \<in> set sectionEnum" using assms(4) by (auto simp: AllProfileSections_def sectionEnum_def)
  moreover have "10 \<le> length ?args" "?args ! 1 = e" "?args ! 2 = sec" "?args ! 3 = h" "?args ! 4 = prev"
    "?args ! 5 = u" "?args ! 6 = cids" by (simp_all add: build_args_def)
  moreover have "quiet (checkArgs n ''RecordProfileSection'' ?args) st \<longleftrightarrow> 
    Findings (checkArgs n ''RecordProfileSection'' ?args st) = Findings st" by (simp only: quiet_def)
  ultimately show ?thesis using quiet_checkArgs [of ?args n st] assms(5) by (simp only: cid_ok_def is_digest_dataHashRe simp_thms)
qed

theorem scan_accepts_write_path_arguments_witness:
  "\<exists>e u h. ComputeEmployeeID ''k'' = Inr e \<and> ComputeUpdatedBy ''k'' ''u'' = Inr u
     \<and> ComputeDataHash Inr (replicate 16 (CHR ''s'')) ''{}'' = Inr h
     \<and> (Findings (checkArgs 7 ''RecordProfileSection'' (build_args ''tenant01'' e ''PERSONAL'' h u ''[]'' []) (new_stats ''c'')) = []
        \<longleftrightarrow> containsFixture e = None \<and> containsFixture h = None \<and> containsFixture u = None)"
proof -
  obtain e u h where c: "ComputeEmployeeID ''k'' = Inr e" "ComputeUpdatedBy ''k'' ''u'' = Inr u"
    "ComputeDataHash Inr (replicate 16 (CHR ''s'')) ''{}'' = Inr h"
    by (simp add: ComputeEmployeeID_def ComputeUpdatedBy_def ComputeDataHash_def Digest.MinSaltBytes_def)
  have "''PERSONAL'' \<in> set AllProfileSections" by (simp add: AllProfileSections_def)
  note t = scan_accepts_write_path_arguments [OF c this disjI1 [OF refl], of 7 "''tenant01''" "''[]''" "new_stats ''c''"]
  have cids: "cids_arg ''[]'' = []"
    using parse_print [of "JArr []"] by (simp add: cids_arg_def)
  have lits: "containsFixture ''tenant01'' = None" "containsFixture ''PERSONAL'' = None" "containsFixture [] = None"
    "containsFixture ''[]'' = None" "containsFixture CanonicalizationVersion_const = None"
    "containsFixture HashAlgo_const = None"
    by (code_simp)+
  have "Findings (new_stats ''c'') = []" by (simp add: new_stats_def)
  with c t lits show ?thesis by (simp only: cids build_args_def list.set ball_simps simp_thms) blast
qed

text \<open>Every record the chaincode marshals has exactly the twelve ratified fields, so the scanner
  never reports a schema violation on one, and it is silent on the record exactly when the
  pseudonyms are 64 hexadecimal digits, the data hash is a digest, the previous hash empty or a
  digest, the section one of the five, every CID plausible, and none of the checked fields
  contains a dictionary string.\<close>

lemma scan_record_check_exact:
  assumes "wf_record r" and "ParseFloat (itoa (Version r))"
  shows "Findings (checkRecordJSON ParseFloat n loc (marshal_record r) st) = Findings st \<longleftrightarrow>
    hex64Re (EmployeeID r) \<and> containsFixture (EmployeeID r) = None
    \<and> hex64Re (UpdatedBy r) \<and> containsFixture (UpdatedBy r) = None
    \<and> dataHashRe (DataHash r) \<and> containsFixture (DataHash r) = None
    \<and> (PrevHash r = [] \<or> dataHashRe (PrevHash r)) \<and> ProfileSection r \<in> set sectionEnum
    \<and> (\<forall>c\<in>set (record_cids r). cidPlausRe c \<and> containsFixture c = None)"
proof -
  have "quiet (checkRecordJSON ParseFloat n loc (marshal_record r)) st \<longleftrightarrow>
    Findings (checkRecordJSON ParseFloat n loc (marshal_record r) st) = Findings st" by (simp only: quiet_def)
  then show ?thesis
    by (simp only: checkRecordJSON_record [of r ParseFloat, OF assms] quiet_then grows_then after_checkCIDs grows_schema_loop
        quiet_schema_loop cid_ok_def subset_refl simp_thms conj_assoc)
qed

end
