(* ===== verification/Conformance.thy ===== *)
theory Conformance
  imports Endtoend Pilscan
begin

text \<open>
  Conformance of the ledger to the record format. The chaincode checks that its arguments are
  not empty and that the section is known, but not the format of pseudonyms and hashes; the
  write path is what guarantees it. This theory puts the two together. It defines the records
  of the ratified format (\<open>typed_record\<close>) and the worlds that are reached when what runs of
  \<open>save_and_anchor\<close> submit is committed (\<open>write_path_reachable\<close>). That such a submission has
  pseudonyms and digests in its fields (\<open>write_path_args\<close>) is derived from \<open>doAnchor\<close> and
  \<open>build_args\<close>. Every value of such a world decodes to a typed record, on which the scanner's record check can only complain
  about a dictionary string or an implausible CID. It joins
  \<open>fabric-network/chaincode/employeeprofilerecord/chaincode\<close>, the digest builder of
  \<open>write-path-integration/gateway-client\<close> and \<open>fabric-network/tools/pilscan\<close>.
\<close>

section \<open>Typed records\<close>

definition typed_record :: "EmployeeProfileRecord \<Rightarrow> bool" where
  "typed_record r \<longleftrightarrow>
     wf_record r \<and> hex64Re (EmployeeID r) \<and> hex64Re (UpdatedBy r) \<and> dataHashRe (DataHash r)
     \<and> (PrevHash r = [] \<or> dataHashRe (PrevHash r)) \<and> ProfileSection r \<in> set sectionEnum
     \<and> CanonicalizationVersion r = CanonicalizationVersion_const \<and> HashAlgo r = HashAlgo_const"

section \<open>What the write path submits\<close>

text \<open>The hooks over a contract handle that records every submitted argument list: the client's
  own submit loop (\<open>SubmitRecordProfileSection\<close>) runs on it, the stores are those of \<open>h\<close>.\<close>

definition sending :: "'s contract \<Rightarrow> 's Hooks \<Rightarrow> ('s \<times> (string list \<times> string res) list) Hooks" where
  "sending c h = with_log h (SubmitRecordProfileSection (traced c))
     (map_option (\<lambda>f i p v e (s, l). (f i p v e s, l)) (OnPartialFailure h))"

text \<open>The worlds that write paths reach. Each pair in \<open>W\<close> is a write path: a contract handle and
  hooks, with any stores and any tenant. A step runs one of its hooks, with any employee, user,
  section, value and document and from any state of its stores, takes an argument list the run
  submitted, whatever the client was told about it, and executes it on the ledger.\<close>

inductive write_path_reachable ::
  "('t \<Rightarrow> 'w \<Rightarrow> stub) \<Rightarrow> ((string \<times> string) list \<Rightarrow> 'w \<Rightarrow> 'w) \<Rightarrow> (string \<Rightarrow> string \<Rightarrow> string)
   \<Rightarrow> (string \<Rightarrow> string res) \<Rightarrow> (string \<Rightarrow> string list option option) \<Rightarrow> ('s contract \<times> 's Hooks) set
   \<Rightarrow> 'w \<Rightarrow> 'w \<Rightarrow> bool" for stub_of commit NewSHA1 Transform cids_of W w0 where
  written_start: "write_path_reachable stub_of commit NewSHA1 Transform cids_of W w0 w0"
| written_submit:
    "write_path_reachable stub_of commit NewSHA1 Transform cids_of W w0 w \<Longrightarrow> (c, h) \<in> W \<Longrightarrow>
     save_and_anchor sec Transform (sending c h) i user recid x doc (s, []) = (out, (s', log)) \<Longrightarrow>
     (args, answer) \<in> set log \<Longrightarrow> call_args cids_of args = Some a \<Longrightarrow> wf_args a \<Longrightarrow>
     serial_submit stub_of commit NewSHA1 t a w = (r, w') \<Longrightarrow>
     write_path_reachable stub_of commit NewSHA1 Transform cids_of W w0 w'"

text \<open>The shape of such arguments: the pseudonyms of some employee key and user, a computed data
  hash and the two constants of the digest builder. Nothing is said of \<open>prevHash\<close>.\<close>

definition write_path_args :: "(string \<Rightarrow> string res) \<Rightarrow> submit_args \<Rightarrow> bool" where
  "write_path_args Transform a \<longleftrightarrow>
     wf_args a
     \<and> (\<exists>key user. ComputeEmployeeID key = Inr (arg_employeeID a)
                  \<and> ComputeUpdatedBy key user = Inr (arg_updatedBy a))
     \<and> (\<exists>salt x. ComputeDataHash Transform salt x = Inr (arg_dataHash a))
     \<and> arg_canonicalizationVersion a = CanonicalizationVersion_const \<and> arg_hashAlgo a = HashAlgo_const"

lemma doAnchor_sends:
  assumes "doAnchor T (sending c h) i user sec recid x v doc (s, []) = (r, (s', log))" and "(args, answer) \<in> set log"
  shows "\<exists>key e upd salt hash cids p. ComputeEmployeeID key = Inr e \<and> ComputeUpdatedBy key user = Inr upd
    \<and> ComputeDataHash T salt x = Inr hash \<and> args = build_args (Hooks_TenantID h) e sec hash upd cids p"
proof (cases rule: doAnchor_with_log [where T = T and h = h and i = i and user = user and sec = sec
      and recid = recid and x = x and v = v and doc = doc and s = s and an = "SubmitRecordProfileSection (traced c)"
      and nt = "map_option (\<lambda>f i p v e (s, l). (f i p v e s, l)) (OnPartialFailure h)"])
  case (before err s2)
  from before(2) [of "[]"] assms show ?thesis by (simp add: sending_def)
next
  case (call key e upd salt hash cids s3)
  from call(5) [of "[]"] assms(1) have "SubmitRecordProfileSection (traced c) (Hooks_TenantID h) e sec
      (build_args (Hooks_TenantID h) e sec hash upd cids) (s3, []) = (r, (s', log))" by (simp add: sending_def)
  with SubmitRecordProfileSection_traced [of c "Hooks_TenantID h" e sec
      "build_args (Hooks_TenantID h) e sec hash upd cids" s3 "[]"] assms(2)
  have "\<forall>x\<in>set log. \<exists>p. fst x = build_args (Hooks_TenantID h) e sec hash upd cids p" by (auto simp: attempts_ok_def)
  with assms(2) have "\<exists>p. args = build_args (Hooks_TenantID h) e sec hash upd cids p" by fastforce
  with call(1-3) show ?thesis by blast
qed

lemma hook_sends:
  assumes "save_and_anchor sec T (sending c h) i user recid x doc (s, []) = (r, (s', log))"
    and "(args, answer) \<in> set log" and "call_args cids_of args = Some a" and "wf_args a"
  shows "write_path_args T a"
proof -
  obtain u s1 where sv: "SaveSection (Store h) i sec x s = (u, s1)" by (rule prod.exhaust)
  then have svl: "SaveSection (Store (sending c h)) i sec x (s, []) = (u, (s1, []))"
    by (simp add: sending_def with_log_def)
  with assms(1,2) obtain v where u: "u = Inr v"
    by (cases u) (auto simp: save_and_anchor_def bindE_def mapErr_def)
  obtain q s2 log2 where d: "doAnchor T (sending c h) i user sec recid x v doc (s1, []) = (q, (s2, log2))"
    by (metis prod.exhaust)
  from assms(1) svl u d have "log2 = log"
    by (auto simp: save_and_anchor_def bindE_def mapErr_def anchor_def sending_def with_log_def Let_def
        split: sum.splits if_splits option.splits)
  with doAnchor_sends [OF d] assms(2) obtain key e upd salt hash cids p where
    k: "ComputeEmployeeID key = Inr e" "ComputeUpdatedBy key user = Inr upd" "ComputeDataHash T salt x = Inr hash"
    and args: "args = build_args (Hooks_TenantID h) e sec hash upd cids p" by blast
  from assms(3) have "arg_employeeID a = e" "arg_updatedBy a = upd" "arg_dataHash a = hash"
    "arg_canonicalizationVersion a = CanonicalizationVersion_const" "arg_hashAlgo a = HashAlgo_const"
    by (auto simp: args call_args_build)
  with k assms(4) show ?thesis unfolding write_path_args_def by blast
qed

section \<open>Records of the write path\<close>

lemma write_path_fields:
  assumes "write_path_args Transform a"
  shows "hex64Re (arg_employeeID a)" "hex64Re (arg_updatedBy a)" "dataHashRe (arg_dataHash a)"
  using assms pseudonyms_hex64 ComputeDataHash_digest is_digest_dataHashRe
  unfolding write_path_args_def by blast+

lemma submit_guard_section:
  "submit_guard st a = Inr () \<Longrightarrow> arg_profileSection a \<in> set sectionEnum"
  by (auto simp: submit_guard_def IsValidProfileSection_iff allProfileSections_def sectionEnum_def
      split: if_splits sum.splits)

lemma next_version_int64: "next_version hd0 p = Inr v \<Longrightarrow> is_int64 v"
  by (auto simp: next_version_Inr is_int64_def wrap64_def split: option.splits)

lemma new_record_typed:
  assumes "write_path_args Transform a" and "submit_guard st a = Inr ()" and "uuid_text NewSHA1"
    and "next_version hd0 (arg_prevHash a) = Inr v" and "\<And>h. hd0 = Some h \<Longrightarrow> typed_record h"
  shows "typed_record (new_record NewSHA1 st a ts v)"
proof -
  have "valid_utf8 (deterministicRecordID NewSHA1 (GetTxID st))"
    using assms(3) by (simp add: uuid_text_def deterministicRecordID_def valid_utf8_ascii)
  then have "wf_record (new_record NewSHA1 st a ts v)"
    using assms(1) next_version_int64 [OF assms(4)]
    by (auto simp: write_path_args_def wf_args_def wf_record_def new_record_def split: option.splits)
  moreover have "arg_prevHash a = [] \<or> dataHashRe (arg_prevHash a)"
    using assms(4,5) by (cases hd0) (auto simp: next_version_Inr typed_record_def)
  moreover note write_path_fields [OF assms(1)] submit_guard_section [OF assms(2)]
  ultimately show ?thesis
    using assms(1) by (simp add: typed_record_def new_record_def write_path_args_def)
qed

context peer
begin

definition typed_world :: "'w \<Rightarrow> bool" where
  "typed_world w \<longleftrightarrow>
     (\<forall>k. \<forall>v\<in>set (committed w k). \<exists>r. v = marshal_record r \<and> typed_record r
        \<and> key_of profileKeyObjectType [EmployeeID r, ProfileSection r] = Inr k)"

lemma readHead_typed:
  assumes "typed_world w" and "readHead (stub_of t w) emp sec = Inr (Some h, k)"
  shows "typed_record h"
proof -
  have "committed w k \<noteq> []" and h: "unmarshal_record (last (committed w k)) = Some h"
    using assms(2) by (auto simp: readHead_def stub_key GetState_committed split: sum.splits option.splits if_splits)
  then obtain r where "last (committed w k) = marshal_record r" and r: "typed_record r"
    using assms(1) last_in_set unfolding typed_world_def by blast
  with h r show ?thesis by (simp add: typed_record_def record_roundtrip)
qed

lemma submit_typed:
  assumes "typed_world w" and "write_path_args Transform a" and "uuid_text NewSHA1"
    and "serial_submit stub_of commit NewSHA1 t a w = (r, w')"
  shows "typed_world w'"
  using assms(4)
proof (cases rule: submit_cases)
  case (written hd0 key ts v)
  have "typed_record (new_record NewSHA1 (stub_of t w) a ts v)"
    using written(2) readHead_typed [OF assms(1)]
    by (intro new_record_typed [OF assms(2) written(1) assms(3) written(4)]) simp
  moreover have "key_of profileKeyObjectType
      [EmployeeID (new_record NewSHA1 (stub_of t w) a ts v), ProfileSection (new_record NewSHA1 (stub_of t w) a ts v)] = Inr key"
    using readHead_key [OF written(2)] by (simp add: new_record_def)
  ultimately show ?thesis using assms(1) written(6) by (auto simp: typed_world_def commit_one)
qed (use assms(1) in simp_all)

lemma reachable_typed:
  assumes "write_path_reachable stub_of commit NewSHA1 Transform cids_of W w0 w" and "uuid_text NewSHA1"
    and "typed_world w0"
  shows "typed_world w"
  using assms(1)
proof (induction rule: write_path_reachable.induct)
  case (written_submit w c h sec i user recid x doc s out s' log args answer a t r w')
  from submit_typed [OF written_submit.IH hook_sends [OF written_submit.hyps(3-6)] assms(2) written_submit.hyps(7)]
  show ?case .
qed (rule assms(3))

end

lemma typed_record_quiet:
  assumes "typed_record r" and "F (itoa (Version r))"
  shows "Findings (checkRecordJSON F n l (marshal_record r) st) = Findings st \<longleftrightarrow>
    (\<forall>f\<in>{EmployeeID r, UpdatedBy r, DataHash r}. containsFixture f = None)
    \<and> (\<forall>c\<in>set (record_cids r). cidPlausRe c \<and> containsFixture c = None)"
  using assms scan_record_check_exact [of r F] by (auto simp: typed_record_def)

section \<open>Properties\<close>

text \<open>C12: Everything the write paths anchor has the ratified record type. Whatever the peer network,
  its uuid library and its decoding of the document list, start from an empty ledger and let any
  number of write paths run their hooks, over any stores and for any tenant, each for any employee,
  user, section, value and document, and execute any of the calls these runs submit (of calls whose
  arguments are valid UTF-8, which the record format needs). Then every value committed under any key
  is the JSON form of a record it decodes back to: stored under the key of its own employee and
  section, with pseudonyms of 64 hexadecimal digits, digests of the form \<open>sha256:\<close> and 64 hexadecimal
  digits, a \<open>prevHash\<close> that is empty or a digest, one of the five sections and the two format
  constants. The scanner's check of such a value adds a finding only for a dictionary string in a
  checked field or an implausible CID.\<close>

theorem anchored_records_are_typed:
  assumes "peer stub_of commit committed key_of" and "uuid_text NewSHA1"
    and "\<And>k. committed w0 k = []"
    and "write_path_reachable stub_of commit NewSHA1 Transform cids_of W w0 w" and "v \<in> set (committed w k)"
  shows "\<exists>r. unmarshal_record v = Some r \<and> v = marshal_record r \<and> typed_record r
    \<and> key_of profileKeyObjectType [EmployeeID r, ProfileSection r] = Inr k
    \<and> (\<forall>ParseFloat n loc st. ParseFloat (itoa (Version r)) \<longrightarrow>
         (Findings (checkRecordJSON ParseFloat n loc v st) = Findings st \<longleftrightarrow>
            (\<forall>f\<in>{EmployeeID r, UpdatedBy r, DataHash r}. containsFixture f = None)
            \<and> (\<forall>c\<in>set (record_cids r). cidPlausRe c \<and> containsFixture c = None)))"
proof -
  have "peer.typed_world committed key_of w0" using assms(1,3) by (simp add: peer.typed_world_def)
  from peer.reachable_typed [OF assms(1,4,2) this] assms(5)
  obtain r where r: "v = marshal_record r" "typed_record r"
    and k: "key_of profileKeyObjectType [EmployeeID r, ProfileSection r] = Inr k"
    unfolding peer.typed_world_def [OF assms(1)] by blast
  moreover have "unmarshal_record v = Some r" using r by (simp add: typed_record_def record_roundtrip)
  ultimately show ?thesis
    using typed_record_quiet [OF r(2)] by (intro exI [of _ r]) simp
qed

text \<open>A first submission of the write path, for the witness.\<close>

definition first_contract :: "unit env contract" where
  "first_contract =
     \<lparr>SubmitTransaction = (\<lambda>fn args. returnE ''ok''),
      EvaluateWithContext = (\<lambda>fn args. throwE (Plain ''no record''))\<rparr>"

abbreviation first_hooks :: "unit env Hooks" where
  "first_hooks \<equiv> mem_hooks ok_contract (\<lambda>k d. returnE ''cid'') ''x''"

lemma first_submit:
  "SubmitRecordProfileSection (traced first_contract) t e p b (s, []) = (Inr ''ok'', (s, [(b [], Inr ''ok'')]))"
  by (simp add: SubmitRecordProfileSection_def EvaluateGetProfileSectionRecord_def evaluate_def mapErr_def
      traced_def first_contract_def submit_loop.simps)

lemma first_path_sends:
  assumes "ComputeEmployeeID (replicate 16 (CHR ''r'')) = Inr e" "ComputeUpdatedBy (replicate 16 (CHR ''r'')) ''u'' = Inr u"
    and "ComputeDataHash Inr (replicate 16 (CHR ''r'')) ''{}'' = Inr h"
  shows "\<exists>out s log. save_and_anchor ''PAYROLL'' Inr (sending first_contract first_hooks) ''i'' ''u'' [] ''{}'' [] (demo_env, [])
       = (out, (s, log)) \<and> (build_args ''x'' e ''PAYROLL'' h u ''[]'' [], Inr ''ok'') \<in> set log"
  using assms
  by (simp add: save_and_anchor_def anchor_def doAnchor_def ResolveEmployeeKey_def anchor_document_def sending_def
      with_log_def bindE_def mapErr_def mem_hooks_def on_part_def InMemoryOperationalStore_SaveSection_def Let_def
      mem_defs demo_env_def demo_random_def rand_read_def first_submit key_lookup_id_def
      MinKeyBytes_def Keystore.MinSaltBytes_def)

lemma demo_call_commits:
  assumes "list_all is_hexdig e" "e \<noteq> []" "is_ascii hash" "hash \<noteq> []" "is_ascii upd" "upd \<noteq> []"
  shows "\<exists>r w k rec. serial_submit peer_stub peer_commit demo_uuid demo_tx (demo_call e hash upd) (\<lambda>k. []) = (r, w)
    \<and> w k = [marshal_record rec]"
proof -
  obtain k where k: "composite_key profileKeyObjectType [e, ''PAYROLL''] = Inr k" using payroll_key [OF assms(1)] by blast
  have "pw.holds_chain (\<lambda>k. []) e ''PAYROLL'' []" using k by (simp add: pw.holds_chain_def chain_empty)
  then have "pw.holds_chain (\<lambda>k. []) (arg_employeeID (demo_call e hash upd)) (arg_profileSection (demo_call e hash upd)) []"
    by (simp add: demo_call_def)
  from pw.submit_progress [OF this demo_call_facts(2) [OF assms] demo_uuid_text demo_call_facts(3) [OF assms] _ _ demo_stub_works]
  obtain rec w where "serial_submit peer_stub peer_commit demo_uuid demo_tx (demo_call e hash upd) (\<lambda>k. []) = (Inr (head_result rec), w)"
    and "pw.holds_chain w e ''PAYROLL'' [rec]"
    using assms(4) by (auto simp: demo_call_def head_hash_def)
  with k show ?thesis by (auto simp: pw.holds_chain_def)
qed

theorem anchored_records_are_typed_witness:
  "\<exists>w k v r. write_path_reachable peer_stub peer_commit demo_uuid Inr decode_cids {(first_contract, first_hooks)} (\<lambda>k. []) w
     \<and> w k = [v] \<and> unmarshal_record v = Some r \<and> typed_record r"
proof -
  let ?k = "replicate 16 (CHR ''r'')" and ?W = "{(first_contract, first_hooks)}"
  obtain e u h where c: "ComputeEmployeeID ?k = Inr e" "ComputeUpdatedBy ?k ''u'' = Inr u"
    "ComputeDataHash Inr (replicate 16 (CHR ''r'')) ''{}'' = Inr h"
    by (simp add: ComputeEmployeeID_def ComputeUpdatedBy_def ComputeDataHash_def Digest.MinSaltBytes_def)
  note ids = pseudonym_shapes [OF c(1,2)] digest_ascii [OF c(3)]
  note call = demo_call_facts(1,2) [OF ids(1,2,5,6,3,4), unfolded head_hash_def, simplified]
  obtain out s log where hook: "save_and_anchor ''PAYROLL'' Inr (sending first_contract first_hooks) ''i'' ''u'' [] ''{}'' []
      (demo_env, []) = (out, (s, log))" and sent: "(build_args ''x'' e ''PAYROLL'' h u ''[]'' [], Inr ''ok'') \<in> set log"
    using first_path_sends [OF c] by blast
  obtain r w k rec where run: "serial_submit peer_stub peer_commit demo_uuid demo_tx (demo_call e h u) (\<lambda>k. []) = (r, w)"
    and w: "w k = [marshal_record rec]" using demo_call_commits [OF ids(1,2,5,6,3,4)] by blast
  have reach: "write_path_reachable peer_stub peer_commit demo_uuid Inr decode_cids ?W (\<lambda>k. []) w"
    by (rule written_submit [OF written_start _ hook sent call run]) simp
  have "marshal_record rec \<in> set (w k)" by (simp add: w)
  from anchored_records_are_typed [where committed = "\<lambda>w. w", OF pw.peer_axioms demo_uuid_text _ reach this]
  obtain q where "unmarshal_record (marshal_record rec) = Some q" "typed_record q" by blast
  with reach w show ?thesis by blast
qed

end
