(* ===== verification/Pilreport.thy ===== *)
theory Pilreport
  imports Pilscan "HOL-Library.Char_ord" "HOL-Library.List_Lexorder" "HOL-Library.Multiset"
begin

text \<open>
  The process of the scanner around the scan (fabric-network/tools/pilscan/main.go): the report
  that \<open>writeReport\<close> prints and the exit status, and the commands that a run gives to the operating
  system. The journal of theory Nettools records them, so that the tool's claim to be read-only
  can be stated over every run, failing ones included.
\<close>

section \<open>The report\<close>

text \<open>The order of \<open>sort.Slice\<close>; the order of equal findings is not specified by Go, so the sorting
  function is an argument that returns some permutation in this order.\<close>

definition finding_less :: "finding \<Rightarrow> finding \<Rightarrow> bool" where
  "finding_less f g \<longleftrightarrow> f_Channel f < f_Channel g \<or> (f_Channel f = f_Channel g \<and> f_Block f < f_Block g)"

definition sort_Slice_ok :: "(finding list \<Rightarrow> finding list) \<Rightarrow> bool" where
  "sort_Slice_ok sort_Slice \<longleftrightarrow>
     (\<forall>fs. mset (sort_Slice fs) = mset fs \<and> sorted_wrt (\<lambda>f g. \<not> finding_less g f) (sort_Slice fs))"

definition verdict_text :: "bool \<Rightarrow> string" where
  "verdict_text pass = (if pass then ''PASS'' else ''FAIL'')"

definition summary_line :: "channelStats list \<Rightarrow> finding list \<Rightarrow> bool \<Rightarrow> string" where
  "summary_line allStats allFindings pass =
     (let total = (\<lambda>f. nat_digits (sum_list (map f allStats)))
      in ''channels_scanned='' @ nat_digits (length allStats) @ '' total_blocks='' @ total BlocksScanned
         @ '' total_envelopes='' @ total Envelopes @ '' total_tx_args_checked='' @ total TxArgsChecked
         @ '' total_world_state_writes_checked='' @ total WorldStateWrites
         @ '' total_events_checked='' @ total EventsChecked
         @ '' total_ipfs_cids_checked='' @ total IpfsCIDsChecked
         @ '' total_findings='' @ nat_digits (length allFindings) @ '' verdict='' @ verdict_text pass)"

definition finding_line :: "finding \<Rightarrow> string" where
  "finding_line f =
     ''FINDING channel='' @ f_Channel f @ '' block='' @ nat_digits (f_Block f)
     @ '' location='' @ go_quote (f_Location f) @ '' detail='' @ go_quote (f_Detail f)"

text \<open>The lines printed by \<open>writeReport\<close>.\<close>

definition writeReport :: "(finding list \<Rightarrow> finding list) \<Rightarrow> channelStats list \<Rightarrow> bool \<Rightarrow> string list" where
  "writeReport sort_Slice allStats pass =
     (let allFindings = sort_Slice (concat (map Findings allStats))
      in [[], ''=== MACHINE-READABLE SUMMARY ==='', summary_line allStats allFindings pass]
         @ map finding_line allFindings)"

text \<open>The end of \<open>main\<close>: the report and the exit status.\<close>

definition pilscan_process ::
  "(finding list \<Rightarrow> finding list) \<Rightarrow> protos \<Rightarrow> (string \<Rightarrow> bool) \<Rightarrow> 'w docker \<Rightarrow> 'w \<Rightarrow> (string list \<times> nat) \<times> 'w" where
  "pilscan_process sort_Slice P ParseFloat D w =
     (case pilscan_main P ParseFloat D w of
        ((allStats, overallPass), w') \<Rightarrow>
          ((writeReport sort_Slice allStats overallPass, if overallPass then 0 else 1), w'))"

section \<open>The commands of a run\<close>

definition logged_docker :: "'w docker \<Rightarrow> 'w journal docker" where
  "logged_docker D =
     \<lparr>CombinedOutput = logged (CombinedOutput D),
      Output = \<lambda>args s. case Output D args (fst s) of (r, w') \<Rightarrow> (r, (w', snd s @ [args]))\<rparr>"

definition sh_in_helper :: "string \<Rightarrow> string list" where
  "sh_in_helper shCmd = [''docker'', ''exec'', helperContainer, ''sh'', ''-c'', shCmd]"

definition cat_in_helper :: "string \<Rightarrow> string list" where
  "cat_in_helper path = [''docker'', ''exec'', helperContainer, ''cat'', path]"

text \<open>The scratch directory, and for the newest or a numbered block of a channel the fetch from the orderer
  and the reading back of its file.\<close>

definition read_only_command :: "string list \<Rightarrow> string list \<Rightarrow> bool" where
  "read_only_command chs args \<longleftrightarrow>
     args = sh_in_helper ''mkdir -p /tmp/pilscan''
     \<or> (\<exists>ch\<in>set chs. \<exists>spec\<in>insert ''newest'' (range nat_digits).
          args = sh_in_helper (peerCLIEnv @ '' peer channel fetch '' @ spec @ '' /tmp/pilscan/'' @ ch @ ''_'' @ spec
            @ ''.block -c '' @ ch @ '' -o orderer0.org1:7050 --tls --cafile '' @ ordererTLSCA @ '' '' @ ordererTLSClientFlags)
          \<or> args = cat_in_helper (''/tmp/pilscan/'' @ ch @ ''_'' @ spec @ ''.block''))"

lemma fetch_texts:
  "''mkdir -p '' @ containerScratchDir = ''mkdir -p /tmp/pilscan''"
  "block_path ch spec = ''/tmp/pilscan/'' @ ch @ ''_'' @ spec @ ''.block''"
  "fetch_command ch spec = peerCLIEnv @ '' peer channel fetch '' @ spec @ '' /tmp/pilscan/'' @ ch @ ''_'' @ spec
     @ ''.block -c '' @ ch @ '' -o orderer0.org1:7050 --tls --cafile '' @ ordererTLSCA @ '' '' @ ordererTLSClientFlags"
  by (simp_all add: block_path_def fetch_command_def containerScratchDir_def ordererAddr_def)

definition issued :: "(string list \<Rightarrow> bool) \<Rightarrow> 'w journal \<Rightarrow> 'w journal \<Rightarrow> bool" where
  "issued P s s' \<longleftrightarrow> (\<exists>cs. snd s' = snd s @ cs \<and> list_all P cs)"

lemma issued_refl: "issued P s s"
  by (simp add: issued_def)

lemma issued_trans: "issued P s s1 \<Longrightarrow> issued P s1 s2 \<Longrightarrow> issued P s s2"
  unfolding issued_def by (metis append_assoc list_all_append)

lemma issued_docker:
  "dockerExec (logged_docker D) c s = (r, s') \<Longrightarrow> P (sh_in_helper c) \<Longrightarrow> issued P s s'"
  "dockerCatBinary (logged_docker D) c s = (r', s') \<Longrightarrow> P (cat_in_helper c) \<Longrightarrow> issued P s s'"
  by (auto simp: issued_def dockerExec_def dockerCatBinary_def logged_docker_def logged_def sh_in_helper_def
      cat_in_helper_def split: prod.splits)

lemma issued_fetchBlock:
  assumes "ch \<in> set chs" and "spec \<in> insert ''newest'' (range nat_digits)"
    and "fetchBlock (logged_docker D) ch spec s = (r, s')"
  shows "issued (read_only_command chs) s s'"
proof -
  have P: "read_only_command chs (sh_in_helper (fetch_command ch spec))"
    "read_only_command chs (cat_in_helper (block_path ch spec))"
    using assms(1,2) unfolding read_only_command_def fetch_texts by blast+
  obtain out e s1 where x: "dockerExec (logged_docker D) (fetch_command ch spec) s = ((out, e), s1)"
    by (metis prod.exhaust)
  obtain q s2 where c: "dockerCatBinary (logged_docker D) (block_path ch spec) s1 = (q, s2)" by (metis surj_pair)
  have "s' = (if e = None then s2 else s1)"
    using assms(3) x c by (cases e; cases q) (auto simp: fetchBlock_def mapErr_def)
  with issued_docker(1) [where P = "read_only_command chs", OF x P(1)]
    issued_docker(2) [where P = "read_only_command chs", OF c P(2)]
  show ?thesis by (auto intro: issued_trans)
qed

lemma issued_scan_blocks:
  "ch \<in> set chs \<Longrightarrow> scan_blocks P F (logged_docker D) ch n k st s = (r, s') \<Longrightarrow> issued (read_only_command chs) s s'"
proof (induction k arbitrary: n st s)
  case (Suc k)
  obtain x s1 where f: "fetchBlock (logged_docker D) ch (nat_digits n) s = (x, s1)" by (metis surj_pair)
  have one: "issued (read_only_command chs) s s1" by (rule issued_fetchBlock [OF Suc.prems(1) _ f]) simp
  have "issued (read_only_command chs) s1 s'"
    using Suc.prems f Suc.IH
    by (cases x) (auto intro: issued_refl split: prod.splits option.splits)
  with one show ?case by (rule issued_trans)
qed (simp add: issued_refl)

lemma issued_scanChannel:
  assumes ch: "ch \<in> set chs" and run: "scanChannel P F (logged_docker D) ch s = (r, s')"
  shows "issued (read_only_command chs) s s'"
proof -
  let ?R = "issued (read_only_command chs)"
  obtain out e s1 where m: "dockerExec (logged_docker D) (''mkdir -p '' @ containerScratchDir) s = ((out, e), s1)"
    by (metis prod.exhaust)
  obtain x s2 where f: "fetchBlock (logged_docker D) ch ''newest'' s1 = (x, s2)" by (metis surj_pair)
  have "?R s s1" by (rule issued_docker(1) [OF m]) (simp only: read_only_command_def fetch_texts simp_thms)
  moreover have "?R s1 s2" by (rule issued_fetchBlock [OF ch _ f]) simp
  moreover have "s' = s1 \<or> ?R s2 s'"
  proof (cases e)
    case None
    note step = run [unfolded scanChannel_def m None prod.case option.case f]
    show ?thesis
    proof (cases x)
      case (Inr newest)
      show ?thesis
      proof (cases "u_Block P newest")
        case (Inr b)
        obtain q s3 where "scan_blocks P F (logged_docker D) ch 0 (fst b + 1) (new_stats ch) s2 = (q, s3)"
          by (metis surj_pair)
        with step \<open>x = Inr newest\<close> Inr issued_scan_blocks [OF ch this] show ?thesis
          by (simp only: sum.case split_beta fst_conv snd_conv prod.inject simp_thms)
      qed (use step Inr in \<open>auto simp: issued_refl\<close>)
    qed (use step in \<open>auto simp: issued_refl\<close>)
  qed (use run m in \<open>simp add: scanChannel_def\<close>)
  ultimately show ?thesis by (metis issued_trans)
qed

lemma issued_scan_all:
  "set todo \<subseteq> set chs \<Longrightarrow> scan_all P F (logged_docker D) todo acc p s = (r, s') \<Longrightarrow> issued (read_only_command chs) s s'"
proof (induction todo arbitrary: acc p s)
  case (Cons ch todo)
  obtain st e s1 where c: "scanChannel P F (logged_docker D) ch s = ((st, e), s1)" by (metis prod.exhaust)
  have one: "issued (read_only_command chs) s s1" using Cons.prems(1) by (intro issued_scanChannel [OF _ c]) simp
  have "issued (read_only_command chs) s1 s'"
    using Cons.prems c by (auto intro: Cons.IH)
  with one show ?case by (rule issued_trans)
qed (simp add: issued_refl)

section \<open>Properties\<close>

lemma report_of_run:
  assumes "sort_Slice_ok sort_Slice"
  obtains fs where "writeReport sort_Slice stats pass =
      [[], ''=== MACHINE-READABLE SUMMARY ==='', summary_line stats fs pass] @ map finding_line fs"
    and "mset fs = mset (concat (map Findings stats))" and "sorted_wrt (\<lambda>f g. \<not> finding_less g f) fs"
  using assms that unfolding sort_Slice_ok_def writeReport_def Let_def by blast

text \<open>C19: The scanner only reads, and reports all it found. Whatever the helper container answers and
  however the run ends, every command of a run creates the scratch directory, fetches the newest
  or a numbered block of one of the two configured channels into it, or prints such a file; no
  join, no lifecycle action and no other channel. The report lists every finding of every scanned channel exactly once,
  ordered by channel and block, after a summary line that counts them, and the exit status
  is 0 exactly when the verdict of the scan is a pass.\<close>

theorem scan_reads_only_and_reports_all:
  assumes "sort_Slice_ok sort_Slice"
    and "pilscan_process sort_Slice P ParseFloat (logged_docker D) (w, []) = ((printed, status), (w', cmds))"
  shows "(\<forall>c\<in>set cmds. read_only_command channels c)
    \<and> (\<exists>stats pass fs. fst (pilscan_main P ParseFloat (logged_docker D) (w, [])) = (stats, pass)
         \<and> printed = [[], ''=== MACHINE-READABLE SUMMARY ==='', summary_line stats fs pass] @ map finding_line fs
         \<and> mset fs = mset (concat (map Findings stats)) \<and> sorted_wrt (\<lambda>f g. \<not> finding_less g f) fs
         \<and> (status = 0 \<longleftrightarrow> pass))"
proof -
  obtain stats pass where main: "pilscan_main P ParseFloat (logged_docker D) (w, []) = ((stats, pass), (w', cmds))"
    and out: "printed = writeReport sort_Slice stats pass" "status = (if pass then 0 else 1)"
    using assms(2) by (auto simp: pilscan_process_def split: prod.splits)
  from issued_scan_all [OF subset_refl main [unfolded pilscan_main_def]]
  have "\<forall>c\<in>set cmds. read_only_command channels c" by (simp add: issued_def list_all_iff)
  moreover obtain fs where "printed = [[], ''=== MACHINE-READABLE SUMMARY ==='', summary_line stats fs pass] @ map finding_line fs"
    "mset fs = mset (concat (map Findings stats))" "sorted_wrt (\<lambda>f g. \<not> finding_less g f) fs"
    unfolding out(1) by (rule report_of_run [OF assms(1)])
  ultimately show ?thesis using main out(2)
    by (intro conjI exI [of _ stats] exI [of _ pass] exI [of _ fs]) (simp_all split: if_splits)
qed

text \<open>Insertion sort, which \<open>sort.Slice\<close> uses on short slices, is such a sort.\<close>

fun insert_finding :: "finding \<Rightarrow> finding list \<Rightarrow> finding list" where
  "insert_finding f [] = [f]"
| "insert_finding f (g # gs) = (if finding_less g f then g # insert_finding f gs else f # g # gs)"

definition insertion_sort :: "finding list \<Rightarrow> finding list" where
  "insertion_sort fs = foldr insert_finding fs []"

lemma mset_insert_finding: "mset (insert_finding f fs) = add_mset f (mset fs)"
  by (induction fs) simp_all

lemma set_insert_finding: "set (insert_finding f fs) = insert f (set fs)"
  by (metis mset_insert_finding set_mset_add_mset_insert set_mset_mset)

lemma finding_order:
  "finding_less g f \<Longrightarrow> \<not> finding_less f g"
  "\<not> finding_less g f \<Longrightarrow> \<not> finding_less h g \<Longrightarrow> \<not> finding_less h f"
  by (auto simp: finding_less_def)

lemma sorted_insert_finding:
  "sorted_wrt (\<lambda>f g. \<not> finding_less g f) fs \<Longrightarrow> sorted_wrt (\<lambda>f g. \<not> finding_less g f) (insert_finding f fs)"
  by (induction fs) (auto simp: set_insert_finding finding_order(1) dest: finding_order(2))

lemma insertion_sort_ok: "sort_Slice_ok insertion_sort"
proof -
  have "mset (insertion_sort fs) = mset fs \<and> sorted_wrt (\<lambda>f g. \<not> finding_less g f) (insertion_sort fs)" for fs
    by (induction fs) (simp_all add: insertion_sort_def mset_insert_finding sorted_insert_finding)
  then show ?thesis by (simp add: sort_Slice_ok_def)
qed

theorem scan_reads_only_and_reports_all_witness:
  "\<exists>printed status w' cmds.
     pilscan_process insertion_sort empty_protos (\<lambda>_. True) (logged_docker genesis_docker) (0, [])
       = ((printed, status), (w', cmds))
     \<and> (\<forall>c\<in>set cmds. read_only_command channels c) \<and> 3 \<le> length printed"
proof -
  obtain printed status w' cmds where
    run: "pilscan_process insertion_sort empty_protos (\<lambda>_. True) (logged_docker genesis_docker) (0, [])
       = ((printed, status), (w', cmds))" by (metis surj_pair)
  from scan_reads_only_and_reports_all [OF insertion_sort_ok run]
  have "\<forall>c\<in>set cmds. read_only_command channels c" "3 \<le> length printed" by auto
  with run show ?thesis by blast
qed

end
