(* ===== verification/Ccmain.thy ===== *)
theory Ccmain
  imports Go_Errors
begin

text \<open>
  The process of the chaincode (fabric-network/chaincode/employeeprofilerecord/main.go): the
  choice between the start under the peer's control and the chaincode server, by the environment
  variable \<open>CHAINCODE_SERVER_ADDRESS\<close>. The contract API and the shim are third-party code: the
  record \<open>shim_api\<close> of their three calls is an argument. A start call returns when the process is
  to end; \<open>log.Panicf\<close> ends it with a panic, whose message is the result.
\<close>

record 'cc ChaincodeServer =
  CCID :: string
  Address :: string
  CC :: 'cc
  TLSProps_Disabled :: bool

record ('w, 'cc) shim_api =
  NewChaincode :: "'w \<Rightarrow> 'cc res \<times> 'w"
  Start :: "'cc \<Rightarrow> ('w, goerr, unit) act"
  ChaincodeServer_Start :: "'cc ChaincodeServer \<Rightarrow> ('w, goerr, unit) act"

text \<open>\<open>log.Panicf\<close> with the error of the call.\<close>

definition or_panic :: "string \<Rightarrow> ('w, goerr, unit) act \<Rightarrow> 'w \<Rightarrow> string option \<times> 'w" where
  "or_panic msg m w =
     (case m w of
        (Inl err, w') \<Rightarrow> (Some (msg @ '': '' @ error_text err), w')
      | (Inr _, w') \<Rightarrow> (None, w'))"

definition chaincode_main :: "('w, 'cc) shim_api \<Rightarrow> (string \<Rightarrow> string) \<Rightarrow> 'w \<Rightarrow> string option \<times> 'w" where
  "chaincode_main api Getenv w =
     (case NewChaincode api w of
        (Inl err, w1) \<Rightarrow> (Some (''error creating employeeprofilerecord chaincode: '' @ error_text err), w1)
      | (Inr cc, w1) \<Rightarrow>
          (let address = Getenv ''CHAINCODE_SERVER_ADDRESS'' in
           if address = [] then or_panic ''error starting employeeprofilerecord chaincode'' (Start api cc) w1
           else
             (let server = \<lparr>CCID = Getenv ''CHAINCODE_ID'', Address = address, CC = cc, TLSProps_Disabled = True\<rparr>
              in or_panic ''error starting employeeprofilerecord chaincode server''
                   (ChaincodeServer_Start api server) w1)))"

text \<open>A journal of the start calls: the address of the server, or none for the classic start.\<close>

definition journaled :: "('w, 'cc) shim_api \<Rightarrow> ('w \<times> string option list, 'cc) shim_api" where
  "journaled api =
     \<lparr>NewChaincode = (\<lambda>(w, l). case NewChaincode api w of (r, w') \<Rightarrow> (r, (w', l))),
      Start = (\<lambda>cc (w, l). case Start api cc w of (r, w') \<Rightarrow> (r, (w', l @ [None]))),
      ChaincodeServer_Start =
        (\<lambda>sv (w, l). case ChaincodeServer_Start api sv w of (r, w') \<Rightarrow> (r, (w', l @ [Some (Address sv)])))\<rparr>"

text \<open>At most one start is made, none when the contract cannot be built, and the mode is the one the
  environment asks for; a process that returns without panic has started.\<close>

lemma chaincode_starts_once:
  assumes "chaincode_main (journaled api) Getenv (w, []) = (r, (w', l))"
  shows "l = [] \<and> r \<noteq> None \<and> (\<exists>e. fst (NewChaincode api w) = Inl e)
    \<or> l = [if Getenv ''CHAINCODE_SERVER_ADDRESS'' = [] then None else Some (Getenv ''CHAINCODE_SERVER_ADDRESS'')]"
proof (cases "NewChaincode api w")
  case (Pair q w1)
  show ?thesis
  proof (cases q)
    case (Inl e)
    with Pair assms show ?thesis by (auto simp: chaincode_main_def journaled_def)
  next
    case (Inr cc)
    with Pair assms show ?thesis
      by (auto simp: chaincode_main_def journaled_def or_panic_def Let_def split: if_splits prod.splits sum.splits)
  qed
qed

end
