(* ===== verification/Netjoin.thy ===== *)
theory Netjoin
  imports Nettools
begin

text \<open>
  The channel join tool (tools/netjoin): the three orderers join the tenant channel through
  \<open>osnadmin\<close>, then the four peers, then every peer is asked for its channels. What the Fabric
  binaries do and answer is left open: the properties speak of the commands that were run and of
  the answers that were given, as a runner that writes them down (\<open>answered\<close>) sees them.
\<close>

definition helperContainer :: string where
  "helperContainer = ''fabric-tools-net''"

definition channelID :: string where
  "channelID = ''tenant-tenant01''"

definition blockPath :: string where
  "blockPath = ''/net/channel-artifacts/tenant-tenant01.block''"

definition adminTLSCert :: string where
  "adminTLSCert = ''/net/crypto-config/ordererOrganizations/org1/orderers/orderer0.org1/tls/server.crt''"

definition adminTLSKey :: string where
  "adminTLSKey = ''/net/crypto-config/ordererOrganizations/org1/orderers/orderer0.org1/tls/server.key''"

definition adminTLSCA :: string where
  "adminTLSCA = ''/net/crypto-config/ordererOrganizations/org1/orderers/orderer0.org1/tls/ca.crt''"

record ordererNode =
  o_name :: string
  adminAddr :: string

record peerNode =
  p_name :: string
  address :: string
  mspID :: string
  adminMSP :: string
  tlsCAFile :: string

definition orderers :: "ordererNode list" where
  "orderers =
     [\<lparr>o_name = ''orderer0.org1'', adminAddr = ''orderer0.org1:9443''\<rparr>,
      \<lparr>o_name = ''orderer1.org1'', adminAddr = ''orderer1.org1:9443''\<rparr>,
      \<lparr>o_name = ''orderer2.org1'', adminAddr = ''orderer2.org1:9443''\<rparr>]"

definition peers :: "peerNode list" where
  "peers =
     [\<lparr>p_name = ''peer0.org1'', address = ''peer0.org1:7051'', mspID = ''Org1MSP'',
       adminMSP = ''/net/crypto-config/peerOrganizations/org1/users/Admin@org1/msp'',
       tlsCAFile = ''/net/crypto-config/peerOrganizations/org1/tlsca/tlsca.org1-cert.pem''\<rparr>,
      \<lparr>p_name = ''peer1.org1'', address = ''peer1.org1:7051'', mspID = ''Org1MSP'',
       adminMSP = ''/net/crypto-config/peerOrganizations/org1/users/Admin@org1/msp'',
       tlsCAFile = ''/net/crypto-config/peerOrganizations/org1/tlsca/tlsca.org1-cert.pem''\<rparr>,
      \<lparr>p_name = ''peer0.tenant01'', address = ''peer0.tenant01:7051'', mspID = ''OrgClient-tenant01MSP'',
       adminMSP = ''/net/crypto-config/peerOrganizations/tenant01/users/Admin@tenant01/msp'',
       tlsCAFile = ''/net/crypto-config/peerOrganizations/tenant01/tlsca/tlsca.tenant01-cert.pem''\<rparr>,
      \<lparr>p_name = ''peer0.org3'', address = ''peer0.org3:7051'', mspID = ''Org3MSP'',
       adminMSP = ''/net/crypto-config/peerOrganizations/org3/users/Admin@org3/msp'',
       tlsCAFile = ''/net/crypto-config/peerOrganizations/org3/tlsca/tlsca.org3-cert.pem''\<rparr>]"

definition dockerExec :: "'w exec \<Rightarrow> string list \<Rightarrow> 'w \<Rightarrow> (string \<times> goerr option) \<times> 'w" where
  "dockerExec X args = X ([''docker'', ''exec'', helperContainer] @ args)"

definition tls_flags :: "string list" where
  "tls_flags = [''--ca-file'', adminTLSCA, ''--client-cert'', adminTLSCert, ''--client-key'', adminTLSKey]"

definition list_args :: "ordererNode \<Rightarrow> string list" where
  "list_args od = [''osnadmin'', ''channel'', ''list'', ''-o'', adminAddr od] @ tls_flags"

definition join_args :: "ordererNode \<Rightarrow> string list" where
  "join_args od =
     [''osnadmin'', ''channel'', ''join'', ''--channelID'', channelID, ''--config-block'', blockPath,
      ''-o'', adminAddr od] @ tls_flags"

definition joinOrderer :: "'w exec \<Rightarrow> ordererNode \<Rightarrow> ('w, goerr, unit) act" where
  "joinOrderer X od w =
     (case dockerExec X (list_args od) w of
        ((listOut, _), w1) \<Rightarrow>
          if contains listOut channelID then (Inr (), w1)
          else
            (case dockerExec X (join_args od) w1 of
               ((out, Some err), w2) \<Rightarrow> (Inl (wrap (''joining orderer '' @ o_name od) err), w2)
             | ((out, None), w2) \<Rightarrow> (Inr (), w2)))"

definition adminTLSDir :: "peerNode \<Rightarrow> string" where
  "adminTLSDir p = trim_suffix (adminMSP p) ''/msp'' @ ''/tls''"

definition peerEnv :: "peerNode \<Rightarrow> string" where
  "peerEnv p =
     ''CORE_PEER_LOCALMSPID='' @ mspID p @ '' CORE_PEER_MSPCONFIGPATH='' @ adminMSP p @ '' CORE_PEER_ADDRESS='' @ address p
     @ '' CORE_PEER_TLS_ENABLED=true CORE_PEER_TLS_ROOTCERT_FILE='' @ tlsCAFile p
     @ '' CORE_PEER_TLS_CLIENTAUTHREQUIRED=true CORE_PEER_TLS_CLIENTCERT_FILE='' @ adminTLSDir p
     @ ''/client.crt CORE_PEER_TLS_CLIENTKEY_FILE='' @ adminTLSDir p @ ''/client.key''"

definition peer_join_args :: "peerNode \<Rightarrow> string list" where
  "peer_join_args p = [''sh'', ''-c'', peerEnv p @ '' peer channel join -b '' @ blockPath]"

definition peer_list_args :: "peerNode \<Rightarrow> string list" where
  "peer_list_args p = [''sh'', ''-c'', peerEnv p @ '' peer channel list'']"

definition joinPeer :: "'w exec \<Rightarrow> peerNode \<Rightarrow> ('w, goerr, unit) act" where
  "joinPeer X p w =
     (case dockerExec X (peer_join_args p) w of
        ((out, None), w1) \<Rightarrow> (Inr (), w1)
      | ((out, Some err), w1) \<Rightarrow>
          if contains out ''already exists'' then (Inr (), w1)
          else (Inl (wrap (''joining peer '' @ p_name p) err), w1))"

definition listChannels :: "'w exec \<Rightarrow> peerNode \<Rightarrow> 'w \<Rightarrow> (string \<times> goerr option) \<times> 'w" where
  "listChannels X p = dockerExec X (peer_list_args p)"

text \<open>The loops of \<open>main\<close>; an error ends the process.\<close>

fun join_all :: "('a \<Rightarrow> ('w, goerr, unit) act) \<Rightarrow> 'a list \<Rightarrow> ('w, goerr, unit) act" where
  "join_all join [] = returnE ()"
| "join_all join (x # xs) = bindE (join x) (\<lambda>_. join_all join xs)"

fun verify_peers :: "'w exec \<Rightarrow> peerNode list \<Rightarrow> bool \<Rightarrow> 'w \<Rightarrow> bool \<times> 'w" where
  "verify_peers X [] allJoined w = (allJoined, w)"
| "verify_peers X (p # ps) allJoined w =
     (case listChannels X p w of
        ((out, err), w1) \<Rightarrow>
          verify_peers X ps (if err = None \<and> contains out channelID then allJoined else False) w1)"

definition netjoin_main :: "'w exec \<Rightarrow> ('w, goerr, unit) act" where
  "netjoin_main X =
     bindE (join_all (joinOrderer X) orderers) (\<lambda>_.
     bindE (join_all (joinPeer X) peers) (\<lambda>_ w.
     case verify_peers X peers True w of
       (allJoined, w') \<Rightarrow>
         if \<not> allJoined
         then (Inl (Plain (''not all peers report channel '' @ [CHR 0x22] @ channelID @ [CHR 0x22] @ '' joined'')), w')
         else (Inr (), w')))"

section \<open>Transcripts\<close>

text \<open>The commands of one step with their answers, by outcome. An orderer is left alone when its
  listing contains the channel's name as a substring, whether the listing failed or not, and is told to
  join otherwise; a peer is always told to join.\<close>

definition docker :: "string list \<Rightarrow> string list" where
  "docker args = [''docker'', ''exec'', helperContainer] @ args"

lemma dockerExec_docker: "dockerExec X args = X (docker args)"
  by (simp add: dockerExec_def docker_def)

definition orderer_done :: "ordererNode \<Rightarrow> answer list \<Rightarrow> bool" where
  "orderer_done od t \<longleftrightarrow>
     (\<exists>out err. t = [(docker (list_args od), out, err)] \<and> contains out channelID)
     \<or> (\<exists>out err out2. t = [(docker (list_args od), out, err), (docker (join_args od), out2, None)]
          \<and> \<not> contains out channelID)"

definition orderer_failed :: "ordererNode \<Rightarrow> answer list \<Rightarrow> bool" where
  "orderer_failed od t \<longleftrightarrow>
     (\<exists>out err out2 err2. t = [(docker (list_args od), out, err), (docker (join_args od), out2, Some err2)]
        \<and> \<not> contains out channelID)"

definition peer_done :: "peerNode \<Rightarrow> answer list \<Rightarrow> bool" where
  "peer_done p t \<longleftrightarrow>
     (\<exists>out err. t = [(docker (peer_join_args p), out, err)] \<and> (err = None \<or> contains out ''already exists''))"

definition peer_failed :: "peerNode \<Rightarrow> answer list \<Rightarrow> bool" where
  "peer_failed p t \<longleftrightarrow>
     (\<exists>out err. t = [(docker (peer_join_args p), out, Some err)] \<and> \<not> contains out ''already exists'')"

definition peer_asked :: "peerNode \<Rightarrow> answer \<Rightarrow> bool" where
  "peer_asked p a \<longleftrightarrow> fst a = docker (peer_list_args p)"

definition peer_reports :: "peerNode \<Rightarrow> answer \<Rightarrow> bool" where
  "peer_reports p a \<longleftrightarrow> (\<exists>out. a = (docker (peer_list_args p), out, None) \<and> contains out channelID)"

text \<open>A loop that ended after some steps were done: after all of them, or after one that failed.\<close>

definition all_done :: "('a \<Rightarrow> answer list \<Rightarrow> bool) \<Rightarrow> 'a list \<Rightarrow> answer list \<Rightarrow> bool" where
  "all_done good xs t \<longleftrightarrow> (\<exists>ts. list_all2 good xs ts \<and> t = concat ts)"

definition cut_short :: "('a \<Rightarrow> answer list \<Rightarrow> bool) \<Rightarrow> ('a \<Rightarrow> answer list \<Rightarrow> bool) \<Rightarrow> 'a list \<Rightarrow> answer list \<Rightarrow> bool" where
  "cut_short good bad xs t \<longleftrightarrow>
     (\<exists>ys x zs t1 t2. xs = ys @ x # zs \<and> all_done good ys t1 \<and> bad x t2 \<and> t = t1 @ t2)"

lemma all_done_Nil: "all_done good [] []"
  by (simp add: all_done_def)

lemma all_done_Cons: "good x t1 \<Longrightarrow> all_done good xs t2 \<Longrightarrow> all_done good (x # xs) (t1 @ t2)"
  unfolding all_done_def by (metis concat.simps(2) list_all2_Cons)

lemma cut_short_here: "bad x t \<Longrightarrow> cut_short good bad (x # xs) t"
  unfolding cut_short_def by (intro exI [of _ "[]"] exI [of _ x] exI [of _ xs] exI [of _ t] conjI) (simp_all add: all_done_Nil)

lemma cut_short_Cons:
  assumes "good x t1" and "cut_short good bad xs t2"
  shows "cut_short good bad (x # xs) (t1 @ t2)"
proof -
  from assms(2) obtain ys y zs u1 u2 where "xs = ys @ y # zs" "all_done good ys u1" "bad y u2" "t2 = u1 @ u2"
    unfolding cut_short_def by blast
  with assms(1) all_done_Cons [of good x t1 ys u1] show ?thesis
    unfolding cut_short_def
    by (intro exI [of _ "x # ys"] exI [of _ y] exI [of _ zs] exI [of _ "t1 @ u1"] exI [of _ u2]) simp
qed

definition tells :: "('a \<Rightarrow> answer list \<Rightarrow> bool) \<Rightarrow> ('a \<Rightarrow> answer list \<Rightarrow> bool) \<Rightarrow> ('a \<Rightarrow> ('w \<times> answer list, goerr, unit) act) \<Rightarrow> bool" where
  "tells good bad join \<longleftrightarrow>
     (\<forall>x w t r w' t'. join x (w, t) = (r, (w', t')) \<longrightarrow>
        (\<exists>t1. t' = t @ t1 \<and> (case r of Inr _ \<Rightarrow> good x t1 | Inl _ \<Rightarrow> bad x t1)))"

lemma tellsD:
  assumes "tells good bad join" and "join x (w, t) = (r, (w', t'))"
  obtains t1 where "t' = t @ t1" "case r of Inr _ \<Rightarrow> good x t1 | Inl _ \<Rightarrow> bad x t1"
  using assms unfolding tells_def by blast

lemma joinOrderer_tells: "tells orderer_done orderer_failed (joinOrderer (answered X))"
  unfolding tells_def
proof (intro allI impI)
  fix od w t r w' t'
  assume run: "joinOrderer (answered X) od (w, t) = (r, (w', t'))"
  obtain out err w1 where l: "X (docker (list_args od)) w = ((out, err), w1)" by (metis surj_pair)
  obtain out2 err2 w2 where j: "X (docker (join_args od)) w1 = ((out2, err2), w2)" by (metis surj_pair)
  note la = answered_simp [where X = X, OF l] and ja = answered_simp [where X = X, OF j]
  show "\<exists>t1. t' = t @ t1 \<and> (case r of Inr _ \<Rightarrow> orderer_done od t1 | Inl _ \<Rightarrow> orderer_failed od t1)"
  proof (cases "contains out channelID")
    case True
    with run la show ?thesis
      by (intro exI [of _ "[(docker (list_args od), out, err)]"])
        (auto simp: joinOrderer_def dockerExec_docker orderer_done_def)
  next
    case False
    with run la ja show ?thesis
      by (intro exI [of _ "[(docker (list_args od), out, err), (docker (join_args od), out2, err2)]"], cases err2)
        (auto simp: joinOrderer_def dockerExec_docker orderer_done_def orderer_failed_def)
  qed
qed

lemma joinPeer_tells: "tells peer_done peer_failed (joinPeer (answered X))"
  unfolding tells_def
proof (intro allI impI)
  fix p w t r w' t'
  assume run: "joinPeer (answered X) p (w, t) = (r, (w', t'))"
  obtain out err w1 where j: "X (docker (peer_join_args p)) w = ((out, err), w1)" by (metis surj_pair)
  with run answered_simp [where X = X, OF j] show "\<exists>t1. t' = t @ t1 \<and> (case r of Inr _ \<Rightarrow> peer_done p t1 | Inl _ \<Rightarrow> peer_failed p t1)"
    by (intro exI [of _ "[(docker (peer_join_args p), out, err)]"], cases err)
      (auto simp: joinPeer_def dockerExec_docker peer_done_def peer_failed_def split: if_splits)
qed

lemma join_all_tells:
  assumes "tells good bad join" and "join_all join xs (w, t) = (r, (w', t'))"
  shows "\<exists>t1. t' = t @ t1 \<and> (case r of Inr _ \<Rightarrow> all_done good xs t1 | Inl _ \<Rightarrow> cut_short good bad xs t1)"
  using assms(2)
proof (induction xs arbitrary: w t)
  case Nil
  then show ?case using all_done_Nil by auto
next
  case (Cons x xs)
  obtain r1 w1 u where j: "join x (w, t) = (r1, (w1, u))" by (metis surj_pair)
  obtain t1 where t1: "u = t @ t1" "case r1 of Inr _ \<Rightarrow> good x t1 | Inl _ \<Rightarrow> bad x t1"
    by (rule tellsD [OF assms(1) j])
  show ?case
  proof (cases r1)
    case (Inl e)
    with Cons.prems j t1 show ?thesis using cut_short_here [of bad x t1] by auto
  next
    case (Inr v)
    with Cons.prems j have "join_all join xs (w1, u) = (r, (w', t'))" by simp
    from Cons.IH [OF this] obtain t2 where "t' = u @ t2"
      "case r of Inr _ \<Rightarrow> all_done good xs t2 | Inl _ \<Rightarrow> cut_short good bad xs t2" by blast
    with t1 Inr all_done_Cons [of good x t1 xs t2] cut_short_Cons [of good x t1 bad xs t2] show ?thesis
      by (cases r) auto
  qed
qed

lemma verify_peers_tells:
  "verify_peers (answered X) ps b (w, t) = (ok, (w', t')) \<Longrightarrow>
   \<exists>as. t' = t @ as \<and> list_all2 peer_asked ps as \<and> (ok \<longleftrightarrow> b \<and> list_all2 peer_reports ps as)"
proof (induction ps arbitrary: b w t)
  case (Cons p ps)
  obtain out err w1 where l: "X (docker (peer_list_args p)) w = ((out, err), w1)" by (metis surj_pair)
  let ?a = "(docker (peer_list_args p), out, err)"
  from Cons.prems answered_simp [where X = X, OF l] have
    "verify_peers (answered X) ps (if err = None \<and> contains out channelID then b else False) (w1, t @ [?a]) = (ok, (w', t'))"
    by (simp add: listChannels_def dockerExec_docker)
  from Cons.IH [OF this] obtain as where "t' = (t @ [?a]) @ as" "list_all2 peer_asked ps as"
    "ok \<longleftrightarrow> (if err = None \<and> contains out channelID then b else False) \<and> list_all2 peer_reports ps as" by blast
  then show ?case by (intro exI [of _ "?a # as"]) (auto simp: peer_asked_def [of p ?a] peer_reports_def [of p ?a])
qed simp

section \<open>Properties\<close>

text \<open>C35: What a run of the join tool means, whatever the binaries do and answer. The tool reports success
  only after every orderer's listing contained the channel's name or, the name not being there, its
  join ended without an error; after every peer's join ended without an error or said \<open>already
  exists\<close>; and after every peer answered a final listing, without an error, that contains the name. These are
  all commands it runs, one after the other in this order, so running the tool again sends no second join to
  an orderer that lists the channel. It reports a failure exactly when a join of an orderer or a peer failed, after
  which no further command is run, or when all joins were done, all peers were asked and one did not
  report the channel. (The name is looked for as a substring, so a node that lists only \<open>tenant-tenant010\<close>
  counts as a member of \<open>tenant-tenant01\<close>.)\<close>

theorem netjoin_checks_every_node:
  assumes "netjoin_main (answered X) (w, []) = (r, (w', t))"
  shows "case r of
      Inr _ \<Rightarrow> (\<exists>t1 t2 t3. t = t1 @ t2 @ t3 \<and> all_done orderer_done orderers t1 \<and> all_done peer_done peers t2
                 \<and> list_all2 peer_reports peers t3)
    | Inl _ \<Rightarrow> cut_short orderer_done orderer_failed orderers t
        \<or> (\<exists>t1 t2. t = t1 @ t2 \<and> all_done orderer_done orderers t1 \<and> cut_short peer_done peer_failed peers t2)
        \<or> (\<exists>t1 t2 t3. t = t1 @ t2 @ t3 \<and> all_done orderer_done orderers t1 \<and> all_done peer_done peers t2
             \<and> list_all2 peer_asked peers t3 \<and> \<not> list_all2 peer_reports peers t3)"
proof -
  obtain r1 w1 t1 where o: "join_all (joinOrderer (answered X)) orderers (w, []) = (r1, (w1, t1))" by (metis surj_pair)
  note o' = join_all_tells [OF joinOrderer_tells o, simplified]
  show ?thesis
  proof (cases r1)
    case (Inl e)
    with assms o o' show ?thesis by (auto simp: netjoin_main_def)
  next
    case (Inr u)
    obtain r2 w2 t2' where p: "join_all (joinPeer (answered X)) peers (w1, t1) = (r2, (w2, t2'))" by (metis surj_pair)
    from join_all_tells [OF joinPeer_tells p] obtain t2 where t2: "t2' = t1 @ t2"
      "case r2 of Inr _ \<Rightarrow> all_done peer_done peers t2 | Inl _ \<Rightarrow> cut_short peer_done peer_failed peers t2" by blast
    obtain ok w3 t3' where v: "verify_peers (answered X) peers True (w2, t2') = (ok, (w3, t3'))" by (metis surj_pair)
    from verify_peers_tells [OF v] obtain t3 where t3: "t3' = t2' @ t3" "list_all2 peer_asked peers t3"
      "ok \<longleftrightarrow> list_all2 peer_reports peers t3" by auto
    have od: "all_done orderer_done orderers t1" using o' Inr by simp
    show ?thesis
    proof (cases r2)
      case (Inl e)
      with assms o p Inr have "r = Inl e" "t = t1 @ t2" using t2(1) by (simp_all add: netjoin_main_def)
      with od t2(2) Inl show ?thesis by auto
    next
      case (Inr u2)
      with assms o p v \<open>r1 = Inr u\<close> have "r = (if ok then Inr () else r)" "\<not> ok \<longrightarrow> r \<in> range Inl" "t = t3'"
        by (auto simp: netjoin_main_def split: if_splits)
      moreover have "t3' = t1 @ t2 @ t3" using t2(1) t3(1) by simp
      ultimately show ?thesis using od t2(2) t3(2,3) Inr by (cases ok) (auto split: sum.splits)
    qed
  qed
qed

text \<open>The substring test: an orderer that lists a channel whose name only begins with the channel's
  is not told to join.\<close>

lemma listing_of_longer_name_counts:
  assumes "X (docker (list_args od)) w = ((''tenant-tenant010'', err), w1)"
  shows "joinOrderer X od w = (Inr (), w1)"
proof -
  have "contains ''tenant-tenant010'' channelID" by (simp add: contains_def channelID_def has_prefix_def)
  with assms show ?thesis by (simp add: joinOrderer_def dockerExec_docker)
qed

text \<open>A network that keeps the set of members, for the witness.\<close>

definition node_of :: "('a \<Rightarrow> string list) \<Rightarrow> 'a list \<Rightarrow> string list \<Rightarrow> 'a option" where
  "node_of cmd xs args = find (\<lambda>x. args = [''docker'', ''exec'', helperContainer] @ cmd x) xs"

definition sim_net :: "string set exec" where
  "sim_net args w =
     (case node_of list_args orderers args of
        Some od \<Rightarrow> ((if o_name od \<in> w then channelID else [], None), w)
      | None \<Rightarrow>
     (case node_of join_args orderers args of
        Some od \<Rightarrow> (([], None), insert (o_name od) w)
      | None \<Rightarrow>
     (case node_of peer_join_args peers args of
        Some p \<Rightarrow> if p_name p \<in> w then ((''already exists'', Some (Plain ''exit status 1'')), w)
                  else (([], None), insert (p_name p) w)
      | None \<Rightarrow>
     (case node_of peer_list_args peers args of
        Some p \<Rightarrow> ((if p_name p \<in> w then channelID else [], None), w)
      | None \<Rightarrow> (([], Some (Plain ''exit status 1'')), w)))))"

lemma node_of_same:
  assumes "distinct (map cmd xs)" and "x \<in> set xs"
  shows "node_of cmd xs ([''docker'', ''exec'', helperContainer] @ cmd x) = Some x"
  using assms unfolding node_of_def
proof (induction xs)
  case (Cons a xs)
  then show ?case by (cases "x = a") (auto simp: image_iff)
qed simp

lemma node_of_other:
  "(\<And>y. y \<in> set xs \<Longrightarrow> args \<noteq> cmd y) \<Longrightarrow> node_of cmd xs ([''docker'', ''exec'', helperContainer] @ args) = None"
  unfolding node_of_def find_None_iff by auto

lemma distinct_commands:
  "distinct (map list_args orderers)" "distinct (map join_args orderers)"
  "distinct (map peer_join_args peers)" "distinct (map peer_list_args peers)"
proof -
  have "distinct (map peerEnv peers)" by code_simp
  then show "distinct (map peer_join_args peers)" "distinct (map peer_list_args peers)"
    by (auto simp: distinct_map inj_on_def peer_join_args_def peer_list_args_def)
qed (simp_all add: orderers_def list_args_def join_args_def)

lemma commands_apart:
  "join_args od \<noteq> list_args od'" "peer_join_args p \<noteq> list_args od'" "peer_join_args p \<noteq> join_args od'"
  "peer_list_args p \<noteq> list_args od'" "peer_list_args p \<noteq> join_args od'"
  by (simp_all add: join_args_def list_args_def peer_join_args_def peer_list_args_def)

lemma list_not_join: "peer_list_args p \<noteq> peer_join_args q"
proof
  assume "peer_list_args p = peer_join_args q"
  then have "last (peerEnv p @ '' peer channel list'') = last (peerEnv q @ '' peer channel join -b '' @ blockPath)"
    by (simp only: peer_list_args_def peer_join_args_def list.inject simp_thms)
  then show False by (simp add: blockPath_def)
qed

lemmas sim_node = node_of_same [OF distinct_commands(1)] node_of_same [OF distinct_commands(2)]
  node_of_same [OF distinct_commands(3)] node_of_same [OF distinct_commands(4)]
  node_of_other [OF commands_apart(1)] node_of_other [OF commands_apart(2)] node_of_other [OF commands_apart(3)]
  node_of_other [OF commands_apart(4)] node_of_other [OF commands_apart(5)] node_of_other [OF list_not_join]

lemma sim_net_cases:
  "od \<in> set orderers \<Longrightarrow> dockerExec sim_net (list_args od) w = ((if o_name od \<in> w then channelID else [], None), w)"
  "od \<in> set orderers \<Longrightarrow> dockerExec sim_net (join_args od) w = (([], None), insert (o_name od) w)"
  "p \<in> set peers \<Longrightarrow> dockerExec sim_net (peer_join_args p) w =
     (if p_name p \<in> w then ((''already exists'', Some (Plain ''exit status 1'')), w) else (([], None), insert (p_name p) w))"
  "p \<in> set peers \<Longrightarrow> dockerExec sim_net (peer_list_args p) w = ((if p_name p \<in> w then channelID else [], None), w)"
  by (simp_all only: dockerExec_def sim_net_def sim_node option.case)

lemma sim_orderers:
  "set ods \<subseteq> set orderers \<Longrightarrow>
   \<exists>t'. join_all (joinOrderer (answered sim_net)) ods (w, t) = (Inr (), (w \<union> o_name ` set ods, t'))"
proof (induction ods arbitrary: w t)
  case (Cons od ods)
  then have od: "od \<in> set orderers" by simp
  have "\<not> contains [] channelID" "contains channelID channelID" by (simp_all add: contains_iff_sublist channelID_def)
  then obtain t1 where "joinOrderer (answered sim_net) od (w, t) = (Inr (), (insert (o_name od) w, t1))"
    using sim_net_cases(1,2) [OF od, of w]
    by (cases "o_name od \<in> w") (auto simp: joinOrderer_def dockerExec_def answered_def insert_absorb)
  with Cons.IH [of "insert (o_name od) w" t1] Cons.prems show ?case by auto
qed simp

lemma sim_peers:
  "set ps \<subseteq> set peers \<Longrightarrow>
   \<exists>t'. join_all (joinPeer (answered sim_net)) ps (w, t) = (Inr (), (w \<union> p_name ` set ps, t'))"
proof (induction ps arbitrary: w t)
  case (Cons p ps)
  then have p: "p \<in> set peers" by simp
  have "contains ''already exists'' ''already exists''" by (simp add: contains_iff_sublist)
  then obtain t1 where "joinPeer (answered sim_net) p (w, t) = (Inr (), (insert (p_name p) w, t1))"
    using sim_net_cases(3) [OF p, of w]
    by (cases "p_name p \<in> w") (auto simp: joinPeer_def dockerExec_def answered_def insert_absorb)
  with Cons.IH [of "insert (p_name p) w" t1] Cons.prems show ?case by auto
qed simp

lemma sim_verify:
  "set ps \<subseteq> set peers \<Longrightarrow> p_name ` set ps \<subseteq> w \<Longrightarrow>
   \<exists>t'. verify_peers (answered sim_net) ps True (w, t) = (True, (w, t'))"
proof (induction ps arbitrary: t)
  case (Cons p ps)
  have "contains channelID channelID" by (simp add: contains_iff_sublist)
  with Cons sim_net_cases(4) [of p w] show ?case
    by (simp add: listChannels_def dockerExec_def answered_def)
qed simp

theorem netjoin_checks_every_node_witness:
  "\<exists>w' t t3. netjoin_main (answered sim_net) ({''orderer1.org1'', ''peer0.org3''}, []) = (Inr (), (w', t @ t3))
     \<and> list_all2 peer_reports peers t3"
proof -
  let ?w = "{''orderer1.org1'', ''peer0.org3''}"
  obtain t1 where o: "join_all (joinOrderer (answered sim_net)) orderers (?w, []) = (Inr (), (?w \<union> o_name ` set orderers, t1))"
    using sim_orderers [OF subset_refl] by blast
  obtain t2 where p: "join_all (joinPeer (answered sim_net)) peers (?w \<union> o_name ` set orderers, t1)
      = (Inr (), (?w \<union> o_name ` set orderers \<union> p_name ` set peers, t2))" using sim_peers [OF subset_refl] by blast
  obtain t3 where "verify_peers (answered sim_net) peers True (?w \<union> o_name ` set orderers \<union> p_name ` set peers, t2)
      = (True, (?w \<union> o_name ` set orderers \<union> p_name ` set peers, t3))"
    using sim_verify [OF subset_refl] by blast
  with o p have run: "netjoin_main (answered sim_net) (?w, []) = (Inr (), (?w \<union> o_name ` set orderers \<union> p_name ` set peers, t3))"
    by (simp add: netjoin_main_def)
  from netjoin_checks_every_node [OF run] obtain u1 u2 u3 where "t3 = u1 @ u2 @ u3" "list_all2 peer_reports peers u3" by auto
  with run show ?thesis by (metis append_assoc)
qed

end
