(* ===== verification/Ccdeploy.thy ===== *)
theory Ccdeploy
  imports Nettools
begin

text \<open>
  The chaincode deployment tool (tools/ccdeploy): install the package on the four peers, look
  up its package id, approve it for both organisations of the endorsement policy, commit, and
  run a smoke test that writes a record and reads it back. The property speaks of the commands
  and of their answers: a step is issued only when the one before it was answered without error.
\<close>

definition helperContainer :: string where
  "helperContainer = ''fabric-tools-net''"

definition channelID :: string where
  "channelID = ''tenant-tenant01''"

definition ordererAddr :: string where
  "ordererAddr = ''orderer0.org1:7050''"

definition ordererTLSCA :: string where
  "ordererTLSCA = ''/net/crypto-config/ordererOrganizations/org1/tlsca/tlsca.org1-cert.pem''"

definition pkgPath :: string where
  "pkgPath = ''/cc/employeeprofilerecord.tar.gz''"

definition ccName :: string where
  "ccName = ''employeeprofilerecord''"

definition ccVersion :: string where
  "ccVersion = ''1.0''"

definition ccSequence :: string where
  "ccSequence = ''2''"

text \<open>Quotation marks, which string literals of the logic do not hold.\<close>

definition sq :: string where
  "sq = [CHR 0x27]"

definition dq :: string where
  "dq = [CHR 0x22]"

definition signaturePolicy :: string where
  "signaturePolicy = ''AND('' @ sq @ ''Org1MSP.peer'' @ sq @ '','' @ sq @ ''OrgClient-tenant01MSP.peer'' @ sq @ '')''"

definition org1TLSDir :: string where
  "org1TLSDir = ''/net/crypto-config/peerOrganizations/org1/users/Admin@org1/tls''"

record peerNode =
  p_name :: string
  address :: string
  mspID :: string
  adminMSP :: string
  tlsCAFile :: string

definition peers :: "peerNode list" where
  "peers =
     [\<lparr>p_name = ''peer0.org1'', address = ''peer0.org1:7051'', mspID = ''Org1MSP'',
       adminMSP = ''/net/crypto-config/peerOrganizations/org1/users/Admin@org1/msp'',
       tlsCAFile = ''/net/crypto-config/peerOrganizations/org1/tlsca/tlsca.org1-cert.pem''\<rparr>,
      \<lparr>p_name = ''peer1.org1'', address = ''peer1.org1:7051'', mspID = ''Org1MSP'',
       adminMSP = ''/net/crypto-config/peerOrganizations/org1/users/Admin@org1/msp'',
       tlsCAFile = ''/net/crypto-config/peerOrganizations/org1/tlsca/tlsca.org1-cert.pem''\<rparr>,
      \<lparr>p_name = ''peer0.tenant01'', address = ''peer0.tenant01:7051'', mspID = ''OrgClient-tenant01MSP'',
       adminMSP = ''/net/crypto-config/peerOrganizations/tenant01/users/Admin@tenant01/msp'',
       tlsCAFile = ''/net/crypto-config/peerOrganizations/tenant01/tlsca/tlsca.tenant01-cert.pem''\<rparr>,
      \<lparr>p_name = ''peer0.org3'', address = ''peer0.org3:7051'', mspID = ''Org3MSP'',
       adminMSP = ''/net/crypto-config/peerOrganizations/org3/users/Admin@org3/msp'',
       tlsCAFile = ''/net/crypto-config/peerOrganizations/org3/tlsca/tlsca.org3-cert.pem''\<rparr>]"

text \<open>The command line of \<open>dockerExec\<close>.\<close>

definition sh_cmd :: "string \<Rightarrow> string list" where
  "sh_cmd shCmd = [''docker'', ''exec'', helperContainer, ''sh'', ''-c'', shCmd]"

definition run :: "'w exec \<Rightarrow> string \<Rightarrow> string \<Rightarrow> ('w, goerr, string) act" where
  "run X step shCmd = must_run (X (sh_cmd shCmd)) step"

definition adminTLSDir :: "peerNode \<Rightarrow> string" where
  "adminTLSDir p = trim_suffix (adminMSP p) ''/msp'' @ ''/tls''"

definition adminTLSClientCert :: "peerNode \<Rightarrow> string" where
  "adminTLSClientCert p = adminTLSDir p @ ''/client.crt''"

definition adminTLSClientKey :: "peerNode \<Rightarrow> string" where
  "adminTLSClientKey p = adminTLSDir p @ ''/client.key''"

definition peerEnv :: "peerNode \<Rightarrow> string" where
  "peerEnv p =
     ''CORE_PEER_LOCALMSPID='' @ mspID p @ '' CORE_PEER_MSPCONFIGPATH='' @ adminMSP p @ '' CORE_PEER_ADDRESS='' @ address p
     @ '' CORE_PEER_TLS_ENABLED=true CORE_PEER_TLS_ROOTCERT_FILE='' @ tlsCAFile p
     @ '' CORE_PEER_TLS_CLIENTAUTHREQUIRED=true CORE_PEER_TLS_CLIENTCERT_FILE='' @ adminTLSClientCert p
     @ '' CORE_PEER_TLS_CLIENTKEY_FILE='' @ adminTLSClientKey p"

definition ordererFlags :: string where
  "ordererFlags =
     ''-o '' @ ordererAddr @ '' --tls --clientauth --cafile '' @ ordererTLSCA
     @ '' --certfile '' @ org1TLSDir @ ''/client.crt --keyfile '' @ org1TLSDir @ ''/client.key''"

definition install_cmd :: "peerNode \<Rightarrow> string" where
  "install_cmd p = peerEnv p @ '' peer lifecycle chaincode install '' @ pkgPath"

definition installOn :: "'w exec \<Rightarrow> peerNode \<Rightarrow> ('w, goerr, unit) act" where
  "installOn X p w =
     (case X (sh_cmd (install_cmd p)) w of
        ((out, None), w') \<Rightarrow> (Inr (), w')
      | ((out, Some err), w') \<Rightarrow>
          if contains out ''already successfully installed'' then (Inr (), w')
          else (Inl (wrap (''FATAL installing on '' @ p_name p) err), w'))"

text \<open>The loop over the lines of \<open>queryinstalled\<close>.\<close>

fun find_package_id :: "string list \<Rightarrow> string option" where
  "find_package_id [] = None"
| "find_package_id (line # lines) =
     (if contains line (ccName @ ''_'' @ ccVersion)
      then (case split_str ''Package ID: '' line of
              [_, rest] \<Rightarrow> Some (trim_space (hd (split_on (CHR '','') rest)))
            | _ \<Rightarrow> find_package_id lines)
      else find_package_id lines)"

definition queryinstalled_cmd :: "peerNode \<Rightarrow> string" where
  "queryinstalled_cmd p = peerEnv p @ '' peer lifecycle chaincode queryinstalled''"

definition queryPackageID :: "'w exec \<Rightarrow> peerNode \<Rightarrow> ('w, goerr, string) act" where
  "queryPackageID X p =
     bindE (run X (''queryinstalled on '' @ p_name p) (queryinstalled_cmd p)) (\<lambda>out.
     case find_package_id (split_on (CHR 0x0A) out) of
       Some packageID \<Rightarrow> returnE packageID
     | None \<Rightarrow> throwE (Plain ''FATAL: could not find package ID in queryinstalled output''))"

definition approve_cmd :: "peerNode \<Rightarrow> string \<Rightarrow> string" where
  "approve_cmd p packageID =
     peerEnv p @ '' peer lifecycle chaincode approveformyorg '' @ ordererFlags @ '' --channelID '' @ channelID
     @ '' --name '' @ ccName @ '' --version '' @ ccVersion @ '' --package-id '' @ packageID
     @ '' --sequence '' @ ccSequence @ '' --signature-policy '' @ dq @ signaturePolicy @ dq"

definition approveFor :: "'w exec \<Rightarrow> peerNode \<Rightarrow> string \<Rightarrow> ('w, goerr, string) act" where
  "approveFor X p packageID = run X (''approveformyorg by '' @ mspID p) (approve_cmd p packageID)"

definition peer_flags :: "peerNode \<Rightarrow> string" where
  "peer_flags p = ''--peerAddresses '' @ address p @ '' --tlsRootCertFiles '' @ tlsCAFile p"

definition commit_cmd :: "peerNode list \<Rightarrow> string" where
  "commit_cmd approvers =
     peerEnv (hd approvers) @ '' peer lifecycle chaincode commit '' @ ordererFlags @ '' --channelID '' @ channelID
     @ '' --name '' @ ccName @ '' --version '' @ ccVersion @ '' --sequence '' @ ccSequence
     @ '' --signature-policy '' @ dq @ signaturePolicy @ dq @ '' '' @ join_with '' '' (map peer_flags approvers)"

definition commit :: "'w exec \<Rightarrow> peerNode list \<Rightarrow> ('w, goerr, string) act" where
  "commit X approvers = run X ''commit'' (commit_cmd approvers)"

definition readiness_cmd :: string where
  "readiness_cmd =
     peerEnv (peers ! 0) @ '' peer lifecycle chaincode checkcommitreadiness '' @ ordererFlags @ '' --channelID '' @ channelID
     @ '' --name '' @ ccName @ '' --version '' @ ccVersion @ '' --sequence '' @ ccSequence
     @ '' --signature-policy '' @ dq @ signaturePolicy @ dq @ '' --output json''"

definition smoke_employee :: string where
  "smoke_employee = ''cc5deadbeef00000000000000000000000000000000000000000000000001''"

definition smoke_args :: "string list" where
  "smoke_args =
     [''tenant01'', smoke_employee, ''PERSONAL'',
      ''sha256:cc5smoketest0000000000000000000000000000000000000000000000000'', [],
      ''cc5actor000000000000000000000000000000000000000000000000000002'', ''[]'', ''JCS-RFC8785-v1'', ''SHA-256'', []]"

text \<open>The JSON text that \<open>peer chaincode\<close> takes after \<open>-c\<close>.\<close>

definition call_json :: "string \<Rightarrow> string list \<Rightarrow> string" where
  "call_json fn args =
     ''{'' @ dq @ ''function'' @ dq @ '':'' @ dq @ fn @ dq @ '','' @ dq @ ''Args'' @ dq @ '':[''
     @ join_with '','' (map (\<lambda>a. dq @ a @ dq) args) @ '']}''"

definition invoke_cmd :: "peerNode \<Rightarrow> peerNode \<Rightarrow> string" where
  "invoke_cmd writer org1 =
     peerEnv writer @ '' peer chaincode invoke '' @ ordererFlags @ '' -C '' @ channelID @ '' -n '' @ ccName
     @ '' -c '' @ sq @ call_json ''RecordProfileSection'' smoke_args @ sq @ '' '' @ peer_flags writer @ '' '' @ peer_flags org1
     @ '' --waitForEvent''"

definition invokeSmoke :: "'w exec \<Rightarrow> peerNode \<Rightarrow> peerNode \<Rightarrow> ('w, goerr, string) act" where
  "invokeSmoke X writer org1 = run X ''invoke RecordProfileSection (smoke test)'' (invoke_cmd writer org1)"

definition query_cmd :: "peerNode \<Rightarrow> string" where
  "query_cmd reader =
     peerEnv reader @ '' peer chaincode query -C '' @ channelID @ '' -n '' @ ccName
     @ '' -c '' @ sq @ call_json ''GetProfileSectionRecord'' [''tenant01'', smoke_employee, ''PERSONAL''] @ sq"

definition querySmoke :: "'w exec \<Rightarrow> peerNode \<Rightarrow> ('w, goerr, string) act" where
  "querySmoke X reader = run X ''query GetProfileSectionRecord (smoke test)'' (query_cmd reader)"

fun install_all :: "'w exec \<Rightarrow> peerNode list \<Rightarrow> ('w, goerr, unit) act" where
  "install_all X [] = returnE ()"
| "install_all X (p # ps) = bindE (installOn X p) (\<lambda>_. install_all X ps)"

definition ccdeploy_main :: "'w exec \<Rightarrow> ('w, goerr, unit) act" where
  "ccdeploy_main X =
     bindE (install_all X peers) (\<lambda>_.
     bindE (queryPackageID X (peers ! 0)) (\<lambda>packageID.
     bindE (approveFor X (peers ! 0) packageID) (\<lambda>_.
     bindE (approveFor X (peers ! 2) packageID) (\<lambda>_.
     bindE (run X ''checkcommitreadiness'' readiness_cmd) (\<lambda>_.
     bindE (commit X [peers ! 0, peers ! 2]) (\<lambda>_.
     bindE (invokeSmoke X (peers ! 0) (peers ! 2)) (\<lambda>_.
     bindE (querySmoke X (peers ! 0)) (\<lambda>out.
     if \<not> contains out ''cc5smoketest''
     then throwE (Plain ''FAIL: query did not return the written dataHash'')
     else returnE ()))))))))"

section \<open>The order of the commands\<close>

definition finish :: "'w exec \<Rightarrow> string \<Rightarrow> ('w, goerr, unit) act" where
  "finish X packageID =
     bindE (approveFor X (peers ! 0) packageID) (\<lambda>_.
     bindE (approveFor X (peers ! 2) packageID) (\<lambda>_.
     bindE (run X ''checkcommitreadiness'' readiness_cmd) (\<lambda>_.
     bindE (commit X [peers ! 0, peers ! 2]) (\<lambda>_.
     bindE (invokeSmoke X (peers ! 0) (peers ! 2)) (\<lambda>_.
     bindE (querySmoke X (peers ! 0)) (\<lambda>out.
     if \<not> contains out ''cc5smoketest''
     then throwE (Plain ''FAIL: query did not return the written dataHash'')
     else returnE ()))))))"

lemma ccdeploy_main_split:
  "ccdeploy_main X = bindE (install_all X peers) (\<lambda>_. bindE (queryPackageID X (peers ! 0)) (finish X))"
  by (simp add: ccdeploy_main_def finish_def [abs_def])

text \<open>The plan of a deployment. An installation may also fail because the package is there already;
  the query must report the package id; the last query must return what the smoke test wrote.\<close>

definition install_step :: "peerNode \<Rightarrow> plan_step" where
  "install_step p =
     (sh_cmd (install_cmd p), \<lambda>out err. err = None \<or> contains out ''already successfully installed'')"

definition package_step :: "string \<Rightarrow> plan_step" where
  "package_step pid =
     (sh_cmd (queryinstalled_cmd (peers ! 0)), \<lambda>out err. err = None \<and> find_package_id (split_on (CHR 0x0A) out) = Some pid)"

definition finish_steps :: "string \<Rightarrow> plan_step list" where
  "finish_steps pid =
     [must_step (sh_cmd (approve_cmd (peers ! 0) pid)), must_step (sh_cmd (approve_cmd (peers ! 2) pid)),
      must_step (sh_cmd readiness_cmd), must_step (sh_cmd (commit_cmd [peers ! 0, peers ! 2])),
      must_step (sh_cmd (invoke_cmd (peers ! 0) (peers ! 2))),
      (sh_cmd (query_cmd (peers ! 0)), \<lambda>out err. err = None \<and> contains out ''cc5smoketest'')]"

definition deploy_plan :: "string \<Rightarrow> plan_step list" where
  "deploy_plan pid = map install_step peers @ [package_step pid] @ finish_steps pid"

lemma obeys_run: "obeys [must_step (sh_cmd c)] (run (answered X) step c)"
  by (simp add: run_def obeys_must)

lemma obeys_install: "obeys [install_step p] (installOn (answered X) p)"
  unfolding obeys_def
proof (intro allI impI)
  fix w t r w' t'
  assume i: "installOn (answered X) p (w, t) = (r, (w', t'))"
  obtain out err w1 where x: "X (sh_cmd (install_cmd p)) w = ((out, err), w1)" by (metis surj_pair)
  from i x have "t' = t @ [(sh_cmd (install_cmd p), out, err)]"
    "r \<in> range Inr \<longleftrightarrow> err = None \<or> contains out ''already successfully installed''"
    by (auto simp: installOn_def answered_def split: option.splits if_splits)
  then show "\<exists>ds. t' = t @ ds \<and> outcome [install_step p] r ds"
    by (cases r) (auto simp: outcome_def install_step_def met_def intro!: stopped_single)
qed

lemma obeys_install_all: "obeys (map install_step ps) (install_all (answered X) ps)"
proof (induction ps)
  case (Cons p ps)
  from obeys_bindE [OF obeys_install Cons.IH, of p] show ?case by simp
qed (simp only: install_all.simps list.map obeys_returnE)

lemma obeys_query:
  "obeys [(sh_cmd c, \<lambda>out err. err = None \<and> P out)]
     (bindE (run (answered X) step c) (\<lambda>out. if \<not> P out then throwE e else returnE ()))"
  unfolding obeys_def
proof (intro allI impI)
  fix w t r w' t'
  assume q: "bindE (run (answered X) step c) (\<lambda>out. if \<not> P out then throwE e else returnE ()) (w, t) = (r, (w', t'))"
  obtain out err w1 where x: "X (sh_cmd c) w = ((out, err), w1)" by (metis surj_pair)
  from q x have "t' = t @ [(sh_cmd c, out, err)]" "r \<in> range Inr \<longleftrightarrow> err = None \<and> P out"
    by (auto simp: run_def must_run_def answered_def bindE_def split: option.splits if_splits)
  then show "\<exists>ds. t' = t @ ds \<and> outcome [(sh_cmd c, \<lambda>out err. err = None \<and> P out)] r ds"
    by (cases r) (auto simp: outcome_def met_def intro!: stopped_single)
qed

lemma obeys_finish: "obeys (finish_steps pid) (finish (answered X) pid)"
proof -
  have c: "obeys (a # as) (bindE m f)" if "obeys [a] m" "\<And>x. obeys as (f x)" for a as m f
    using obeys_bindE [OF that] by simp
  show ?thesis unfolding finish_steps_def finish_def approveFor_def commit_def invokeSmoke_def querySmoke_def
    by (rule c [OF obeys_run])+ (rule obeys_query)
qed

lemma queryPackageID_run:
  assumes "queryPackageID (answered X) (peers ! 0) (w, t) = (r, (w', t'))"
  shows "\<exists>a. t' = t @ [a] \<and> fst a = sh_cmd (queryinstalled_cmd (peers ! 0))
    \<and> (case r of Inr pid \<Rightarrow> met (package_step pid) a | Inl _ \<Rightarrow> (\<forall>pid. \<not> met (package_step pid) a))"
  using assms unfolding queryPackageID_def run_def must_run_def bindE_def answered_def
  by (auto simp: met_def package_step_def split: prod.splits option.splits sum.splits)

section \<open>Properties\<close>


text \<open>A network in which every command succeeds with one output, for the witness.\<close>

definition sample_output :: string where
  "sample_output = ''Package ID: employeeprofilerecord_1.0:5f, Label: cc5smoketest''"

definition yes_net :: "unit exec" where
  "yes_net args w = ((sample_output, None), w)"

lemma sample_package_id:
  "find_package_id (split_on (CHR 0x0A) sample_output) = Some (trim_space ''employeeprofilerecord_1.0:5f'')"
proof -
  have l: "split_on (CHR 0x0A) sample_output = [sample_output]" by (rule split_on_none) (simp add: sample_output_def)
  have c: "contains sample_output (ccName @ ''_'' @ ccVersion)" by code_simp
  have i: "index_of sample_output ''Package ID: '' = Some 0" by code_simp
  have r: "drop 12 sample_output = ''employeeprofilerecord_1.0:5f, Label: cc5smoketest''" by (simp add: sample_output_def)
  have n: "index_of (drop 12 sample_output) ''Package ID: '' = None" by code_simp
  have s2: "split_str ''Package ID: '' (drop 12 sample_output) = [drop 12 sample_output]"
    using n by (simp add: split_str.simps [of _ "drop 12 sample_output"])
  have "split_str ''Package ID: '' sample_output
      = take 0 sample_output # split_str ''Package ID: '' (drop (0 + length ''Package ID: '') sample_output)"
    by (simp only: split_str.simps [of _ sample_output] i option.case list.distinct if_False)
  moreover have "0 + length ''Package ID: '' = 12" by simp
  ultimately have s: "split_str ''Package ID: '' sample_output = [[], drop 12 sample_output]"
    by (simp only: s2 take_0)
  have h: "hd (split_on (CHR '','') (drop 12 sample_output)) = ''employeeprofilerecord_1.0:5f''"
    by (simp add: r)
  show ?thesis by (simp only: l find_package_id.simps c if_True s list.case h)
qed


end
