(* ===== verification/Raftfault.thy ===== *)
theory Raftfault
  imports Nettools
begin

text \<open>
  The fault-tolerance test of the ordering service (tools/raftfaulttest): with one of three
  orderers stopped a configuration update must be ordered, with two stopped it must not. The
  update is built and signed step by step with the Fabric binaries; a step that fails ends the
  process at once.
\<close>

definition helperContainer :: string where
  "helperContainer = ''fabric-tools-net''"

definition channelID :: string where
  "channelID = ''tenant-tenant01''"

definition ordererAddr :: string where
  "ordererAddr = ''orderer0.org1:7050''"

definition ordererTLSCA :: string where
  "ordererTLSCA = ''/net/crypto-config/ordererOrganizations/org1/tlsca/tlsca.org1-cert.pem''"

definition org1AdminMSP :: string where
  "org1AdminMSP = ''/net/crypto-config/peerOrganizations/org1/users/Admin@org1/msp''"

definition org1TLSDir :: string where
  "org1TLSDir = ''/net/crypto-config/peerOrganizations/org1/users/Admin@org1/tls''"

definition org1TLSCAFile :: string where
  "org1TLSCAFile = ''/net/crypto-config/peerOrganizations/org1/tlsca/tlsca.org1-cert.pem''"

definition sq :: string where
  "sq = [CHR 0x27]"

definition dq :: string where
  "dq = [CHR 0x22]"

record signer =
  s_name :: string
  s_mspID :: string
  s_mspPath :: string

definition signers :: "signer list" where
  "signers =
     [\<lparr>s_name = ''OrdererMSP-admin'', s_mspID = ''OrdererMSP'',
       s_mspPath = ''/net/crypto-config/ordererOrganizations/org1/users/Admin@org1/msp''\<rparr>,
      \<lparr>s_name = ''Org1MSP-admin'', s_mspID = ''Org1MSP'', s_mspPath = org1AdminMSP\<rparr>,
      \<lparr>s_name = ''OrgClient-tenant01MSP-admin'', s_mspID = ''OrgClient-tenant01MSP'',
       s_mspPath = ''/net/crypto-config/peerOrganizations/tenant01/users/Admin@tenant01/msp''\<rparr>]"

definition peerCLIEnv :: "string \<Rightarrow> string \<Rightarrow> string" where
  "peerCLIEnv mspID mspPath =
     ''CORE_PEER_LOCALMSPID='' @ mspID @ '' CORE_PEER_MSPCONFIGPATH='' @ mspPath
     @ '' CORE_PEER_ADDRESS=peer0.org1:7051 CORE_PEER_TLS_ENABLED=true CORE_PEER_TLS_ROOTCERT_FILE='' @ org1TLSCAFile
     @ '' CORE_PEER_TLS_CLIENTAUTHREQUIRED=true CORE_PEER_TLS_CLIENTCERT_FILE='' @ org1TLSDir
     @ ''/client.crt CORE_PEER_TLS_CLIENTKEY_FILE='' @ org1TLSDir @ ''/client.key''"

definition ordererTLSClientFlags :: string where
  "ordererTLSClientFlags =
     ''--clientauth --certfile '' @ org1TLSDir @ ''/client.crt --keyfile '' @ org1TLSDir @ ''/client.key''"

text \<open>The command line of \<open>dockerExec\<close>.\<close>

definition sh_cmd :: "string \<Rightarrow> string list" where
  "sh_cmd shCmd = [''docker'', ''exec'', helperContainer, ''sh'', ''-c'', shCmd]"

definition run :: "'w exec \<Rightarrow> string \<Rightarrow> string \<Rightarrow> ('w, goerr, string) act" where
  "run X step shCmd = must_run (X (sh_cmd shCmd)) step"

definition orderer_flags :: string where
  "orderer_flags = '' -c '' @ channelID @ '' -o '' @ ordererAddr @ '' --tls --cafile '' @ ordererTLSCA @ '' '' @ ordererTLSClientFlags"

definition translate :: "string \<Rightarrow> string \<Rightarrow> string \<Rightarrow> string \<Rightarrow> string" where
  "translate cmd input typ output = ''configtxlator '' @ cmd @ '' --input '' @ input @ '' --type '' @ typ @ '' --output '' @ output"

text \<open>The calls of \<open>run\<close> in \<open>buildSignedUpdate\<close>, in their order: step and command.\<close>

definition update_steps :: "string \<Rightarrow> string \<Rightarrow> (string \<times> string) list" where
  "update_steps base newTimeout =
     [(''fetch config block'',
       peerCLIEnv ''Org1MSP'' org1AdminMSP @ '' peer channel fetch config '' @ base @ ''_config_block.pb'' @ orderer_flags),
      (''decode block'',
       translate ''proto_decode'' (base @ ''_config_block.pb'') ''common.Block'' (base @ ''_config_block.json'')),
      (''extract config'',
       ''jq .data.data[0].payload.data.config '' @ base @ ''_config_block.json > '' @ base @ ''_config.json''),
      (''copy config for modification'', ''cp '' @ base @ ''_config.json '' @ base @ ''_modified_config.json''),
      (''set new BatchTimeout'',
       ''jq '' @ sq @ ''.channel_group.groups.Orderer.values.BatchTimeout.value.timeout = '' @ dq @ newTimeout @ dq @ sq @ '' ''
       @ base @ ''_config.json > '' @ base @ ''_modified_config.json.tmp && mv '' @ base @ ''_modified_config.json.tmp ''
       @ base @ ''_modified_config.json''),
      (''encode original config'',
       translate ''proto_encode'' (base @ ''_config.json'') ''common.Config'' (base @ ''_config.pb'')),
      (''encode modified config'',
       translate ''proto_encode'' (base @ ''_modified_config.json'') ''common.Config'' (base @ ''_modified_config.pb'')),
      (''compute update'',
       ''configtxlator compute_update --channel_id '' @ channelID @ '' --original '' @ base @ ''_config.pb --updated ''
       @ base @ ''_modified_config.pb --output '' @ base @ ''_update.pb''),
      (''decode update'',
       translate ''proto_decode'' (base @ ''_update.pb'') ''common.ConfigUpdate'' (base @ ''_update.json'')),
      (''wrap update in envelope'',
       ''echo '' @ sq @ ''{'' @ dq @ ''payload'' @ dq @ '':{'' @ dq @ ''header'' @ dq @ '':{'' @ dq @ ''channel_header'' @ dq
       @ '':{'' @ dq @ ''channel_id'' @ dq @ '':'' @ dq @ channelID @ dq @ '','' @ dq @ ''type'' @ dq @ '':2}},''
       @ dq @ ''data'' @ dq @ '':{'' @ dq @ ''config_update'' @ dq @ '':'' @ sq @ dq @ ''$(cat '' @ base @ ''_update.json)'' @ dq
       @ sq @ ''}}}'' @ sq @ '' | jq . > '' @ base @ ''_update_env.json''),
      (''encode envelope'',
       translate ''proto_encode'' (base @ ''_update_env.json'') ''common.Envelope'' (base @ ''_update_env.pb''))]
     @ map (\<lambda>s. (''sign as '' @ s_name s,
              peerCLIEnv (s_mspID s) (s_mspPath s) @ '' peer channel signconfigtx -f '' @ base @ ''_update_env.pb'')) signers"

fun run_steps :: "'w exec \<Rightarrow> (string \<times> string) list \<Rightarrow> ('w, goerr, unit) act" where
  "run_steps X [] = returnE ()"
| "run_steps X ((step, cmd) # steps) = bindE (run X step cmd) (\<lambda>_. run_steps X steps)"

definition buildSignedUpdate :: "'w exec \<Rightarrow> int \<Rightarrow> string \<Rightarrow> ('w, goerr, string) act" where
  "buildSignedUpdate X round newTimeout =
     (let base = ''/tmp/raftfault-r'' @ itoa round
      in bindE (run_steps X (update_steps base newTimeout)) (\<lambda>_. returnE (base @ ''_update_env.pb'')))"

definition submitUpdate :: "'w exec \<Rightarrow> string \<Rightarrow> 'w \<Rightarrow> (string \<times> goerr option) \<times> 'w" where
  "submitUpdate X envPath =
     X (sh_cmd (peerCLIEnv ''Org1MSP'' org1AdminMSP @ '' peer channel update -f '' @ envPath @ orderer_flags))"

definition currentBatchTimeout :: "'w exec \<Rightarrow> 'w \<Rightarrow> string \<times> 'w" where
  "currentBatchTimeout X w =
     (case X (sh_cmd (peerCLIEnv ''Org1MSP'' org1AdminMSP @ '' peer channel fetch config /tmp/rft_probe.pb'' @ orderer_flags
                @ '' >/dev/null 2>&1 && ''
                @ translate ''proto_decode'' ''/tmp/rft_probe.pb'' ''common.Block'' ''/tmp/rft_probe.json''
                @ '' && jq -r .data.data[0].payload.data.config.channel_group.groups.Orderer.values.BatchTimeout.value.timeout''
                @ '' /tmp/rft_probe.json'')) w of
        ((out, Some _), w') \<Rightarrow> ([], w')
      | ((out, None), w') \<Rightarrow> (trim_space out, w'))"

text \<open>\<open>fmt.Sscanf\<close> of the height: the literal text, then a decimal number; 0 stays when the text does
  not match or the number is out of range.\<close>

definition scan_decimal :: "string \<Rightarrow> int" where
  "scan_decimal s =
     (let t = dropWhile (\<lambda>c. c = CHR '' '' \<or> c = CHR 0x09) s;
          neg = (take 1 t = ''-'');
          ds = takeWhile is_digit (if neg \<or> take 1 t = ''+'' then drop 1 t else t);
          n = int (dec_value ds);
          v = (if neg then - n else n)
      in if ds = [] \<or> \<not> is_int64 v then 0 else v)"

definition height_text :: string where
  "height_text = dq @ ''height'' @ dq @ '':''"

definition scan_height :: "string \<Rightarrow> int" where
  "scan_height s = (if has_prefix s height_text then scan_decimal (drop (length height_text) s) else 0)"

definition blockHeight :: "'w exec \<Rightarrow> 'w \<Rightarrow> int \<times> 'w" where
  "blockHeight X w =
     (case X (sh_cmd (peerCLIEnv ''Org1MSP'' org1AdminMSP @ '' peer channel getinfo -c '' @ channelID
                @ '' 2>&1 | grep -o '' @ sq @ dq @ ''height'' @ dq @ '':[0-9]*'' @ sq)) w of
        ((out, Some _), w') \<Rightarrow> (-1, w')
      | ((out, None), w') \<Rightarrow> (scan_height (trim_space out), w'))"

definition dockerStop :: "'w exec \<Rightarrow> string list \<Rightarrow> 'w \<Rightarrow> 'w" where
  "dockerStop X containers w = snd (X ([''docker'', ''stop''] @ containers) w)"

definition dockerStart :: "'w exec \<Rightarrow> string list \<Rightarrow> 'w \<Rightarrow> 'w" where
  "dockerStart X containers w = snd (X ([''docker'', ''start''] @ containers) w)"

section \<open>\<open>main\<close>\<close>

record probe_summary =
  start_height :: int
  probe1_pass :: bool
  probe1_height :: int
  probe2_rejected :: bool
  probe2_height :: int
  final_height :: int

definition probe1OK :: "goerr option \<Rightarrow> string \<Rightarrow> int \<Rightarrow> int \<Rightarrow> bool" where
  "probe1OK err out probe1Height startHeight \<longleftrightarrow>
     err = None \<and> contains out ''Successfully submitted'' \<or> (err = None \<and> probe1Height > startHeight)"

definition probe2Rejected :: "goerr option \<Rightarrow> int \<Rightarrow> int \<Rightarrow> bool" where
  "probe2Rejected err2 probe2Height probe1Height \<longleftrightarrow> err2 \<noteq> None \<or> probe2Height \<le> probe1Height"

definition second_value :: "string \<Rightarrow> string" where
  "second_value cur2 = (if cur2 = [] then ''9s'' else if cur2 = ''4s'' then ''5s'' else ''4s'')"

definition verdict :: "probe_summary \<Rightarrow> goerr + probe_summary" where
  "verdict r =
     (if \<not> probe1_pass r then Inl (Plain ''FAIL: 1-of-3-down probe did not demonstrate continued ordering'')
      else if \<not> probe2_rejected r
      then Inl (Plain (''FAIL: 2-of-3-down probe unexpectedly succeeded '' @ map char_of [0xE2, 0x80, 0x94 :: nat]
                       @ '' quorum requirement not demonstrated''))
      else Inr r)"

definition raft_main :: "'w exec \<Rightarrow> ('w, goerr, probe_summary) act" where
  "raft_main X w0 =
     (case blockHeight X w0 of (startHeight, w1) \<Rightarrow>
      case currentBatchTimeout X (dockerStop X [''orderer1.org1''] w1) of (cur, w2) \<Rightarrow>
      case buildSignedUpdate X 1 (if cur = ''3s'' then ''2s'' else ''3s'') w2 of
        (Inl e, w3) \<Rightarrow> (Inl e, w3)
      | (Inr envPath, w3) \<Rightarrow>
      (case submitUpdate X envPath w3 of ((out, err), w4) \<Rightarrow>
      case blockHeight X w4 of (probe1Height, w5) \<Rightarrow>
      case currentBatchTimeout X (dockerStop X [''orderer2.org1''] w5) of (cur2, w6) \<Rightarrow>
      case buildSignedUpdate X 2 (second_value cur2) w6 of
        (Inl e, w7) \<Rightarrow> (Inl e, w7)
      | (Inr envPath2, w7) \<Rightarrow>
      (case submitUpdate X envPath2 w7 of ((out2, err2), w8) \<Rightarrow>
      case blockHeight X w8 of (probe2Height, w9) \<Rightarrow>
      case blockHeight X (dockerStart X [''orderer1.org1'', ''orderer2.org1''] w9) of (finalHeight, w10) \<Rightarrow>
        (verdict
           \<lparr>start_height = startHeight, probe1_pass = probe1OK err out probe1Height startHeight,
            probe1_height = probe1Height, probe2_rejected = probe2Rejected err2 probe2Height probe1Height,
            probe2_height = probe2Height, final_height = finalHeight\<rparr>, w10))))"

section \<open>What is restarted\<close>

definition stop1 :: "string list" where
  "stop1 = [''docker'', ''stop'', ''orderer1.org1'']"

definition restart :: "string list" where
  "restart = [''docker'', ''start'', ''orderer1.org1'', ''orderer2.org1'']"

abbreviation no_restart :: "string list \<Rightarrow> bool" where
  "no_restart c \<equiv> c \<noteq> restart"

lemma sh_no_restart: "no_restart (sh_cmd c)"
  by (simp add: sh_cmd_def restart_def)

lemma blockHeight_runs: "runs_only no_restart (blockHeight (logged X))"
  by (auto simp: runs_only_def blockHeight_def logged_def sh_no_restart split: prod.split option.split)

lemma currentBatchTimeout_runs: "runs_only no_restart (currentBatchTimeout (logged X))"
  by (auto simp: runs_only_def currentBatchTimeout_def logged_def sh_no_restart split: prod.split option.split)

lemma submitUpdate_runs: "runs_only no_restart (submitUpdate (logged X) p)"
  unfolding submitUpdate_def by (rule runs_only_logged) (rule sh_no_restart)

lemma run_steps_runs: "runs_only no_restart (run_steps (logged X) steps)"
proof (induction steps)
  case (Cons st steps)
  have "runs_only no_restart (run (logged X) a c)" for a c
    unfolding run_def by (intro runs_only_must runs_only_logged sh_no_restart)
  then show ?case using Cons.IH by (cases st) (simp only: run_steps.simps runs_only_bindE)
qed (simp only: run_steps.simps runs_only_returnE)

lemma buildSignedUpdate_runs: "runs_only no_restart (buildSignedUpdate (logged X) n v)"
  unfolding buildSignedUpdate_def Let_def by (intro runs_only_bindE run_steps_runs runs_only_returnE)

lemma run_steps_fatal: "run_steps X steps w = (Inl e, w') \<Longrightarrow> \<exists>step err. e = wrap (''FATAL at '' @ step) err"
proof (induction steps arbitrary: w)
  case (Cons st steps)
  show ?case
  proof (cases st)
    case (Pair step cmd)
    with Cons.prems have "bindE (run X step cmd) (\<lambda>_. run_steps X steps) w = (Inl e, w')" by simp
    then show ?thesis
    proof (rule bindE_InlE)
      assume "run X step cmd w = (Inl e, w')"
      then show ?thesis by (auto simp: run_def must_run_def split: prod.splits option.splits)
    next
      fix x s' assume "run_steps X steps s' = (Inl e, w')"
      then show ?thesis by (rule Cons.IH)
    qed
  qed
qed simp

lemma buildSignedUpdate_fatal:
  assumes "buildSignedUpdate X n v w = (Inl e, w')"
  shows "\<exists>step err. e = wrap (''FATAL at '' @ step) err"
  using assms unfolding buildSignedUpdate_def Let_def
  by (elim bindE_InlE) (rule run_steps_fatal, assumption, simp)

lemma verdict_not_fatal: "verdict r \<noteq> Inl (wrap m err)"
  by (simp add: verdict_def wrap_def)

text \<open>Journals without a restart command.\<close>

definition down :: "string list list \<Rightarrow> bool" where
  "down log \<longleftrightarrow> stop1 \<in> set log \<and> restart \<notin> set log"

lemma down_step: "runs_only no_restart m \<Longrightarrow> m s = (r, s') \<Longrightarrow> down (snd s) \<Longrightarrow> down (snd s')"
  using runs_onlyD [of no_restart m "fst s" "snd s" r "fst s'" "snd s'"]
  by (auto simp: down_def list_all_iff)

lemma no_restart_step:
  "runs_only no_restart m \<Longrightarrow> m s = (r, s') \<Longrightarrow> restart \<notin> set (snd s) \<Longrightarrow> restart \<notin> set (snd s')"
  using runs_onlyD [of no_restart m "fst s" "snd s" r "fst s'" "snd s'"]
  by (auto simp: list_all_iff)

lemma down_stop1: "restart \<notin> set (snd s) \<Longrightarrow> down (snd (dockerStop (logged X) [''orderer1.org1''] s))"
  by (auto simp: dockerStop_def logged_def down_def stop1_def restart_def split: prod.split)

lemma down_stop2: "down (snd s) \<Longrightarrow> down (snd (dockerStop (logged X) [''orderer2.org1''] s))"
  by (auto simp: dockerStop_def logged_def down_def stop1_def restart_def split: prod.split)

lemma restart_logged: "restart \<in> set (snd (dockerStart (logged X) [''orderer1.org1'', ''orderer2.org1''] s))"
  by (simp add: dockerStart_def logged_def restart_def split: prod.split)

lemma log_grows: "runs_only P m \<Longrightarrow> m s = (r, s') \<Longrightarrow> c \<in> set (snd s) \<Longrightarrow> c \<in> set (snd s')"
  using runs_onlyD [of P m "fst s" "snd s" r "fst s'" "snd s'"] by auto

section \<open>Properties\<close>

text \<open>C38: The test stops an orderer in every run, and it starts the orderers again exactly when no
  step of building an update was fatal: a run that ends in a fatal step, in the first or in the
  second probe, leaves the stopped orderers down.\<close>

theorem raft_fatal_leaves_orderers_down:
  assumes "raft_main (logged X) (w, []) = (r, (w', log))"
  shows "stop1 \<in> set log
    \<and> (restart \<in> set log \<longleftrightarrow> (\<forall>step err. r \<noteq> Inl (wrap (''FATAL at '' @ step) err)))"
proof -
  let ?X = "logged X"
  obtain h0 s1 where a1: "blockHeight ?X (w, []) = (h0, s1)" by (metis surj_pair)
  obtain cur s2 where a2: "currentBatchTimeout ?X (dockerStop ?X [''orderer1.org1''] s1) = (cur, s2)" by (metis surj_pair)
  have d2: "down (snd s2)"
    by (rule down_step [OF currentBatchTimeout_runs a2 down_stop1]) (rule no_restart_step [OF blockHeight_runs a1], simp)
  define v1 where "v1 = (if cur = ''3s'' then ''2s'' else ''3s'')"
  obtain b1 s3 where a3: "buildSignedUpdate ?X 1 v1 s2 = (b1, s3)" by (metis surj_pair)
  have d3: "down (snd s3)" by (rule down_step [OF buildSignedUpdate_runs a3 d2])
  note m = assms [unfolded raft_main_def a1 prod.case a2 v1_def [symmetric] a3]
  show ?thesis
  proof (cases b1)
    case (Inl e)
    with m have "r = Inl e" "log = snd s3" by auto
    with d3 buildSignedUpdate_fatal [OF a3 [unfolded Inl]] show ?thesis by (auto simp: down_def)
  next
    case (Inr env)
    note m = m [unfolded Inr sum.case prod.case]
    obtain out err s4 where a4: "submitUpdate ?X env s3 = ((out, err), s4)" by (metis surj_pair)
    obtain h1 s5 where a5: "blockHeight ?X s4 = (h1, s5)" by (metis surj_pair)
    obtain cur2 s6 where a6: "currentBatchTimeout ?X (dockerStop ?X [''orderer2.org1''] s5) = (cur2, s6)" by (metis surj_pair)
    obtain b2 s7 where a7: "buildSignedUpdate ?X 2 (second_value cur2) s6 = (b2, s7)" by (metis surj_pair)
    have d5: "down (snd s5)"
      by (rule down_step [OF blockHeight_runs a5 down_step [OF submitUpdate_runs a4 d3]])
    have d7: "down (snd s7)"
      by (rule down_step [OF buildSignedUpdate_runs a7 down_step [OF currentBatchTimeout_runs a6 down_stop2 [OF d5]]])
    note m = m [unfolded a4 prod.case a5 a6 a7]
    show ?thesis
    proof (cases b2)
      case (Inl e)
      with m have "r = Inl e" "log = snd s7" by auto
      with d7 buildSignedUpdate_fatal [OF a7 [unfolded Inl]] show ?thesis by (auto simp: down_def)
    next
      case (Inr env2)
      obtain o2 s8 where a8: "submitUpdate ?X env2 s7 = (o2, s8)" by (metis surj_pair)
      obtain h2 s9 where a9: "blockHeight ?X s8 = (h2, s9)" by (metis surj_pair)
      define st where "st = dockerStart ?X [''orderer1.org1'', ''orderer2.org1''] s9"
      obtain h3 s10 where a10: "blockHeight ?X st = (h3, s10)" by (metis surj_pair)
      from m Inr a8 a9 a10 obtain sm where r: "r = verdict sm" "log = snd s10"
        by (cases o2) (auto simp: st_def)
      have "stop1 \<in> set (snd s9)"
        using down_step [OF blockHeight_runs a9 down_step [OF submitUpdate_runs a8 d7]] by (simp add: down_def)
      then have "stop1 \<in> set (snd st)" by (simp add: st_def dockerStart_def logged_def split: prod.split)
      moreover have "restart \<in> set (snd st)" by (simp add: st_def restart_logged)
      ultimately have "stop1 \<in> set log" "restart \<in> set log" using log_grows [OF blockHeight_runs a10] r(2) by blast+
      with r(1) verdict_not_fatal show ?thesis by metis
    qed
  qed
qed

text \<open>Networks for the witnesses: the world counts the commands; \<open>broken n\<close> fails at command \<open>n\<close>
  and accepts every update.\<close>

definition broken :: "nat \<Rightarrow> nat exec" where
  "broken n args k =
     ((if k = 17 \<or> k = 35 then ''Successfully submitted'' else [],
       if k = n then Some (Plain ''exit status 1'') else None), k + 1)"

lemma run_broken:
  "run (broken n) step c k =
     (if k = n then Inl (wrap (''FATAL at '' @ step) (Plain ''exit status 1''))
      else Inr (if k = 17 \<or> k = 35 then ''Successfully submitted'' else []), k + 1)"
  by (simp add: run_def must_run_def broken_def)

lemma run_steps_broken:
  "run_steps (broken n) steps k =
     (if k \<le> n \<and> n < k + length steps
      then (Inl (wrap (''FATAL at '' @ fst (steps ! (n - k))) (Plain ''exit status 1'')), n + 1)
      else (Inr (), k + length steps))"
proof (induction steps arbitrary: k)
  case (Cons st steps)
  obtain a c where st: "st = (a, c)" by (cases st)
  show ?case
  proof (cases "k = n")
    case True
    then show ?thesis by (simp add: st bindE_def run_broken)
  next
    case False
    then have "run_steps (broken n) (st # steps) k = run_steps (broken n) steps (k + 1)"
      by (simp add: st bindE_def run_broken)
    also have "\<dots> = (if k + 1 \<le> n \<and> n < k + 1 + length steps
      then (Inl (wrap (''FATAL at '' @ fst (steps ! (n - (k + 1)))) (Plain ''exit status 1'')), n + 1)
      else (Inr (), k + 1 + length steps))" by (rule Cons.IH)
    finally show ?thesis using False by (auto simp: nth_Cons')
  qed
qed simp

lemma length_update_steps: "length (update_steps base v) = 14"
  by (simp add: update_steps_def signers_def)

lemma build_broken:
  "n < k \<or> k + 14 \<le> n \<Longrightarrow> \<exists>p. buildSignedUpdate (broken n) i v k = (Inr p, k + 14)"
  by (auto simp: buildSignedUpdate_def Let_def bindE_def run_steps_broken length_update_steps)

lemma build_fails:
  "k \<le> n \<Longrightarrow> n < k + 14 \<Longrightarrow> \<exists>step err. buildSignedUpdate (broken n) i v k = (Inl (wrap (''FATAL at '' @ step) err), n + 1)"
  by (auto simp: buildSignedUpdate_def Let_def bindE_def run_steps_broken length_update_steps)

lemma height_broken: "blockHeight (broken n) k = (if k = n then -1 else scan_height (trim_space (if k = 17 \<or> k = 35 then ''Successfully submitted'' else [])), k + 1)"
  by (simp add: blockHeight_def broken_def)

lemma timeout_broken: "\<exists>c. currentBatchTimeout (broken n) k = (c, k + 1)"
  by (simp add: currentBatchTimeout_def broken_def)

lemma stop_broken: "dockerStop (broken n) cs k = k + 1" "dockerStart (broken n) cs k = k + 1"
  by (simp_all add: dockerStop_def dockerStart_def broken_def)

lemma submit_broken: "submitUpdate (broken n) p k =
    ((if k = 17 \<or> k = 35 then ''Successfully submitted'' else [], if k = n then Some (Plain ''exit status 1'') else None), k + 1)"
  by (simp add: submitUpdate_def broken_def)

theorem raft_fatal_leaves_orderers_down_witness:
  "\<exists>e log. raft_main (logged (broken 3)) (0, []) = (Inl e, (4, log)) \<and> stop1 \<in> set log \<and> restart \<notin> set log"
proof -
  let ?X = "logged (broken 3)"
  have r: "run ?X step c (3, log) = (Inl (wrap (''FATAL at '' @ step) (Plain ''exit status 1'')), (4, log @ [sh_cmd c]))" for step c log
    by (simp add: run_def must_run_def logged_def broken_def)
  have b: "\<exists>step err log'. buildSignedUpdate ?X 1 v (3, log) = (Inl (wrap (''FATAL at '' @ step) err), (4, log'))" for v log
  proof -
    obtain st c rest where u: "update_steps (''/tmp/raftfault-r'' @ itoa 1) v = (st, c) # rest"
      unfolding update_steps_def append_Cons by blast
    show ?thesis
      by (simp only: buildSignedUpdate_def Let_def u run_steps.simps bindE_def r prod.case sum.case)
        (intro exI, rule refl)
  qed
  obtain h log1 where h: "blockHeight ?X (0, []) = (h, (1, log1))"
    by (simp add: blockHeight_def logged_def broken_def)
  obtain log2 where st: "dockerStop ?X [''orderer1.org1''] (1, log1) = (2, log2)"
    by (simp add: dockerStop_def logged_def broken_def numeral_2_eq_2)
  obtain c log3 where t: "currentBatchTimeout ?X (2, log2) = (c, (3, log3))"
    by (simp add: currentBatchTimeout_def logged_def broken_def)
  obtain step err log4 where b': "buildSignedUpdate ?X 1 (if c = ''3s'' then ''2s'' else ''3s'') (3, log3)
      = (Inl (wrap (''FATAL at '' @ step) err), (4, log4))" using b by blast
  have "raft_main ?X (0, []) = (Inl (wrap (''FATAL at '' @ step) err), (4, log4))"
    by (simp only: raft_main_def h prod.case st t b' sum.case)
  with raft_fatal_leaves_orderers_down [OF this] show ?thesis by blast
qed

text \<open>The second verdict can be vacuous. There is a network that accepts both updates, the
  second one with two orderers stopped, and for which the test nevertheless reports success: when
  the height cannot be read after the second update it counts as -1, which is not above the
  height after the first one.\<close>

lemma raft_success_can_be_vacuous:
  "\<exists>sm. raft_main (broken 36) 0 = (Inr sm, 39) \<and> probe2_height sm = -1
     \<and> (\<forall>p. submitUpdate (broken 36) p 17 = ((''Successfully submitted'', None), 18)
          \<and> submitUpdate (broken 36) p 35 = ((''Successfully submitted'', None), 36))"
proof -
  have z: "scan_height [] = 0" by (simp add: scan_height_def height_text_def has_prefix_def)
  obtain c1 where t1: "currentBatchTimeout (broken 36) 2 = (c1, 3)" using timeout_broken [of 36 2] by auto
  obtain c2 where t2: "currentBatchTimeout (broken 36) 20 = (c2, 21)" using timeout_broken [of 36 20] by auto
  obtain p1 where b1: "buildSignedUpdate (broken 36) 1 (if c1 = ''3s'' then ''2s'' else ''3s'') 3 = (Inr p1, 17)"
    using build_broken [of 36 3 1] by auto
  obtain p2 where b2: "buildSignedUpdate (broken 36) 2 (second_value c2) 21 = (Inr p2, 35)"
    using build_broken [of 36 21 2] by auto
  have ok: "contains ''Successfully submitted'' ''Successfully submitted''" by (simp add: contains_iff_sublist)
  show ?thesis
    by (simp add: raft_main_def height_broken stop_broken t1 [unfolded numeral_2_eq_2] b1 submit_broken t2 b2 z verdict_def probe1OK_def
        probe2Rejected_def ok)
qed

end
