(* ===== verification/Jcsverify.thy ===== *)
theory Jcsverify
  imports Digest Go_Strings
begin

text \<open>
  The check of the canonicalization library (tools/jcsverify) against the six published test
  vectors. The library is the argument \<open>Transform\<close>, as in the digest builder that relies on it;
  \<open>ReadFile\<close> reads the disk.
\<close>

definition vectors :: "string list" where
  "vectors = [''arrays.json'', ''french.json'', ''structures.json'', ''unicode.json'', ''values.json'', ''weird.json'']"

text \<open>The body of the loop for one vector: an error that ends the process, or whether it passed.\<close>

definition check_vector :: "(string \<Rightarrow> string res) \<Rightarrow> (string \<Rightarrow> string res) \<Rightarrow> string \<Rightarrow> string \<Rightarrow> bool res" where
  "check_vector ReadFile Transform testdata name =
     (case ReadFile (path_join testdata (''input/'' @ name)) of
        Inl err \<Rightarrow> Inl (wrap (''FATAL reading input '' @ name) err)
      | Inr input \<Rightarrow>
          (case ReadFile (path_join testdata (''output/'' @ name)) of
             Inl err \<Rightarrow> Inl (wrap (''FATAL reading expected output '' @ name) err)
           | Inr expected \<Rightarrow>
               (case Transform input of
                  Inl err \<Rightarrow> Inr False
                | Inr actual \<Rightarrow>
                    (let pass = (actual = expected)
                     in Inr (case Transform actual of
                               Inl err \<Rightarrow> False
                             | Inr recycled \<Rightarrow> if recycled \<noteq> actual then False else pass)))))"

fun vector_loop :: "(string \<Rightarrow> string res) \<Rightarrow> (string \<Rightarrow> string res) \<Rightarrow> string \<Rightarrow> string list \<Rightarrow> bool \<Rightarrow> bool res" where
  "vector_loop ReadFile Transform testdata [] allPass = Inr allPass"
| "vector_loop ReadFile Transform testdata (name # names) allPass =
     (case check_vector ReadFile Transform testdata name of
        Inl err \<Rightarrow> Inl err
      | Inr pass \<Rightarrow> vector_loop ReadFile Transform testdata names (if pass then allPass else False))"

definition jcsverify_main :: "(string \<Rightarrow> string res) \<Rightarrow> (string \<Rightarrow> string res) \<Rightarrow> string list \<Rightarrow> unit res" where
  "jcsverify_main ReadFile Transform args =
     (if length args < 2 then Inl (Plain ''usage: jcsverify <path-to-json-canonicalization/testdata>'')
      else case vector_loop ReadFile Transform (args ! 1) vectors True of
             Inl err \<Rightarrow> Inl err
           | Inr allPass \<Rightarrow>
               if \<not> allPass
               then Inl (Plain ([CHR 0x0A] @ ''FAIL: at least one RFC 8785 test vector did not byte-match '' @
                           [CHR 0xE2, CHR 0x80, CHR 0x94] @ '' PB-3 CANNOT close on this library/version''))
               else Inr ())"

section \<open>Facts\<close>

definition vector_ok :: "(string \<Rightarrow> string res) \<Rightarrow> (string \<Rightarrow> string res) \<Rightarrow> string \<Rightarrow> string \<Rightarrow> bool" where
  "vector_ok ReadFile Transform testdata name \<longleftrightarrow>
     (\<exists>input expected. ReadFile (path_join testdata (''input/'' @ name)) = Inr input
        \<and> ReadFile (path_join testdata (''output/'' @ name)) = Inr expected
        \<and> Transform input = Inr expected \<and> Transform expected = Inr expected)"

lemma check_vector_ok: "check_vector ReadFile Transform testdata name = Inr True \<longleftrightarrow> vector_ok ReadFile Transform testdata name"
  by (auto simp: check_vector_def vector_ok_def Let_def split: sum.splits if_splits)

lemma vector_loop_True:
  "vector_loop ReadFile Transform testdata names b = Inr True \<longleftrightarrow>
     b \<and> (\<forall>name\<in>set names. vector_ok ReadFile Transform testdata name)"
proof (induction names arbitrary: b)
  case (Cons name names)
  show ?case
  proof (cases "check_vector ReadFile Transform testdata name")
    case (Inl e)
    then show ?thesis using check_vector_ok [of ReadFile Transform testdata name] by simp
  next
    case (Inr p)
    then show ?thesis using check_vector_ok [of ReadFile Transform testdata name] Cons.IH by (cases p) auto
  qed
qed simp

section \<open>Properties\<close>

text \<open>The check passes exactly when, for each of the six vectors, both files can be read, the
  library turns the input into the expected bytes and leaves the expected bytes as they are. For
  a library that passes, the data hash of each input equals the data hash of its canonical form,
  under every salt.\<close>

lemma jcsverify_exact:
  assumes "2 \<le> length args"
  shows "(jcsverify_main ReadFile Transform args = Inr () \<longleftrightarrow>
      (\<forall>name\<in>set vectors. \<exists>input expected.
         ReadFile (path_join (args ! 1) (''input/'' @ name)) = Inr input
         \<and> ReadFile (path_join (args ! 1) (''output/'' @ name)) = Inr expected
         \<and> Transform input = Inr expected \<and> Transform expected = Inr expected))
    \<and> (jcsverify_main ReadFile Transform args = Inr () \<longrightarrow>
      (\<forall>name\<in>set vectors. \<exists>input expected.
         ReadFile (path_join (args ! 1) (''input/'' @ name)) = Inr input
         \<and> ReadFile (path_join (args ! 1) (''output/'' @ name)) = Inr expected
         \<and> (\<forall>salt. ComputeDataHash Transform salt input = ComputeDataHash Transform salt expected)))"
proof -
  have m: "jcsverify_main ReadFile Transform args = Inr () \<longleftrightarrow> (\<forall>name\<in>set vectors. vector_ok ReadFile Transform (args ! 1) name)"
    using assms vector_loop_True [of ReadFile Transform "args ! 1" vectors True]
    by (auto simp: jcsverify_main_def split: sum.splits)
  have "ComputeDataHash Transform salt input = ComputeDataHash Transform salt expected"
    if "Transform input = Inr expected" "Transform expected = Inr expected" for salt input expected
    using that by (simp add: ComputeDataHash_def)
  with m show ?thesis unfolding vector_ok_def by meson
qed

end
