(* ===== verification/Tenantprovision.thy ===== *)
theory Tenantprovision
  imports Nettools
begin

text \<open>
  The provisioning tool for a new tenant (tools/tenantprovision): key material, an organisation
  and a channel profile in configtx.yaml, the genesis block, a service in the compose file, and
  the channel join. The configuration of the new tenant is copied from tenant01's by textual
  substitution. Files are explicit, as a map from paths to contents; the programs that are run
  are the argument of the model and may change the world and the files. A path is the text the
  tool passes to the operating system: two texts that name one file, as a tenant identifier with
  \<open>..\<close> in it can produce, are different keys of the map.
\<close>

section \<open>Text operations of package \<open>strings\<close>\<close>

text \<open>\<open>strings.ReplaceAll\<close> and \<open>strings.Replace(..., 1)\<close> for a pattern that is not empty.\<close>

function replace_all :: "string \<Rightarrow> string \<Rightarrow> string \<Rightarrow> string" where
  "replace_all old new s =
     (if old = [] then s
      else case index_of s old of
             None \<Rightarrow> s
           | Some i \<Rightarrow> take i s @ new @ replace_all old new (drop (i + length old) s))"
  by pat_completeness auto
termination
proof (relation "measure (\<lambda>(old, new, s). length s)")
  fix old new s :: string and i
  assume "old \<noteq> []" and "index_of s old = Some i"
  with index_of_bound [of s old i]
  show "((old, new, drop (i + length old) s), (old, new, s)) \<in> measure (\<lambda>(old, new, s). length s)"
    by (cases old) auto
qed simp

declare replace_all.simps [simp del]

definition replace_first :: "string \<Rightarrow> string \<Rightarrow> string \<Rightarrow> string" where
  "replace_first old new s =
     (case index_of s old of
        None \<Rightarrow> s
      | Some i \<Rightarrow> take i s @ new @ drop (i + length old) s)"

text \<open>\<open>strings.ToUpper\<close> of one byte; a byte that is no ASCII character becomes the replacement
  character.\<close>

definition upper_byte :: "char \<Rightarrow> string" where
  "upper_byte c =
     (let n = (of_char c :: nat)
      in if 97 \<le> n \<and> n \<le> 122 then [char_of (n - 32)]
         else if n < 128 then [c] else map char_of [0xEF, 0xBF, 0xBD :: nat])"

section \<open>The regular expressions\<close>

text \<open>The first match of \<open>(?s)A.*?B\<close> for two literal texts.\<close>

definition find_between :: "string \<Rightarrow> string \<Rightarrow> string \<Rightarrow> string option" where
  "find_between a b s =
     (case index_of s a of
        None \<Rightarrow> None
      | Some i \<Rightarrow>
          (let r = drop (i + length a) s
           in case index_of r b of None \<Rightarrow> None | Some j \<Rightarrow> Some (a @ take j r @ b)))"

text \<open>The length of a match of \<open>P=+Q\<close> at the head of a text; \<open>Q\<close> does not begin with \<open>=\<close>.\<close>

definition rule_match :: "string \<Rightarrow> string \<Rightarrow> string \<Rightarrow> nat option" where
  "rule_match p q s =
     (let r = drop (length p) s; n = length (takeWhile (\<lambda>c. c = CHR ''='') r)
      in if has_prefix s p \<and> 0 < n \<and> has_prefix (drop n r) q then Some (length p + n + length q) else None)"

text \<open>The first position with a match, and the length of the match there.\<close>

fun first_match :: "(string \<Rightarrow> nat option) \<Rightarrow> string \<Rightarrow> (nat \<times> nat) option" where
  "first_match f [] = map_option (\<lambda>n. (0, n)) (f [])"
| "first_match f (c # s) =
     (case f (c # s) of
        Some n \<Rightarrow> Some (0, n)
      | None \<Rightarrow> map_option (\<lambda>(i, n). (Suc i, n)) (first_match f s))"

definition nl :: string where
  "nl = [CHR 0x0A]"

definition dq :: string where
  "dq = [CHR 0x22]"

definition sq :: string where
  "sq = [CHR 0x27]"

definition org_block :: "string \<Rightarrow> string option" where
  "org_block content =
     find_between ''  # --- OrgClient-tenant01:'' (nl @ nl @ ''  # --- Org3:'') content"

definition service_block :: "string \<Rightarrow> string option" where
  "service_block content =
     (let a = ''  peer0.tenant01:'' @ nl
      in case index_of content a of
           None \<Rightarrow> None
         | Some i \<Rightarrow>
             (let r = drop (i + length a) content
              in case first_match (rule_match (nl @ nl @ ''  # '') (nl @ ''  # Org3'')) r of
                   None \<Rightarrow> None
                 | Some (j, n) \<Rightarrow> Some (a @ take (j + n) r)))"

text \<open>\<open>ReplaceAllString\<close> of \<open>\n  # =+\n  # Org3$\<close> by the empty text: the dollar stands for the end of
  the text, so there is at most one match.\<close>

definition cut_heading :: "string \<Rightarrow> string" where
  "cut_heading s =
     (case first_match (\<lambda>t. case rule_match (nl @ ''  # '') (nl @ ''  # Org3'') t of
                               Some n \<Rightarrow> if n = length t then Some n else None
                             | None \<Rightarrow> None) s of
        None \<Rightarrow> s
      | Some (i, n) \<Rightarrow> take i s)"

section \<open>The environment\<close>

type_synonym 'w disk = "'w \<times> (string \<rightharpoonup> string)"

record 'w host =
  Exec :: "'w disk exec"
  WriteFault :: "string \<Rightarrow> string \<Rightarrow> 'w \<Rightarrow> (goerr \<times> nat) option"
  Abs :: "string \<Rightarrow> string res"
  Exists :: "string \<Rightarrow> 'w disk \<Rightarrow> bool"

definition networkDir :: string where
  "networkDir = ''../../network''"

definition mustTenantID :: "string list \<Rightarrow> string res" where
  "mustTenantID args =
     (if length args < 2 then Inl (Plain ''usage: tenantprovision <tenantID>  (e.g. tenant02)'') else Inr (args ! 1))"

definition readFile :: "string \<Rightarrow> ('w disk, goerr, string) act" where
  "readFile path s =
     (case snd s path of
        None \<Rightarrow> (Inl (wrap (''FATAL reading '' @ path) (Plain (''open '' @ path @ '': no such file or directory''))), s)
      | Some c \<Rightarrow> (Inr c, s))"

text \<open>\<open>os.WriteFile\<close> truncates the file and then writes; a fault leaves the bytes written so far.\<close>

definition writeFile :: "'w host \<Rightarrow> string \<Rightarrow> string \<Rightarrow> ('w disk, goerr, unit) act" where
  "writeFile H path content s =
     (case WriteFault H path content (fst s) of
        None \<Rightarrow> (Inr (), (fst s, (snd s)(path \<mapsto> content)))
      | Some (err, n) \<Rightarrow>
          (Inl (wrap (''FATAL writing '' @ path) err), (fst s, (snd s)(path \<mapsto> take n content))))"

definition run :: "'w host \<Rightarrow> string \<Rightarrow> string list \<Rightarrow> ('w disk, goerr, string) act" where
  "run H step args = must_run (Exec H args) step"

definition dockerExecTools :: "'w host \<Rightarrow> string \<Rightarrow> string \<Rightarrow> ('w disk, goerr, string) act" where
  "dockerExecTools H step shCmd = run H step [''docker'', ''exec'', ''fabric-tools-net'', ''sh'', ''-c'', shCmd]"

definition mustAbs :: "'w host \<Rightarrow> string \<Rightarrow> ('w disk, goerr, string) act" where
  "mustAbs H p = mapErr (wrap ''FATAL resolving path'') (liftE (Abs H p))"

section \<open>Step 1: key material\<close>

definition text_lines :: "string list \<Rightarrow> string" where
  "text_lines ls = concat (map (\<lambda>l. l @ nl) ls)"

definition crypto_fragment :: "string \<Rightarrow> string" where
  "crypto_fragment tenantID =
     text_lines [''PeerOrgs:'', ''  - Name: OrgClient-'' @ tenantID, ''    Domain: '' @ tenantID, ''    EnableNodeOUs: true'',
       ''    Template:'', ''      Count: 1'', ''    Users:'', ''      Count: 1'']"

definition fragment_path :: "string \<Rightarrow> string" where
  "fragment_path tenantID = networkDir @ ''/crypto-config/crypto-config-'' @ tenantID @ ''.yaml''"

definition genCryptoMaterial :: "'w host \<Rightarrow> string \<Rightarrow> ('w disk, goerr, unit) act" where
  "genCryptoMaterial H tenantID s =
     (if Exists H (networkDir @ ''/crypto-config/peerOrganizations/'' @ tenantID) s then (Inr (), s)
      else
        bindE (writeFile H (fragment_path tenantID) (crypto_fragment tenantID)) (\<lambda>_.
        bindE (mustAbs H networkDir) (\<lambda>abs.
        bindE (run H (''cryptogen generate for '' @ tenantID)
                 [''docker'', ''run'', ''--rm'', ''-v'', abs @ ''/crypto-config:/work'', ''-w'', ''/work'',
                  ''hyperledger/fabric-tools:2.5'', ''cryptogen'', ''generate'',
                  ''--config=./crypto-config-'' @ tenantID @ ''.yaml'', ''--output=.'']) (\<lambda>_.
        returnE ()))) s)"

section \<open>Step 2: configtx.yaml\<close>

text \<open>\<open>"Tenant" + strings.ToUpper(tenantID[6:7]) + tenantID[7:]\<close>, which panics on a short text.\<close>

definition titleTenant :: "string \<Rightarrow> string res" where
  "titleTenant tenantID =
     (if length tenantID < 7
      then Inl (Plain (''panic: runtime error: slice bounds out of range [:7] with length '' @ nat_digits (length tenantID)))
      else Inr (''Tenant'' @ upper_byte (tenantID ! 6) @ drop 7 tenantID))"

definition configtx_path :: string where
  "configtx_path = networkDir @ ''/configtx/configtx.yaml''"

definition new_org_block :: "string \<Rightarrow> string \<Rightarrow> string \<Rightarrow> string" where
  "new_org_block tenantID title m =
     trim_suffix (replace_all ''Tenant01'' title (replace_all ''tenant01'' tenantID m)) ''  # --- Org3:''"

text \<open>The insertion of the organisation; the result is the content afterwards.\<close>

definition add_org :: "'w host \<Rightarrow> string \<Rightarrow> string \<Rightarrow> string \<Rightarrow> ('w disk, goerr, string) act" where
  "add_org H tenantID title content =
     (if contains content (''&OrgClient'' @ title) then returnE content
      else case org_block content of
             None \<Rightarrow> throwE (Plain (''FATAL: could not locate tenant01'' @ sq @ ''s org block in configtx.yaml''))
           | Some m \<Rightarrow>
               (let content' = replace_first m (new_org_block tenantID title m @ nl @ m) content
                in bindE (writeFile H configtx_path content') (\<lambda>_. returnE content')))"

definition new_profile :: "string \<Rightarrow> string \<Rightarrow> string" where
  "new_profile tenantID title =
     nl @ text_lines
       [''  '' @ title @ ''ChannelGenesis:'', ''      <<: *ChannelDefaults'', ''      Orderer:'',
        ''          <<: *OrdererDefaults'', ''          Organizations:'', ''              - *OrdererOrg'',
        ''          Capabilities: *OrdererCapabilities'', ''      Application:'', ''          <<: *ApplicationDefaults'',
        ''          Organizations:'', ''              - *Org1'', ''              - *OrgClient'' @ title,
        ''              - *Org3'', ''          Policies:'',
        ''              Readers: { Type: ImplicitMeta, Rule: '' @ dq @ ''ANY Readers'' @ dq @ '' }'',
        ''              Writers: { Type: ImplicitMeta, Rule: '' @ dq @ ''ANY Writers'' @ dq @ '' }'',
        ''              Admins:  { Type: ImplicitMeta, Rule: '' @ dq @ ''MAJORITY Admins'' @ dq @ '' }'',
        ''              LifecycleEndorsement: { Type: Signature, Rule: '' @ dq @ ''AND('' @ sq @ ''Org1MSP.peer'' @ sq @ '',''
          @ sq @ ''OrgClient-'' @ tenantID @ ''MSP.peer'' @ sq @ '')'' @ dq @ '' }'',
        ''              Endorsement:          { Type: Signature, Rule: '' @ dq @ ''AND('' @ sq @ ''Org1MSP.peer'' @ sq @ '',''
          @ sq @ ''OrgClient-'' @ tenantID @ ''MSP.peer'' @ sq @ '')'' @ dq @ '' }'',
        ''          Capabilities: *ApplicationCapabilities'']"

definition insert_marker :: string where
  "insert_marker = ''# Invocation (fabric-operations, post-NET-1, not executed here):''"

definition add_profile :: "'w host \<Rightarrow> string \<Rightarrow> string \<Rightarrow> string \<Rightarrow> ('w disk, goerr, unit) act" where
  "add_profile H tenantID title content =
     (if contains content (title @ ''ChannelGenesis:'') then returnE ()
      else
        bindE (readFile configtx_path) (\<lambda>content.
        case index_of content insert_marker of
          None \<Rightarrow> throwE (Plain ''FATAL: could not locate insertion marker for new profile in configtx.yaml'')
        | Some idx \<Rightarrow>
            writeFile H configtx_path (take idx content @ new_profile tenantID title @ nl @ drop idx content)))"

definition addConfigtxOrgAndProfile :: "'w host \<Rightarrow> string \<Rightarrow> ('w disk, goerr, unit) act" where
  "addConfigtxOrgAndProfile H tenantID =
     bindE (readFile configtx_path) (\<lambda>content.
     bindE (liftE (titleTenant tenantID)) (\<lambda>title.
     bindE (add_org H tenantID title content) (\<lambda>content.
     add_profile H tenantID title content)))"

section \<open>Step 3: genesis block\<close>

definition genChannelBlock :: "'w host \<Rightarrow> string \<Rightarrow> string \<Rightarrow> ('w disk, goerr, unit) act" where
  "genChannelBlock H tenantID profileName =
     (let channelID = ''tenant-'' @ tenantID
      in bindE (mustAbs H networkDir) (\<lambda>abs.
         bindE (run H (''configtxgen for '' @ channelID)
                  [''docker'', ''run'', ''--rm'', ''-v'', abs @ '':/work'', ''-w'', ''/work/configtx'',
                   ''hyperledger/fabric-tools:2.5'', ''configtxgen'', ''-profile'', profileName, ''-channelID'', channelID,
                   ''-outputBlock'', ''/work/channel-artifacts/'' @ channelID @ ''.block'', ''-configPath'', ''.'']) (\<lambda>_.
         returnE ())))"

section \<open>Step 4: the compose file\<close>

definition compose_path :: string where
  "compose_path = networkDir @ ''/compose/network-docker-compose.yaml''"

definition port_map :: "string \<Rightarrow> string \<Rightarrow> string" where
  "port_map outer inner = dq @ outer @ '':'' @ inner @ dq"

definition new_service_block :: "string \<Rightarrow> string \<Rightarrow> string" where
  "new_service_block tenantID m =
     replace_all (port_map ''9446'' ''9443'') (port_map ''11446'' ''9443'')
       (replace_all (port_map ''9051'' ''7051'') (port_map ''11051'' ''7051'')
         (replace_all ''tenant01'' tenantID m))"

definition add_service :: "string \<Rightarrow> string \<Rightarrow> string \<Rightarrow> string" where
  "add_service tenantID m content =
     (let trimmed = cut_heading (new_service_block tenantID m);
          content = replace_first m (trimmed @ nl @ nl @ trim_prefix m trimmed) content;
          ledger = ''  peer0-tenant01-ledger:'' @ nl
      in replace_first ledger (ledger @ ''  peer0-'' @ tenantID @ ''-ledger:'' @ nl) content)"

definition addPeerComposeService :: "'w host \<Rightarrow> string \<Rightarrow> ('w disk, goerr, unit) act" where
  "addPeerComposeService H tenantID =
     (let serviceName = ''peer0.'' @ tenantID
      in bindE (readFile compose_path) (\<lambda>content.
         bindE (if contains content (serviceName @ '':'' @ nl) then returnE ()
                else case service_block content of
                       None \<Rightarrow> throwE (Plain (''FATAL: could not locate peer0.tenant01'' @ sq @ ''s compose block''))
                     | Some m \<Rightarrow> writeFile H compose_path (add_service tenantID m content)) (\<lambda>_.
         bindE (run H (''docker compose up '' @ serviceName)
                  [''docker'', ''compose'', ''-f'', compose_path, ''up'', ''-d'', serviceName]) (\<lambda>_.
         returnE ()))))"

section \<open>Step 5: channel join\<close>

record peer =
  p_name :: string
  p_addr :: string
  p_mspID :: string
  p_adminMSP :: string
  p_tlsCA :: string

definition org_peer :: "string \<Rightarrow> string \<Rightarrow> string \<Rightarrow> peer" where
  "org_peer name domain msp =
     \<lparr>p_name = name @ ''.'' @ domain, p_addr = name @ ''.'' @ domain @ '':7051'', p_mspID = msp,
      p_adminMSP = ''/net/crypto-config/peerOrganizations/'' @ domain @ ''/users/Admin@'' @ domain @ ''/msp'',
      p_tlsCA = ''/net/crypto-config/peerOrganizations/'' @ domain @ ''/tlsca/tlsca.'' @ domain @ ''-cert.pem''\<rparr>"

definition join_peers_of :: "string \<Rightarrow> peer list" where
  "join_peers_of tenantID =
     [org_peer ''peer0'' ''org1'' ''Org1MSP'', org_peer ''peer1'' ''org1'' ''Org1MSP'',
      org_peer ''peer0'' tenantID (''OrgClient-'' @ tenantID @ ''MSP''), org_peer ''peer0'' ''org3'' ''Org3MSP'']"

definition join_orderers :: "string list" where
  "join_orderers = [''orderer0.org1:9443'', ''orderer1.org1:9443'', ''orderer2.org1:9443'']"

definition admin_tls :: "string \<Rightarrow> string" where
  "admin_tls f = ''/net/crypto-config/ordererOrganizations/org1/orderers/orderer0.org1/tls/'' @ f"

definition peer_env :: "peer \<Rightarrow> string" where
  "peer_env p =
     (let tls = trim_suffix (p_adminMSP p) ''/msp'' @ ''/tls''
      in ''CORE_PEER_LOCALMSPID='' @ p_mspID p @ '' CORE_PEER_MSPCONFIGPATH='' @ p_adminMSP p
         @ '' CORE_PEER_ADDRESS='' @ p_addr p
         @ '' CORE_PEER_TLS_ENABLED=true CORE_PEER_TLS_ROOTCERT_FILE='' @ p_tlsCA p
         @ '' CORE_PEER_TLS_CLIENTAUTHREQUIRED=true CORE_PEER_TLS_CLIENTCERT_FILE='' @ tls
         @ ''/client.crt CORE_PEER_TLS_CLIENTKEY_FILE='' @ tls @ ''/client.key'')"

fun osn_joins :: "'w host \<Rightarrow> string \<Rightarrow> string \<Rightarrow> string list \<Rightarrow> ('w disk, goerr, unit) act" where
  "osn_joins H channelID blockPath [] = returnE ()"
| "osn_joins H channelID blockPath (od # ods) =
     bindE (dockerExecTools H (''osnadmin join '' @ od)
              (''osnadmin channel join --channelID '' @ channelID @ '' --config-block '' @ blockPath @ '' -o '' @ od
               @ '' --ca-file '' @ admin_tls ''ca.crt'' @ '' --client-cert '' @ admin_tls ''server.crt''
               @ '' --client-key '' @ admin_tls ''server.key'')) (\<lambda>_.
     osn_joins H channelID blockPath ods)"

definition join_peer :: "'w host \<Rightarrow> string \<Rightarrow> peer \<Rightarrow> ('w disk, goerr, unit) act" where
  "join_peer H blockPath p s =
     (case Exec H [''docker'', ''exec'', ''fabric-tools-net'', ''sh'', ''-c'',
                   peer_env p @ '' peer channel join -b '' @ blockPath] s of
        ((out, None), s') \<Rightarrow> (Inr (), s')
      | ((out, Some err), s') \<Rightarrow>
          if \<not> contains out ''already exists'' then (Inl (wrap (''FATAL joining '' @ p_name p) err), s') else (Inr (), s'))"

fun peer_joins :: "'w host \<Rightarrow> string \<Rightarrow> peer list \<Rightarrow> ('w disk, goerr, unit) act" where
  "peer_joins H blockPath [] = returnE ()"
| "peer_joins H blockPath (p # ps) = bindE (join_peer H blockPath p) (\<lambda>_. peer_joins H blockPath ps)"

definition joinNewChannel :: "'w host \<Rightarrow> string \<Rightarrow> ('w disk, goerr, unit) act" where
  "joinNewChannel H tenantID =
     (let channelID = ''tenant-'' @ tenantID;
          blockPath = ''/net/channel-artifacts/'' @ channelID @ ''.block'';
          peers = join_peers_of tenantID
      in bindE (osn_joins H channelID blockPath join_orderers) (\<lambda>_.
         bindE (peer_joins H blockPath peers) (\<lambda>_.
         bindE (dockerExecTools H (''verify peer channel list on '' @ p_name (peers ! 2))
                  (peer_env (peers ! 2) @ '' peer channel list'')) (\<lambda>out.
         if \<not> contains out channelID
         then throwE (Plain (''FAIL: new tenant'' @ sq @ ''s peer does not report the new channel joined''))
         else returnE ()))))"

definition provision :: "'w host \<Rightarrow> string \<Rightarrow> ('w disk, goerr, unit) act" where
  "provision H tenantID =
     bindE (genCryptoMaterial H tenantID) (\<lambda>_.
     bindE (addConfigtxOrgAndProfile H tenantID) (\<lambda>_.
     bindE (liftE (titleTenant tenantID)) (\<lambda>title.
     bindE (genChannelBlock H tenantID (title @ ''ChannelGenesis'')) (\<lambda>_.
     bindE (addPeerComposeService H tenantID) (\<lambda>_.
     joinNewChannel H tenantID)))))"

definition tenantprovision_main :: "'w host \<Rightarrow> string list \<Rightarrow> ('w disk, goerr, unit) act" where
  "tenantprovision_main H args = bindE (liftE (mustTenantID args)) (provision H)"

section \<open>Insertions\<close>

lemma index_of_split: "index_of s sub = Some i \<Longrightarrow> s = take i s @ sub @ drop (i + length sub) s"
proof (induction s arbitrary: i)
  case (Cons c s)
  show ?case
  proof (cases "has_prefix (c # s) sub")
    case True
    then show ?thesis using Cons.prems by (auto simp: has_prefix_iff prefix_def)
  next
    case False
    with Cons.prems obtain j where j: "index_of s sub = Some j" "i = Suc j" by auto
    with Cons.IH [OF j(1)] show ?thesis by simp
  qed
qed (auto split: if_splits)

lemma replace_first_inserts:
  assumes "subseq old new"
  shows "subseq s (replace_first old new s)"
proof (cases "index_of s old")
  case (Some i)
  have "subseq (take i s @ old @ drop (i + length old) s) (take i s @ new @ drop (i + length old) s)"
    using assms by (intro list_emb_append_mono) auto
  then show ?thesis using index_of_split [OF Some] Some by (simp add: replace_first_def)
qed (simp add: replace_first_def)

lemma insert_between: "subseq (a @ b) (a @ x @ b)"
proof -
  have "subseq (a @ [] @ b) (a @ x @ b)" by (intro list_emb_append_mono) auto
  then show ?thesis by simp
qed

lemma insert_at: "subseq s (take i s @ x @ drop i s)"
  using insert_between [of "take i s" "drop i s" x] by simp

lemma trim_prefix_inserts: "subseq m (t @ x @ trim_prefix m t)"
proof (cases "has_prefix m t")
  case True
  then obtain r where "m = t @ r" by (auto simp: has_prefix_iff prefix_def)
  then show ?thesis using insert_between [of t r x] by (simp add: trim_prefix_def has_prefix_def)
qed (auto simp: trim_prefix_def intro: list_emb_append2)

lemma add_service_inserts: "subseq content (add_service tenantID m content)"
proof -
  let ?t = "cut_heading (new_service_block tenantID m)"
  have "subseq content (replace_first m (?t @ nl @ nl @ trim_prefix m ?t) content)"
    by (rule replace_first_inserts) (use trim_prefix_inserts [of m ?t "nl @ nl"] in simp)
  also have "subseq \<dots> (add_service tenantID m content)"
    unfolding add_service_def Let_def by (rule replace_first_inserts) (rule prefix_imp_subseq, simp)
  finally show ?thesis .
qed

text \<open>The two shared configuration files, and what a state keeps of their text.\<close>

definition shared :: "string set" where
  "shared = {configtx_path, compose_path}"

definition grown :: "'w disk \<Rightarrow> 'w disk \<Rightarrow> bool" where
  "grown s s' \<longleftrightarrow> (\<forall>p\<in>shared. \<forall>c. snd s p = Some c \<longrightarrow> (\<exists>c'. snd s' p = Some c' \<and> subseq c c'))"

definition write_failed :: "goerr + 'a \<Rightarrow> bool" where
  "write_failed r \<longleftrightarrow> (\<exists>path err. r = Inl (wrap (''FATAL writing '' @ path) err))"

definition keeps_text :: "('w disk, goerr, 'a) act \<Rightarrow> 'w disk \<Rightarrow> bool" where
  "keeps_text m s \<longleftrightarrow> (case m s of (r, s') \<Rightarrow> grown s s' \<or> write_failed r)"

text \<open>The programs that are run leave the shared files alone: they write key material, genesis
  blocks and containers.\<close>

definition commands_keep_shared :: "'w host \<Rightarrow> bool" where
  "commands_keep_shared H \<longleftrightarrow> (\<forall>args s. \<forall>p\<in>shared. snd (snd (Exec H args s)) p = snd s p)"

lemma grown_refl [simp]: "grown s s"
  by (simp add: grown_def)

lemma grown_trans: "grown s t \<Longrightarrow> grown t u \<Longrightarrow> grown s u"
  unfolding grown_def by (meson subseq_order.trans)

lemma keeps_bind:
  assumes "keeps_text m s" and "\<And>x s'. m s = (Inr x, s') \<Longrightarrow> keeps_text (f x) s'"
  shows "keeps_text (bindE m f) s"
proof -
  obtain r s1 where m: "m s = (r, s1)" by (metis surj_pair)
  show ?thesis
  proof (cases r)
    case (Inl e)
    with m assms(1) show ?thesis by (simp add: keeps_text_def write_failed_def)
  next
    case (Inr x)
    with m assms(1) have "grown s s1" by (simp add: keeps_text_def write_failed_def)
    moreover from Inr m assms(2) have "keeps_text (f x) s1" by simp
    ultimately show ?thesis using Inr m by (auto simp: keeps_text_def bindE_def intro: grown_trans)
  qed
qed

text \<open>Actions that do not touch the shared files at all.\<close>

definition same_shared :: "'w disk \<Rightarrow> 'w disk \<Rightarrow> bool" where
  "same_shared s s' \<longleftrightarrow> (\<forall>p\<in>shared. snd s' p = snd s p)"

definition still :: "('w disk, goerr, 'a) act \<Rightarrow> 'w disk \<Rightarrow> bool" where
  "still m s \<longleftrightarrow> same_shared s (snd (m s))"

lemma stillD: "still m s \<Longrightarrow> m s = (r, s') \<Longrightarrow> same_shared s s'"
  by (simp add: still_def)

lemma still_keeps: "still m s \<Longrightarrow> keeps_text m s"
  by (auto simp: still_def same_shared_def keeps_text_def grown_def split: prod.splits)

lemma still_bind:
  assumes "still m s" and "\<And>x s'. m s = (Inr x, s') \<Longrightarrow> still (f x) s'"
  shows "still (bindE m f) s"
proof -
  obtain r s1 where m: "m s = (r, s1)" by (metis surj_pair)
  then show ?thesis using assms by (cases r) (auto simp: still_def same_shared_def bindE_def)
qed

lemma still_pure: "still (returnE x) s" "still (throwE e) s" "still (liftE v) s" "still (readFile p) s"
  by (simp_all add: still_def same_shared_def readFile_def split: option.split)

lemma still_mapErr_liftE: "still (mapErr w (liftE v)) s"
  by (simp add: still_def same_shared_def mapErr_def split: sum.split)

lemma still_exec: "commands_keep_shared H \<Longrightarrow> same_shared s (snd (Exec H args s))"
  unfolding commands_keep_shared_def same_shared_def by blast

lemma still_run: "commands_keep_shared H \<Longrightarrow> still (run H step args) s"
  using still_exec [of H s args] by (auto simp: still_def run_def must_run_def split: prod.split option.split)

lemma still_join_peer:
  assumes "commands_keep_shared H"
  shows "still (join_peer H b p) s"
proof -
  have "\<exists>args. snd (join_peer H b p s) = snd (Exec H args s)"
    unfolding join_peer_def by (auto split: prod.split option.split) (metis snd_conv)+
  with still_exec [OF assms] show ?thesis unfolding still_def by metis
qed

lemma still_write: "path \<notin> shared \<Longrightarrow> still (writeFile H path content) s"
  by (auto simp: still_def same_shared_def writeFile_def split: option.split)

lemma keeps_write:
  assumes "path \<in> shared \<Longrightarrow> \<exists>c. snd s path = Some c \<and> subseq c content"
  shows "keeps_text (writeFile H path content) s"
proof (cases "WriteFault H path content (fst s)")
  case None
  with assms show ?thesis by (auto simp: keeps_text_def writeFile_def grown_def)
next
  case (Some f)
  then show ?thesis by (cases f) (auto simp: keeps_text_def writeFile_def write_failed_def)
qed

lemma fragment_not_shared: "fragment_path t \<notin> shared"
  by (simp add: shared_def fragment_path_def configtx_path_def compose_path_def)

lemma still_crypto:
  assumes "commands_keep_shared H"
  shows "still (genCryptoMaterial H t) s"
proof -
  have "still (bindE (writeFile H (fragment_path t) c) (\<lambda>_. bindE (mustAbs H networkDir) (\<lambda>abs.
      bindE (run H st (args abs)) (\<lambda>_. returnE ())))) s" for c st args
    unfolding mustAbs_def
    by (intro still_bind still_write still_run still_pure still_mapErr_liftE fragment_not_shared assms)
  then show ?thesis by (simp add: genCryptoMaterial_def still_def same_shared_def)
qed

lemma still_block: "commands_keep_shared H \<Longrightarrow> still (genChannelBlock H t n) s"
  unfolding genChannelBlock_def Let_def mustAbs_def
  by (intro still_bind still_run still_pure still_mapErr_liftE)

lemma still_osn: "commands_keep_shared H \<Longrightarrow> still (osn_joins H c b ods) s"
proof (induction ods arbitrary: s)
  case (Cons od ods)
  then show ?case by (simp only: osn_joins.simps dockerExecTools_def) (intro still_bind still_run; simp)
qed (simp only: osn_joins.simps still_pure)

lemma still_peer_joins: "commands_keep_shared H \<Longrightarrow> still (peer_joins H b ps) s"
proof (induction ps arbitrary: s)
  case (Cons p ps)
  then show ?case by (simp only: peer_joins.simps) (intro still_bind still_join_peer; simp)
qed (simp only: peer_joins.simps still_pure)

lemma still_join: "commands_keep_shared H \<Longrightarrow> still (joinNewChannel H t) s"
proof -
  assume H: "commands_keep_shared H"
  have "still (if b then throwE e else returnE ()) s" for b e s by (simp add: still_pure)
  then show ?thesis unfolding joinNewChannel_def Let_def dockerExecTools_def
    by (intro still_bind still_osn still_peer_joins still_run H)
qed

lemma readFile_Inr: "readFile p s = (Inr c, s') \<Longrightarrow> s' = s \<and> snd s p = Some c"
  by (auto simp: readFile_def split: option.splits)

lemma keeps_profile: "keeps_text (add_profile H t title c) s"
proof -
  have w: "keeps_text (writeFile H configtx_path (take i x @ y @ nl @ drop i x)) s'" if "snd s' configtx_path = Some x" for i x y s'
    using that insert_at [of x i "y @ nl"] by (intro keeps_write) simp
  show ?thesis unfolding add_profile_def
    by (auto intro!: keeps_bind still_pure [THEN still_keeps] w dest!: readFile_Inr split: option.split)
qed

lemma keeps_org:
  assumes "snd s configtx_path = Some content"
  shows "keeps_text (add_org H t title content) s"
proof -
  have "subseq content (replace_first m (new_org_block t title m @ nl @ m) content)" for m
    by (rule replace_first_inserts) (simp add: list_emb_append2)
  then show ?thesis using assms unfolding add_org_def Let_def
    by (auto intro!: keeps_bind still_pure [THEN still_keeps] keeps_write split: option.split)
qed

lemma keeps_configtx: "keeps_text (addConfigtxOrgAndProfile H t) s"
  unfolding addConfigtxOrgAndProfile_def
  by (intro keeps_bind keeps_org keeps_profile still_keeps [OF still_pure(4)] still_keeps [OF still_pure(3)])
    (auto dest!: readFile_Inr)

lemma keeps_compose:
  assumes "commands_keep_shared H"
  shows "keeps_text (addPeerComposeService H t) s"
proof -
  have w: "keeps_text (writeFile H compose_path (add_service t m c)) s'" if "snd s' compose_path = Some c" for m c s'
    using that add_service_inserts by (intro keeps_write) blast
  show ?thesis unfolding addPeerComposeService_def Let_def
    by (auto intro!: keeps_bind still_run [OF assms, THEN still_keeps] still_pure [THEN still_keeps] w
        dest!: readFile_Inr split: option.split)
qed

lemma keeps_provision: "commands_keep_shared H \<Longrightarrow> keeps_text (provision H t) s"
  unfolding provision_def
  by (intro keeps_bind keeps_configtx keeps_compose still_keeps [OF still_crypto] still_keeps [OF still_pure(3)]
      still_keeps [OF still_block] still_keeps [OF still_join])

section \<open>Running the tool again\<close>

text \<open>The condition on the network's own files: tenant01's organisation block defines tenant01's anchor.
  The condition on the identifier: it holds no character that begins the insertion marker, a port
  mapping or a new line. (An identifier of the form tenantNN holds none.)\<close>

definition tenant01_anchored :: "'w disk \<Rightarrow> bool" where
  "tenant01_anchored s \<longleftrightarrow>
     (\<forall>c m. snd s configtx_path = Some c \<and> org_block c = Some m \<longrightarrow> contains m ''&OrgClientTenant01'')"

definition plain_id :: "string \<Rightarrow> bool" where
  "plain_id t \<longleftrightarrow> CHR ''#'' \<notin> set t \<and> CHR 0x22 \<notin> set t \<and> CHR 0x0A \<notin> set t"

definition configured :: "string \<Rightarrow> string \<Rightarrow> 'w disk \<Rightarrow> bool" where
  "configured t title s \<longleftrightarrow>
     (\<exists>c. snd s configtx_path = Some c \<and> contains c (''&OrgClient'' @ title) \<and> contains c (title @ ''ChannelGenesis:''))"

definition served :: "string \<Rightarrow> 'w disk \<Rightarrow> bool" where
  "served t s \<longleftrightarrow> (\<exists>c. snd s compose_path = Some c \<and> contains c (''peer0.'' @ t @ '':'' @ nl))"

lemma contains_append: "contains a w \<or> contains b w \<Longrightarrow> contains (a @ b) w"
  by (auto simp: contains_iff_sublist sublist_append)

lemma contains_insert:
  assumes "contains (a @ c # b) w" and "c \<notin> set w"
  shows "contains (a @ x @ c # b) w"
proof -
  from assms(1) consider "sublist w a" | "sublist w (c # b)"
    | u v where "w = u @ v" "suffix u a" "prefix v (c # b)"
    unfolding contains_iff_sublist sublist_append by blast
  then show ?thesis
  proof cases
    case 3
    with assms(2) have "v = []" by (auto simp: prefix_Cons)
    with 3 have "contains a w" by (simp add: contains_iff_sublist)
    then show ?thesis by (intro contains_append disjI1)
  next
    case 1
    then show ?thesis by (intro contains_append disjI1) (simp add: contains_iff_sublist)
  next
    case 2
    then show ?thesis by (intro contains_append disjI2) (simp add: contains_iff_sublist)
  qed
qed

lemma upper_byte_range: "d \<in> set (upper_byte c) \<Longrightarrow> d = c \<or> 65 \<le> (of_char d :: nat)"
  by (auto simp: upper_byte_def Let_def split: if_splits)

lemma title_no_hash: "titleTenant t = Inr title \<Longrightarrow> CHR ''#'' \<notin> set t \<Longrightarrow> CHR ''#'' \<notin> set title"
proof -
  assume a: "titleTenant t = Inr title" "CHR ''#'' \<notin> set t"
  then have l: "\<not> length t < 7" and title: "title = ''Tenant'' @ upper_byte (t ! 6) @ drop 7 t"
    by (auto simp: titleTenant_def split: if_splits)
  have "t ! 6 \<in> set t" by (rule nth_mem) (use l in simp)
  with a(2) have "t ! 6 \<noteq> CHR ''#''" by metis
  then have "CHR ''#'' \<notin> set (upper_byte (t ! 6))"
    using upper_byte_range [of "CHR ''#''" "t ! 6"] by auto
  then show ?thesis using a(2) title by (auto dest: in_set_dropD)
qed

lemma paths_differ [simp]: "configtx_path \<noteq> compose_path" "compose_path \<noteq> configtx_path"
  by (simp_all add: configtx_path_def compose_path_def)

lemma paths_shared [simp]: "configtx_path \<in> shared" "compose_path \<in> shared"
  by (simp_all add: shared_def)

lemma same_sharedD: "same_shared s s' \<Longrightarrow> snd s' configtx_path = snd s configtx_path"
  "same_shared s s' \<Longrightarrow> snd s' compose_path = snd s compose_path"
  by (simp_all add: same_shared_def)

lemma writeFile_Inr: "writeFile H p c s = (Inr u, s') \<Longrightarrow> s' = (fst s, (snd s)(p \<mapsto> c))"
  by (auto simp: writeFile_def split: option.splits)

lemma replace_first_contains:
  assumes "contains new w" and "index_of s old \<noteq> None"
  shows "contains (replace_first old new s) w"
  using assms by (auto simp: replace_first_def intro!: contains_append)

lemma find_between_found: "find_between a b s = Some m \<Longrightarrow> contains s m"
proof -
  assume "find_between a b s = Some m"
  then obtain i j where ij: "index_of s a = Some i" "index_of (drop (i + length a) s) b = Some j"
    "m = a @ take j (drop (i + length a) s) @ b"
    by (auto simp: find_between_def Let_def split: option.splits)
  let ?r = "drop (i + length a) s"
  have "s = take i s @ a @ take j ?r @ b @ drop (j + length b) ?r"
    using index_of_split [OF ij(1)] index_of_split [OF ij(2)] by (metis append.assoc)
  then have "s = take i s @ m @ drop (j + length b) ?r" using ij(3) by simp
  then show ?thesis by (metis contains_infix)
qed

text \<open>What \<open>ReplaceAll\<close> does to a text that is read from the left.\<close>

lemma replace_all_Cons:
  assumes "old \<noteq> []" and "\<not> has_prefix (c # s) old"
  shows "replace_all old new (c # s) = c # replace_all old new s"
  using assms by (simp add: replace_all.simps [of _ _ "c # s"] replace_all.simps [of _ _ s] split: option.split)

lemma replace_all_match:
  assumes "old \<noteq> []"
  shows "replace_all old new (old @ s) = new @ replace_all old new s"
proof -
  have "index_of (old @ s) old = Some 0" using assms by (cases old) (simp_all add: has_prefix_iff)
  with assms show ?thesis by (subst replace_all.simps) simp
qed

lemma replace_all_Nil: "old \<noteq> [] \<Longrightarrow> replace_all old new [] = []"
  by (subst replace_all.simps) simp

lemma replace_all_skip:
  assumes "old \<noteq> []" and "hd old \<notin> set x"
  shows "replace_all old new (x @ y) = x @ replace_all old new y"
  using assms(2)
proof (induction x)
  case (Cons c x)
  then have "\<not> has_prefix (c # x @ y) old" using assms(1) by (cases old) (auto simp: has_prefix_iff)
  then show ?case using Cons assms(1) by (simp add: replace_all_Cons)
qed simp

text \<open>A character that is not in the pattern separates what is before it from what is after it.\<close>

lemma replace_all_split:
  assumes "old \<noteq> []" and "c \<notin> set old"
  shows "replace_all old new (x @ c # y) = replace_all old new x @ c # replace_all old new y"
proof (induction x rule: length_induct)
  case (1 x)
  show ?case
  proof (cases "has_prefix (x @ c # y) old")
    case True
    then obtain z where z: "x @ c # y = old @ z" by (auto simp: has_prefix_iff prefix_def)
    have "length old \<le> length x"
    proof (rule ccontr)
      assume "\<not> length old \<le> length x"
      then have "c = old ! length x" using z by (metis linorder_not_le nth_append nth_append_length)
      with assms(2) \<open>\<not> length old \<le> length x\<close> show False by simp
    qed
    then obtain x' where x: "x = old @ x'" using z
      by (metis append_eq_append_conv_if append_eq_conv_conj append_take_drop_id)
    with assms(1) 1 have "replace_all old new (x' @ c # y) = replace_all old new x' @ c # replace_all old new y" by auto
    then show ?thesis using assms(1) by (simp add: x replace_all_match)
  next
    case False
    show ?thesis
    proof (cases x)
      case Nil
      with False assms(1) show ?thesis by (simp add: replace_all_Cons replace_all_Nil)
    next
      case (Cons d x')
      with 1 have ih: "replace_all old new (x' @ c # y) = replace_all old new x' @ c # replace_all old new y" by simp
      have "\<not> has_prefix (d # x') old" using False Cons by (metis append_Cons has_prefix_iff prefix_prefix)
      with False Cons ih assms(1) show ?thesis by (simp add: replace_all_Cons)
    qed
  qed
qed

text \<open>tenant01's organisation block becomes a block with the new tenant's anchor.\<close>

lemma contains_before:
  assumes "contains (x @ c # y) (d # w)" and "c \<notin> set (d # w)" and "d \<notin> set (c # y)"
  shows "contains x (d # w)"
proof -
  from assms(1) consider "sublist (d # w) x" | "sublist (d # w) (c # y)"
    | u v where "d # w = u @ v" "suffix u x" "prefix v (c # y)"
    unfolding contains_iff_sublist sublist_append by blast
  then show ?thesis
  proof cases
    case 2
    then have "d \<in> set (c # y)" by (metis list.set_intros(1) set_mono_sublist subsetD)
    with assms(3) show ?thesis by simp
  next
    case 3
    with assms(2) have "v = []" by (auto simp: prefix_Cons)
    with 3 show ?thesis by (simp add: contains_iff_sublist)
  qed (simp add: contains_iff_sublist)
qed

lemma org_block_shape:
  assumes "org_block c = Some m" and "contains m ''&OrgClientTenant01''"
  obtains p q where "m = p @ ''&OrgClientTenant01'' @ q @ nl @ nl @ ''  # --- Org3:''"
proof -
  from assms(1) obtain x where m: "m = x @ CHR 0x0A # (nl @ ''  # --- Org3:'')"
    by (auto simp: org_block_def find_between_def Let_def nl_def split: option.splits)
  have "contains x ''&OrgClientTenant01''"
    by (rule contains_before [OF assms(2) [unfolded m]]) (simp_all add: nl_def)
  then obtain p q where "x = p @ ''&OrgClientTenant01'' @ q" by (auto simp: contains_iff_sublist sublist_def)
  then show ?thesis by (intro that [of p q]) (simp add: m nl_def)
qed

lemma org_tail_kept:
  assumes "old \<noteq> []" and "CHR 0x0A \<notin> set old" and "hd old \<notin> set ''  # --- Org3:''"
  shows "replace_all old new (q @ nl @ nl @ ''  # --- Org3:'') = replace_all old new q @ nl @ nl @ ''  # --- Org3:''"
proof -
  let ?y = "nl @ ''  # --- Org3:''"
  have "hd old \<notin> set ?y" using assms by (cases old) (auto simp: nl_def)
  then have "replace_all old new ?y = ?y"
    using replace_all_skip [OF assms(1), of ?y new "[]"] replace_all_Nil [OF assms(1)] by simp
  with replace_all_split [OF assms(1,2), of new q ?y] show ?thesis by (simp add: nl_def)
qed

lemma first_substitution:
  "replace_all ''tenant01'' t (p @ ''&OrgClientTenant01'' @ q @ nl @ nl @ ''  # --- Org3:'')
     = replace_all ''tenant01'' t p @ ''&OrgClientTenant01'' @ replace_all ''tenant01'' t q @ nl @ nl @ ''  # --- Org3:''"
proof -
  let ?r = "q @ nl @ nl @ ''  # --- Org3:''"
  have "replace_all ''tenant01'' t (''OrgClientTenant01'' @ ?r) = ''OrgClientTenant01'' @ replace_all ''tenant01'' t ?r"
    by (simp add: replace_all_Cons has_prefix_iff)
  with replace_all_split [of "''tenant01''" "CHR ''&''" t p "''OrgClientTenant01'' @ ?r"]
    org_tail_kept [of "''tenant01''" t q] show ?thesis by simp
qed

lemma second_substitution:
  "replace_all ''Tenant01'' title (p @ ''&OrgClientTenant01'' @ q @ nl @ nl @ ''  # --- Org3:'')
     = replace_all ''Tenant01'' title p @ ''&OrgClient'' @ title @ replace_all ''Tenant01'' title q @ nl @ nl @ ''  # --- Org3:''"
proof -
  let ?r = "q @ nl @ nl @ ''  # --- Org3:''"
  have "replace_all ''Tenant01'' title (''OrgClient'' @ ''Tenant01'' @ ?r)
      = ''OrgClient'' @ title @ replace_all ''Tenant01'' title ?r"
    by (subst replace_all_skip) (simp_all only: replace_all_match list.distinct simp_thms not_Cons_self2, simp_all)
  with replace_all_split [of "''Tenant01''" "CHR ''&''" title p "''OrgClientTenant01'' @ ?r"]
    org_tail_kept [of "''Tenant01''" title q] show ?thesis by simp
qed

lemma new_org_block_anchored:
  assumes "org_block c = Some m" and "contains m ''&OrgClientTenant01''"
  shows "contains (new_org_block t title m) (''&OrgClient'' @ title)"
proof -
  obtain p q where m: "m = p @ ''&OrgClientTenant01'' @ q @ nl @ nl @ ''  # --- Org3:''"
    by (rule org_block_shape [OF assms])
  obtain p' q' where "replace_all ''Tenant01'' title (replace_all ''tenant01'' t m)
      = (p' @ (''&OrgClient'' @ title) @ (q' @ nl @ nl)) @ ''  # --- Org3:''"
    unfolding m first_substitution second_substitution append.assoc by blast
  then have "new_org_block t title m = p' @ (''&OrgClient'' @ title) @ (q' @ nl @ nl)"
    unfolding new_org_block_def by (simp only: trim_suffix_append)
  then show ?thesis by (simp only: contains_infix)
qed

text \<open>tenant01's service block becomes a block of the new tenant's service.\<close>

lemma service_block_shape:
  assumes "service_block c = Some m"
  obtains q where "m = ''  peer0.tenant01:'' @ nl @ q" and "index_of c m \<noteq> None"
proof -
  let ?a = "''  peer0.tenant01:'' @ nl"
  from assms obtain i k where i: "index_of c ?a = Some i" and m: "m = ?a @ take k (drop (i + length ?a) c)"
    unfolding service_block_def Let_def by (auto split: option.splits)
  have "c = take i c @ ?a @ drop (i + length ?a) c" by (rule index_of_split [OF i])
  also have "\<dots> = take i c @ m @ drop k (drop (i + length ?a) c)" unfolding m by (simp only: append.assoc append_take_drop_id)
  finally have "contains c m" by (metis contains_infix)
  then show ?thesis by (intro that [of "take k (drop (i + length ?a) c)"]) (simp_all only: m append.assoc contains_def simp_thms)
qed

lemma new_service_block_shape:
  assumes "plain_id t"
  shows "\<exists>z. new_service_block t (''  peer0.tenant01:'' @ nl @ q) = (''  peer0.'' @ t) @ '':'' @ nl @ z"
proof -
  let ?x = "''  peer0.'' @ t @ '':'' @ nl"
  have sub: "replace_all ''tenant01'' t (''tenant01'' @ y) = t @ replace_all ''tenant01'' t y" for y
    by (rule replace_all_match) simp
  have skip: "replace_all ''tenant01'' t (v @ y) = v @ replace_all ''tenant01'' t y" if "CHR ''t'' \<notin> set v" for v y
    by (rule replace_all_skip) (use that in simp_all)
  have "replace_all ''tenant01'' t (''  peer0.'' @ ''tenant01'' @ ('':'' @ nl) @ q) = ?x @ replace_all ''tenant01'' t q"
    using skip [of "''  peer0.''" "''tenant01'' @ ('':'' @ nl) @ q"] sub [of "('':'' @ nl) @ q"] skip [of "'':'' @ nl" q]
    by (simp add: nl_def)
  moreover have "replace_all (port_map a b) n (?x @ y) = ?x @ replace_all (port_map a b) n y" for a b n y
    by (rule replace_all_skip) (use assms in \<open>auto simp: port_map_def dq_def nl_def plain_id_def\<close>)
  ultimately show ?thesis unfolding new_service_block_def by auto
qed

lemma first_match_Some: "first_match f s = Some (i, n) \<Longrightarrow> f (drop i s) = Some n"
  by (induction s arbitrary: i) (auto split: option.splits)

lemma rule_match_whole:
  assumes "rule_match p q s = Some (length s)"
  shows "set s \<subseteq> set p \<union> {CHR ''=''} \<union> set q"
proof -
  define r where "r = drop (length p) s"
  define e where "e = takeWhile (\<lambda>c. c = CHR ''='') r"
  from assms have p: "has_prefix s p" and q: "has_prefix (drop (length e) r) q" and n: "length s = length p + length e + length q"
    by (auto simp: rule_match_def Let_def r_def e_def split: if_splits)
  have s: "s = p @ r" using p by (auto simp: has_prefix_iff prefix_def r_def)
  have r: "r = e @ drop (length e) r" unfolding e_def by (metis dropWhile_eq_drop takeWhile_dropWhile_id)
  obtain z where z: "drop (length e) r = q @ z" using q by (auto simp: has_prefix_iff prefix_def)
  then have "length r = length e + length q + length z" using r by (metis add.assoc length_append)
  then have "z = []" using n s by simp
  then have "s = p @ e @ q" using s r z by simp
  moreover have "set e \<subseteq> {CHR ''=''}" unfolding e_def by (auto dest: set_takeWhileD)
  ultimately show ?thesis by auto
qed

lemma cut_heading_keeps:
  "\<exists>z. cut_heading (u @ '':'' @ nl @ z0) @ nl = u @ '':'' @ nl @ z"
proof -
  let ?s = "u @ '':'' @ nl @ z0"
  let ?f = "\<lambda>t. case rule_match (nl @ ''  # '') (nl @ ''  # Org3'') t of Some n \<Rightarrow> if n = length t then Some n else None | None \<Rightarrow> None"
  show ?thesis
  proof (cases "first_match ?f ?s")
    case None
    then show ?thesis by (simp add: cut_heading_def)
  next
    case (Some k)
    then obtain i n where k: "first_match ?f ?s = Some (i, n)" by (cases k) auto
    from first_match_Some [OF k] have "rule_match (nl @ ''  # '') (nl @ ''  # Org3'') (drop i ?s) = Some (length (drop i ?s))"
      by (auto split: option.splits if_splits)
    from rule_match_whole [OF this] have "CHR '':'' \<notin> set (drop i ?s)" by (auto simp: nl_def)
    then have "\<not> i \<le> length u" by (auto simp: drop_append)
    then obtain j where "i = length u + 1 + j" by (metis add.commute less_iff_Suc_add not_le plus_1_eq_Suc add_Suc_right add_Suc)
    then have "cut_heading ?s = u @ '':'' @ take j (nl @ z0)" using k by (simp add: cut_heading_def)
    then show ?thesis by (cases j) (simp_all add: nl_def)
  qed
qed

lemma contains_insert_after:
  assumes "contains (a @ b) w" and "a \<noteq> []" and "last a \<notin> set (butlast w)"
  shows "contains (a @ x @ b) w"
proof -
  from assms(1) consider "sublist w a" | "sublist w b" | u v where "w = u @ v" "suffix u a" "prefix v b"
    unfolding contains_iff_sublist sublist_append by blast
  then show ?thesis
  proof cases
    case 3
    show ?thesis
    proof (cases "u = [] \<or> v = []")
      case True
      with 3 have "sublist w a \<or> sublist w b" by (auto intro: suffix_imp_sublist prefix_imp_sublist)
      then show ?thesis using contains_append [of a w "x @ b"] contains_append [of x w b] by (auto simp: contains_iff_sublist)
    next
      case False
      with 3 have "last a = last u" by (metis append_is_Nil_conv last_appendR suffix_def)
      moreover have "last u \<in> set (butlast w)" using False 3(1) by (simp add: butlast_append)
      ultimately show ?thesis using assms(3) by simp
    qed
  qed (use contains_append [of a w "x @ b"] contains_append [of x w b] in \<open>auto simp: contains_iff_sublist\<close>)
qed

lemma add_service_names:
  assumes "plain_id t" and "service_block c = Some m"
  shows "contains (add_service t m c) (''peer0.'' @ t @ '':'' @ nl)"
proof -
  let ?w = "''peer0.'' @ t @ '':'' @ nl" and ?trimmed = "cut_heading (new_service_block t m)"
  let ?ledger = "''  peer0-tenant01-ledger:'' @ nl" and ?ins = "''  peer0-'' @ t @ ''-ledger:'' @ nl"
  let ?c1 = "replace_first m (?trimmed @ nl @ nl @ trim_prefix m ?trimmed) c"
  obtain q where m: "m = ''  peer0.tenant01:'' @ nl @ q" and idx: "index_of c m \<noteq> None"
    by (rule service_block_shape [OF assms(2)])
  obtain z where "?trimmed @ nl = (''  peer0.'' @ t) @ '':'' @ nl @ z"
    using new_service_block_shape [OF assms(1), of q] cut_heading_keeps [of "''  peer0.'' @ t"] unfolding m by metis
  then have "?trimmed @ nl @ nl @ trim_prefix m ?trimmed = ''  '' @ ?w @ (z @ nl @ trim_prefix m ?trimmed)"
    by (metis append.assoc append_Cons append_Nil)
  then have "contains (?trimmed @ nl @ nl @ trim_prefix m ?trimmed) ?w" by (metis contains_infix)
  then have c1: "contains ?c1 ?w" using idx by (rule replace_first_contains)
  have "contains (replace_first ?ledger (?ledger @ ?ins) ?c1) ?w"
  proof (cases "index_of ?c1 ?ledger")
    case None
    with c1 show ?thesis by (simp add: replace_first_def)
  next
    case (Some k)
    have "contains ((take k ?c1 @ ?ledger) @ drop (k + length ?ledger) ?c1) ?w"
      using c1 index_of_split [OF Some] by (metis append.assoc)
    then have "contains ((take k ?c1 @ ?ledger) @ ?ins @ drop (k + length ?ledger) ?c1) ?w"
      by (rule contains_insert_after) (use assms(1) in \<open>auto simp: nl_def plain_id_def butlast_append\<close>)
    then show ?thesis using Some by (simp only: replace_first_def option.case append.assoc)
  qed
  then show ?thesis by (simp only: add_service_def Let_def append.assoc)
qed

lemma add_org_result:
  assumes "snd s configtx_path = Some c" and "tenant01_anchored s" and "add_org H t title c s = (Inr c', s')"
  shows "snd s' configtx_path = Some c' \<and> contains c' (''&OrgClient'' @ title) \<and> snd s' compose_path = snd s compose_path"
proof (cases "contains c (''&OrgClient'' @ title)")
  case True
  with assms show ?thesis by (simp add: add_org_def)
next
  case False
  with assms(3) obtain m where m: "org_block c = Some m"
    and w: "writeFile H configtx_path c' s = (Inr (), s')"
    and c': "c' = replace_first m (new_org_block t title m @ nl @ m) c"
    by (auto simp: add_org_def Let_def split: option.splits elim!: bindE_InrE)
  have "contains (new_org_block t title m @ nl @ m) (''&OrgClient'' @ title)"
    using assms(1,2) m new_org_block_anchored [OF m] by (auto simp: tenant01_anchored_def intro: contains_append)
  moreover have "index_of c m \<noteq> None" using find_between_found m unfolding org_block_def contains_def by blast
  ultimately have "contains c' (''&OrgClient'' @ title)" unfolding c' by (rule replace_first_contains)
  with writeFile_Inr [OF w] show ?thesis by simp
qed

lemma text_lines_Cons: "text_lines (l # ls) = l @ nl @ text_lines ls"
  by (simp add: text_lines_def)

lemma new_profile_names: "contains (new_profile t title) (title @ ''ChannelGenesis:'')"
proof -
  obtain ls where "new_profile t title = nl @ text_lines ((''  '' @ title @ ''ChannelGenesis:'') # ls)"
    unfolding new_profile_def by blast
  then have "new_profile t title = (nl @ ''  '') @ (title @ ''ChannelGenesis:'') @ (nl @ text_lines ls)"
    by (simp only: text_lines_Cons append.assoc)
  then show ?thesis by (simp only: contains_infix)
qed

lemma add_profile_result:
  assumes "snd s configtx_path = Some c" and "contains c (''&OrgClient'' @ title)" and "CHR ''#'' \<notin> set title"
    and "add_profile H t title c s = (Inr (), s')"
  shows "configured t title s' \<and> snd s' compose_path = snd s compose_path"
proof (cases "contains c (title @ ''ChannelGenesis:'')")
  case True
  with assms show ?thesis by (simp add: add_profile_def configured_def)
next
  case False
  with assms(1,4) obtain i where i: "index_of c insert_marker = Some i"
    and w: "writeFile H configtx_path (take i c @ new_profile t title @ nl @ drop i c) s = (Inr (), s')"
    by (auto simp: add_profile_def readFile_def split: option.splits elim!: bindE_InrE)
  let ?c = "take i c @ new_profile t title @ nl @ drop i c"
  obtain r where r: "drop i c = CHR ''#'' # r"
  proof -
    have "drop i c = insert_marker @ drop (i + length insert_marker) c"
      using index_of_split [OF i] by (metis append_take_drop_id same_append_eq)
    then show ?thesis using that by (simp add: insert_marker_def)
  qed
  have "contains (take i c @ CHR ''#'' # r) (''&OrgClient'' @ title)" using assms(2) r by (metis append_take_drop_id)
  then have "contains ?c (''&OrgClient'' @ title)"
    using contains_insert [of "take i c" "CHR ''#''" r "''&OrgClient'' @ title" "new_profile t title @ nl"] assms(3) r by simp
  moreover have "contains ?c (title @ ''ChannelGenesis:'')" by (intro contains_append disjI1 disjI2 new_profile_names)
  ultimately show ?thesis using writeFile_Inr [OF w] by (simp add: configured_def)
qed

lemma configtx_result:
  assumes "tenant01_anchored s" and "plain_id t" and "titleTenant t = Inr title" and "addConfigtxOrgAndProfile H t s = (Inr (), s')"
  shows "configured t title s' \<and> snd s' compose_path = snd s compose_path"
proof -
  from assms(3,4) obtain c c' s1 where c: "snd s configtx_path = Some c"
    and o: "add_org H t title c s = (Inr c', s1)" and p: "add_profile H t title c' s1 = (Inr (), s')"
    unfolding addConfigtxOrgAndProfile_def by (auto elim!: bindE_InrE dest!: readFile_Inr)
  have "CHR ''#'' \<notin> set title" using title_no_hash [OF assms(3)] assms(2) by (simp add: plain_id_def)
  with add_org_result [OF c assms(1) o] add_profile_result [OF _ _ _ p] show ?thesis by simp
qed

lemma compose_result:
  assumes "commands_keep_shared H" and "plain_id t" and "addPeerComposeService H t s = (Inr (), s')"
  shows "served t s' \<and> snd s' configtx_path = snd s configtx_path"
proof -
  let ?n = "''peer0.'' @ t @ '':'' @ nl"
  let ?add = "\<lambda>c. if contains c ?n then returnE ()
    else case service_block c of
           None \<Rightarrow> throwE (Plain (''FATAL: could not locate peer0.tenant01'' @ sq @ ''s compose block''))
         | Some m \<Rightarrow> writeFile H compose_path (add_service t m c)"
  from assms(3) obtain c s1 args step out s2 where c: "snd s compose_path = Some c" and a: "?add c s = (Inr (), s1)"
    and r: "run H step args s1 = (Inr out, s2)" and s': "s' = s2"
    unfolding addPeerComposeService_def Let_def append.assoc
    by (elim bindE_InrE) (drule readFile_Inr, simp)
  have "served t s1 \<and> snd s1 configtx_path = snd s configtx_path"
  proof (cases "contains c ?n")
    case True
    with a c show ?thesis by (simp add: served_def)
  next
    case False
    with a obtain m where m: "service_block c = Some m" and w: "writeFile H compose_path (add_service t m c) s = (Inr (), s1)"
      by (auto split: option.splits)
    have "contains (add_service t m c) ?n" by (rule add_service_names [OF assms(2) m])
    then show ?thesis using writeFile_Inr [OF w] by (simp add: served_def)
  qed
  with stillD [OF still_run [OF assms(1)] r] s' show ?thesis by (simp add: served_def same_sharedD)
qed

lemma provision_result:
  assumes "commands_keep_shared H" and "titleTenant t = Inr title" and "plain_id t" and "tenant01_anchored s"
    and "provision H t s = (Inr (), s')"
  shows "configured t title s' \<and> served t s'"
proof -
  note H = assms(1)
  from assms(2,5) obtain u s1 u2 s2 u3 s3 u4 s4 where g: "genCryptoMaterial H t s = (Inr u, s1)"
    and a: "addConfigtxOrgAndProfile H t s1 = (Inr u2, s2)"
    and b: "genChannelBlock H t (title @ ''ChannelGenesis'') s2 = (Inr u3, s3)"
    and p: "addPeerComposeService H t s3 = (Inr u4, s4)" and j: "joinNewChannel H t s4 = (Inr (), s')"
    unfolding provision_def by (auto elim!: bindE_InrE)
  note sg = same_sharedD [OF stillD [OF still_crypto [OF H] g]] and sb = same_sharedD [OF stillD [OF still_block [OF H] b]]
    and sj = same_sharedD [OF stillD [OF still_join [OF H] j]]
  have "tenant01_anchored s1" using assms(4) unfolding tenant01_anchored_def sg .
  then have c: "configured t title s2" using configtx_result [OF _ assms(3,2), of s1 H s2] a by auto
  have "served t s4 \<and> snd s4 configtx_path = snd s3 configtx_path"
    using compose_result [OF H assms(3), of s3 s4] p by auto
  with c sb sj show ?thesis by (simp add: configured_def served_def)
qed

lemma provision_again:
  assumes "commands_keep_shared H" and "titleTenant t = Inr title" and "configured t title s" and "served t s"
  shows "still (provision H t) s"
proof -
  note H = assms(1)
  have a: "still (addConfigtxOrgAndProfile H t) s1" if "configured t title s1" for s1
    using that assms(2) by (auto simp: configured_def addConfigtxOrgAndProfile_def add_org_def add_profile_def readFile_def
        bindE_def still_def same_shared_def)
  have p: "still (addPeerComposeService H t) s1" if "served t s1" for s1
  proof -
    from that obtain c where c: "snd s1 compose_path = Some c" "contains c (''peer0.'' @ t @ '':'' @ nl)"
      by (auto simp: served_def)
    have "addPeerComposeService H t s1 = bindE (run H (''docker compose up '' @ ''peer0.'' @ t)
        [''docker'', ''compose'', ''-f'', compose_path, ''up'', ''-d'', ''peer0.'' @ t]) (\<lambda>_. returnE ()) s1"
      using c by (simp add: addPeerComposeService_def readFile_def bindE_def Let_def)
    moreover have "still (bindE (run H st as) (\<lambda>_. returnE ())) s1" for st as
      by (intro still_bind still_run H still_pure)
    ultimately show ?thesis by (simp add: still_def)
  qed
  define J where "J s1 \<longleftrightarrow> configured t title s1 \<and> served t s1" for s1 :: "'a disk"
  have J: "J s2" if "J s1" "same_shared s1 s2" for s1 s2
    using that by (simp add: J_def configured_def served_def same_sharedD)
  have seq: "still (bindE m f) s1" if "\<And>s. J s \<Longrightarrow> still m s" "\<And>x s. J s \<Longrightarrow> still (f x) s" "J s1"
    for s1 and m :: "('a disk, goerr, 'b) act" and f :: "'b \<Rightarrow> ('a disk, goerr, 'c) act"
    by (rule still_bind) (use that J stillD in blast)+
  have "J s" using assms(3,4) by (simp add: J_def)
  moreover have "\<And>s. J s \<Longrightarrow> still (addConfigtxOrgAndProfile H t) s" "\<And>s. J s \<Longrightarrow> still (addPeerComposeService H t) s"
    using a p by (simp_all add: J_def)
  ultimately show ?thesis unfolding provision_def
    by (intro seq still_crypto [OF H] still_pure still_block [OF H] still_join [OF H])
qed

text \<open>The test for an existing organisation is a search for its anchor, so an anchor that begins with
  the new one counts as present.\<close>

lemma anchor_prefix_collision:
  "contains content (''&OrgClient'' @ title @ x) \<Longrightarrow> add_org H t title content = returnE content"
proof -
  assume "contains content (''&OrgClient'' @ title @ x)"
  then obtain p q where "content = p @ (''&OrgClient'' @ title) @ (x @ q)"
    unfolding contains_iff_sublist sublist_def append.assoc by blast
  then have "contains content (''&OrgClient'' @ title)" by (simp only: contains_infix)
  then show ?thesis by (simp add: add_org_def)
qed

section \<open>Properties\<close>

text \<open>C39: Provisioning a tenant never loses configuration of another one. Whatever the tenant
  identifier and however the run ends, the shared files configtx.yaml and the compose file keep
  all of their text, in its order: the tool only inserts. The one exception is a write that
  fails, which is reported as such.\<close>

theorem provision_only_inserts:
  assumes "commands_keep_shared H" and "tenantprovision_main H args s = (r, s')"
  shows "(\<forall>p\<in>{configtx_path, compose_path}. \<forall>c. snd s p = Some c \<longrightarrow> (\<exists>c'. snd s' p = Some c' \<and> subseq c c'))
    \<or> (\<exists>path err. r = Inl (wrap (''FATAL writing '' @ path) err))"
proof -
  have "keeps_text (tenantprovision_main H args) s" unfolding tenantprovision_main_def
    by (intro keeps_bind keeps_provision assms(1) still_keeps [OF still_pure(3)])
  then show ?thesis using assms(2) by (simp add: keeps_text_def grown_def shared_def write_failed_def)
qed

text \<open>C40: Provisioning is idempotent on the shared files. Let tenant01's organisation block in
  configtx.yaml define the anchor \<open>&OrgClientTenant01\<close>, and let the tenant identifier have at least seven bytes
  and no hash sign, double quote or new line. After a successful run for that tenant the substitutions have
  put the tenant's anchor and profile into configtx.yaml and its service into the compose file, so a
  second run for the same tenant leaves both files as they are, however that run ends.\<close>

theorem provision_idempotent:
  assumes "commands_keep_shared H" and "titleTenant t = Inr title" and "plain_id t" and "tenant01_anchored s"
    and "tenantprovision_main H [prog, t] s = (Inr (), s1)" and "tenantprovision_main H [prog, t] s1 = (r, s2)"
  shows "(\<exists>c. snd s1 configtx_path = Some c \<and> contains c (''&OrgClient'' @ title) \<and> contains c (title @ ''ChannelGenesis:''))
    \<and> (\<exists>c. snd s1 compose_path = Some c \<and> contains c (''peer0.'' @ t @ '':'' @ nl))
    \<and> snd s2 configtx_path = snd s1 configtx_path \<and> snd s2 compose_path = snd s1 compose_path"
proof -
  have m: "tenantprovision_main H [prog, t] s = provision H t s" for s
    by (simp add: tenantprovision_main_def mustTenantID_def)
  from provision_result [OF assms(1-4)] assms(5) have there: "configured t title s1" "served t s1" by (auto simp: m)
  from stillD [OF provision_again [OF assms(1,2) there]] assms(6) there show ?thesis
    by (simp add: m same_sharedD configured_def served_def)
qed

section \<open>A small network, for the witnesses\<close>

definition sample_configtx :: string where
  "sample_configtx = ''  # --- OrgClient-tenant01:&OrgClientTenant01'' @ nl @ nl @ ''  # --- Org3:'' @ nl @ insert_marker"

definition sample_compose :: string where
  "sample_compose = ''  peer0.tenant01:'' @ nl @ ''x'' @ nl @ nl @ ''  # ='' @ nl @ ''  # Org3''"

definition sample_host :: "unit host" where
  "sample_host =
     \<lparr>Exec = \<lambda>args s. ((''tenant-tenant02'', None), s), WriteFault = \<lambda>p c w. None, Abs = Inr, Exists = \<lambda>p s. False\<rparr>"

definition sample_disk :: "unit disk" where
  "sample_disk = ((), [configtx_path \<mapsto> sample_configtx, compose_path \<mapsto> sample_compose])"

lemma sample_title: "titleTenant ''tenant02'' = Inr ''Tenant02''"
  by (simp add: titleTenant_def upper_byte_def)

lemma sample_keeps: "commands_keep_shared sample_host"
  by (simp add: commands_keep_shared_def sample_host_def)

lemma sample_org: "org_block sample_configtx = Some (''  # --- OrgClient-tenant01:&OrgClientTenant01'' @ nl @ nl @ ''  # --- Org3:'')"
  by code_simp

lemma sample_service: "service_block sample_compose = Some sample_compose"
  by code_simp

lemma sample_templates: "tenant01_anchored sample_disk" "plain_id ''tenant02''"
proof -
  have "contains (''  # --- OrgClient-tenant01:&OrgClientTenant01'' @ nl @ nl @ ''  # --- Org3:'') ''&OrgClientTenant01''"
    by code_simp
  then show "tenant01_anchored sample_disk" by (simp add: tenant01_anchored_def sample_disk_def sample_org)
qed (simp add: plain_id_def)

lemma sample_steps:
  "run sample_host st args s = (Inr ''tenant-tenant02'', s)"
  "writeFile sample_host p c s = (Inr (), (fst s, (snd s)(p \<mapsto> c)))"
  "mustAbs sample_host d s = (Inr d, s)"
  "join_peer sample_host b q s = (Inr (), s)"
  "Exists sample_host p s = False"
  by (simp_all add: run_def must_run_def writeFile_def mustAbs_def join_peer_def sample_host_def mapErr_def)

lemma sample_joins: "osn_joins sample_host c b ods s = (Inr (), s)" "peer_joins sample_host b ps s = (Inr (), s)"
  by (induction ods) (simp_all add: dockerExecTools_def bindE_def sample_steps,
      induction ps, simp_all add: bindE_def sample_steps)

definition sample_org_text :: string where
  "sample_org_text = ''  # --- OrgClient-tenant01:&OrgClientTenant01'' @ nl @ nl @ ''  # --- Org3:''"

definition sample_with_org :: string where
  "sample_with_org =
     replace_first sample_org_text (new_org_block ''tenant02'' ''Tenant02'' sample_org_text @ nl @ sample_org_text) sample_configtx"

lemma sample_config_facts:
  "contains sample_configtx (''&OrgClient'' @ ''Tenant02'') = False" "org_block sample_configtx = Some sample_org_text"
  "contains sample_with_org (''Tenant02'' @ ''ChannelGenesis:'') = False"
  "index_of sample_with_org insert_marker = Some (length sample_with_org - length insert_marker)"
  by code_simp+

lemma sample_compose_facts:
  "contains sample_compose (''peer0.'' @ ''tenant02'' @ '':'' @ nl) = False"
  by code_simp

lemma sample_configtx_step:
  assumes "snd s configtx_path = Some sample_configtx"
  shows "\<exists>x. addConfigtxOrgAndProfile sample_host ''tenant02'' s = (Inr (), (fst s, (snd s)(configtx_path \<mapsto> x)))"
proof -
  let ?s1 = "(fst s, (snd s)(configtx_path \<mapsto> sample_with_org))"
  have "add_org sample_host ''tenant02'' ''Tenant02'' sample_configtx s = (Inr sample_with_org, ?s1)"
    by (simp only: add_org_def sample_config_facts if_False option.case Let_def bindE_def sample_steps prod.case sum.case
        act_simps sample_with_org_def [symmetric])
  moreover have "\<exists>x. add_profile sample_host ''tenant02'' ''Tenant02'' sample_with_org ?s1
      = (Inr (), (fst s, (snd s)(configtx_path \<mapsto> x)))"
    by (simp add: add_profile_def sample_config_facts [simplified] bindE_def readFile_def sample_steps) (rule exI, rule refl)
  ultimately show ?thesis
    using assms by (simp add: addConfigtxOrgAndProfile_def bindE_def readFile_def sample_title)
qed

lemma sample_compose_step:
  assumes "snd s compose_path = Some sample_compose"
  shows "\<exists>x. addPeerComposeService sample_host ''tenant02'' s = (Inr (), (fst s, (snd s)(compose_path \<mapsto> x)))"
  using assms sample_compose_facts
  by (simp add: addPeerComposeService_def bindE_def readFile_def Let_def sample_service sample_steps) (rule exI, rule refl)

lemma sample_run: "\<exists>s'. tenantprovision_main sample_host [''tenantprovision'', ''tenant02''] sample_disk = (Inr (), s')"
proof -
  let ?H = sample_host and ?t = "''tenant02''"
  define s1 where "s1 = (fst sample_disk, (snd sample_disk)(fragment_path ?t \<mapsto> crypto_fragment ?t))"
  have g: "genCryptoMaterial ?H ?t sample_disk = (Inr (), s1)"
    by (simp only: genCryptoMaterial_def sample_steps if_False bindE_def prod.case sum.case act_simps s1_def)
  have s1: "snd s1 configtx_path = Some sample_configtx" "snd s1 compose_path = Some sample_compose"
    using fragment_not_shared [of ?t] by (auto simp: s1_def sample_disk_def shared_def)
  obtain s2 where a: "addConfigtxOrgAndProfile ?H ?t s1 = (Inr (), s2)" "snd s2 compose_path = Some sample_compose"
    using sample_configtx_step [OF s1(1)] s1(2) by fastforce
  have b: "genChannelBlock ?H ?t n s = (Inr (), s)" for n s
    by (simp add: genChannelBlock_def Let_def bindE_def sample_steps)
  obtain s3 where p: "addPeerComposeService ?H ?t s2 = (Inr (), s3)" using sample_compose_step [OF a(2)] by blast
  have "contains ''tenant-tenant02'' (''tenant-'' @ ?t)" by code_simp
  then have j: "joinNewChannel ?H ?t s = (Inr (), s)" for s
    by (simp add: joinNewChannel_def Let_def bindE_def sample_joins dockerExecTools_def sample_steps)
  have "tenantprovision_main ?H [''tenantprovision'', ?t] sample_disk = (Inr (), s3)"
    by (simp add: tenantprovision_main_def mustTenantID_def provision_def bindE_def g a(1) sample_title b p j)
  then show ?thesis by blast
qed

theorem provision_only_inserts_witness:
  "\<exists>s' c'. tenantprovision_main sample_host [''tenantprovision'', ''tenant02''] sample_disk = (Inr (), s')
     \<and> snd s' configtx_path = Some c' \<and> subseq sample_configtx c'"
proof -
  obtain s' where r: "tenantprovision_main sample_host [''tenantprovision'', ''tenant02''] sample_disk = (Inr (), s')"
    using sample_run by blast
  have "snd sample_disk configtx_path = Some sample_configtx" by (simp add: sample_disk_def)
  with provision_only_inserts [OF sample_keeps r] r show ?thesis by auto
qed

theorem provision_idempotent_witness:
  "\<exists>s1 r s2. tenantprovision_main sample_host [''tenantprovision'', ''tenant02''] sample_disk = (Inr (), s1)
     \<and> tenantprovision_main sample_host [''tenantprovision'', ''tenant02''] s1 = (r, s2)
     \<and> snd s2 compose_path = snd s1 compose_path"
proof -
  obtain s1 where r: "tenantprovision_main sample_host [''tenantprovision'', ''tenant02''] sample_disk = (Inr (), s1)"
    using sample_run by blast
  obtain q s2 where r2: "tenantprovision_main sample_host [''tenantprovision'', ''tenant02''] s1 = (q, s2)" by (metis surj_pair)
  from provision_idempotent [OF sample_keeps sample_title sample_templates(2,1) r r2] r r2 show ?thesis by blast
qed

end
