(* ===== verification/Spec2Isabelle.thy ===== *)
theory Spec2Isabelle
  imports Handoff Fullstack Erasure Conformance Pilreport Ccmain Netjoin Ccdeploy Raftfault Jcsverify Tenantprovision
begin

text \<open>
  A verification development of the fabric-hris repository: a human-resources ledger on
  Hyperledger Fabric. Personal data stays in an operational store; for every change of a profile
  section a salted digest is anchored on the ledger under a pseudonym, and anybody who holds the
  value and the salt can check it later. Deleting key and salts makes the digests meaningless.

  \<^bold>\<open>The parts and how they interact.\<close> An HTTP request reaches the bridge (src/integration-bridge), which
  authenticates and validates it and calls a write hook (src/write-path-integration/writepaths). The
  hook saves the value, resolves the employee's key, draws a salt (keystore), computes the digest
  (gateway-client/digestbuilder.go), encrypts and pins a supporting document (ipfsclient) and submits
  the digest with the gateway client, which retries on the two expected rejections. The chaincode
  (src/fabric-network/chaincode/employeeprofilerecord) keeps one hash chain per pseudonym and section.
  The history and verify routes of the bridge read the ledger back. The tools under
  src/fabric-network/tools set the network up, deploy the chaincode, test the ordering service and the
  canonicalization library, provision tenants, and scan the ledger for leaked plain text.

  \<^bold>\<open>Library theories.\<close> Prelude holds the actions with errors (\<open>act\<close>, \<open>bindE\<close>, \<open>mapErr\<close>, \<open>on_part\<close>, the frame
  predicate \<open>keeps\<close>), \<open>wrap64\<close> for Go's 64-bit \<open>int\<close>, substring search and hexadecimal digits.
  Go_Strings, Go_Errors, Go_Json, Go_Decode, Go_Time and Go_Crypto model what the sources use of the Go
  standard library: UTF-8, \<open>strings\<close>, \<open>errors.Is\<close> and \<open>errors.As\<close> over wrapped errors, \<open>encoding/json\<close> with a
  printer, a parser and the round trip between them, civil time, SHA-256, HMAC, AES and GCM over words.

  \<^bold>\<open>Chaincode\<close> models chaincode/*.go: \<open>RecordProfileSection\<close>, the three queries, the identity checks and
  the error values, over a record \<open>stub\<close> of the calls the contract makes. \<^bold>\<open>Ledger\<close> adds sequences of
  transactions: the locale \<open>peer\<close> states what the contract relies on, \<open>chain_ok\<close> is the abstract chain and
  a submission is shown to refine it; from this follow the hash chain, append-only histories and the
  order of the history query. The locale is interpreted on a world of committed values.

  \<^bold>\<open>Digest\<close>, \<^bold>\<open>Gateway\<close>, \<^bold>\<open>Keystore\<close>, \<^bold>\<open>Filestore\<close>, \<^bold>\<open>Handoff\<close>, \<^bold>\<open>Ipfs\<close> and \<^bold>\<open>Writepaths\<close> model the packages of
  src/write-path-integration. The key and salt stores share the interfaces \<open>key_store\<close> and
  \<open>salt_store\<close>, interpreted on the in-memory stores and on the encrypted files, whose sealed content is
  shown to refine a map. \<open>hooks_env\<close> is the interface of the hooks to their stores; the lemmas about
  anchoring and erasure are proved once in it and used for the in-memory and for the wired hooks.
  Writing a file may fail at any step, as the fault schedule of the disk says. Where a component calls
  ports of any kind, its property holds for every choice of them and speaks of the calls that are made: \<open>observed\<close>
  writes down the hooks' submissions and alerts, \<open>watched\<close> the calls of a salt release, and \<open>salt_run\<close> is any
  sequence of operations on a salt store.

  \<^bold>\<open>Pipeline\<close> models internal/pipeline (authentication, validation, dispatch, classification, the history
  and verify routes); \<^bold>\<open>Bridge\<close> models cmd/integrationbridge (configuration, wiring, route table,
  start-up and shutdown) and interprets \<open>hooks_env\<close> on the hooks as \<open>buildHooks\<close> wires them.

  \<^bold>\<open>Endtoend\<close> composes bridge, gateway client and chaincode. The Fabric network between them is the locale
  \<open>chain_network\<close>, in which other clients may submit at any time, and \<open>responsive_network\<close> for a
  network nobody else uses; both are interpreted on a contract handle that runs the chaincode model. A
  write that reports success is on the chain and verifies, and an undisturbed write is accepted at the
  first attempt. \<^bold>\<open>Fullstack\<close> adds the HTTP request and the route table in front and, in the locale
  \<open>answering_network\<close>, the contract's printed answer: a caller who reads \<open>committed\<close> has the value of its request
  anchored in the record the answer names. \<^bold>\<open>Divergence\<close> shows two situations in which salts are filed
  under another version than the ledger's: a lost write makes the next one look forged, and a
  second record of a section cannot be verified. \<^bold>\<open>Erasure\<close> follows an erasure on the encrypted files through
  every outcome: a failed one can be repeated, a successful one leaves nothing to verify with, and a later verify
  request of the employee draws a new key and finds no record. \<^bold>\<open>Conformance\<close> takes the calls that runs of the
  hooks submit and shows that all they can put on the ledger are records of the ratified format, which
  the chaincode itself does not check and the scanner expects.

  \<^bold>\<open>Ccmain\<close> models the start of the chaincode process. \<^bold>\<open>Pilscan\<close> models tools/pilscan (both passes over every
  block and the verdict), \<^bold>\<open>Pilreport\<close> its report, its exit status and the commands it runs. \<^bold>\<open>Nettools\<close> holds what the
  other tools share: a command runner as a parameter, the journal of its commands (\<open>logged\<close>) and of
  their answers (\<open>answered\<close>), the predicate \<open>runs_only\<close>, and plans (\<open>obeys\<close>), in which a command is issued only when the
  one before it was answered as it must. Nothing is assumed about what the Fabric binaries do. \<^bold>\<open>Netjoin\<close>, \<^bold>\<open>Ccdeploy\<close>, \<^bold>\<open>Raftfault\<close>, \<^bold>\<open>Jcsverify\<close> and \<^bold>\<open>Tenantprovision\<close> model the
  tool of that name, with every command line as the source writes it. The present theory relates the
  deployment tool to the scanner.

  \<^bold>\<open>Bounds and fuel.\<close> Versions are 64-bit and wrap; orderings of versions are stated below 2^63. The scanner's block
  numbers and counters are natural numbers: channels of 2^63 blocks and more are not described. Submissions to the
  ledger have valid UTF-8 in their arguments, which the chaincode does not check and a record needs to be read back. The JSON parser has
  fuel: twice the length of its input, which \<open>parse_print\<close> shows to be enough for every printed value. The submit loop recurses on
  the number of retries that are left. The remaining recursions are structural or have a measure. The
  hash functions and ciphers are executable but are never evaluated in a proof.

  \<^bold>\<open>Parameters.\<close> Code outside the repository is an argument: the peer's stub, the contract handle,
  dialling and certificates, the canonicalizer, HTTP exchanges, protobuf decoders, \<open>docker\<close> and the
  commands it runs, the clock and the random source. What a theorem needs of them is one of its
  assumptions and is shown to be satisfiable by its witness.

  \<^bold>\<open>Not modelled.\<close> Printed progress (with the truncated output of jcsverify), pauses between commands,
  mutexes (every operation of a store is one step), and context cancellation except for the deadline test
  of dispatch. \<open>withBridgeCtx\<close> and \<open>bridgeCtxFrom\<close> of the pipeline attach a request record to a context that
  only a test reads back. Files of the provisioning tool are named by the text of their path, so two texts for one file
  are two files. \<open>main\<close> of the bridge logs the error of \<open>run\<close> and exits. The scripts,
  documents and dashboards of the repository are no part of the program.
\<close>

section \<open>The deployment tool and the scanner\<close>

lemma smoke_test_arguments_found:
  "Findings (checkArgs n ''RecordProfileSection'' Ccdeploy.smoke_args st) \<noteq> Findings st"
proof -
  have "10 \<le> length Ccdeploy.smoke_args" and "Ccdeploy.smoke_args ! 1 = Ccdeploy.smoke_employee"
    by (simp_all add: Ccdeploy.smoke_args_def)
  moreover have "\<not> hex64Re Ccdeploy.smoke_employee" by (simp add: hex64Re_def Ccdeploy.smoke_employee_def)
  ultimately show ?thesis using quiet_checkArgs [of Ccdeploy.smoke_args n st] by (simp add: quiet_def)
qed

lemma nonempty_after: "grows f \<Longrightarrow> Findings s \<noteq> [] \<Longrightarrow> Findings (f s) \<noteq> []"
  using grows_clean by blast

lemma fold_finds:
  assumes "\<And>y. grows (f y)" and "x \<in> set xs" and "\<And>s. Findings (f x s) \<noteq> []"
  shows "Findings (fold f xs s) \<noteq> []"
proof -
  from assms(2) obtain ys zs where "xs = ys @ x # zs" by (meson split_list)
  then have "fold f xs s = fold f zs (f x (fold f ys s))" by simp
  moreover have "grows (fold f zs)" by (rule grows_fold) (rule assms(1))
  ultimately show ?thesis using assms(3) [of "fold f ys s"] nonempty_after [of "fold f zs"] by simp
qed

lemma checkArgs_smoke: "Findings (checkArgs n ''RecordProfileSection'' Ccdeploy.smoke_args st) \<noteq> []"
proof
  assume e: "Findings (checkArgs n ''RecordProfileSection'' Ccdeploy.smoke_args st) = []"
  with grows_clean [OF grows_checkArgs e] smoke_test_arguments_found [of n st] show False by simp
qed

text \<open>The call as it stands in an action, an envelope and a block.\<close>

definition carries_call :: "protos \<Rightarrow> string list \<Rightarrow> string \<Rightarrow> bool" where
  "carries_call P args action \<longleftrightarrow>
     (\<exists>cpp prp input. u_ChaincodeActionPayload P action = Some (cpp, prp)
        \<and> u_ChaincodeProposalPayload P cpp = Some input \<and> u_ChaincodeInvocationSpec P input = Some args)"

definition block_carries :: "protos \<Rightarrow> string list \<Rightarrow> string \<Rightarrow> bool" where
  "block_carries P args raw \<longleftrightarrow>
     (\<exists>n es env payload chdr data actions action. u_Block P raw = Inr (n, es) \<and> env \<in> set es
        \<and> u_Envelope P env = Some payload \<and> u_Payload P payload = Some (chdr, data)
        \<and> u_ChannelHeader P chdr = Some ENDORSER_TRANSACTION \<and> u_Transaction P data = Some actions
        \<and> action \<in> set actions \<and> carries_call P args action)"

lemma smoke_action_found:
  assumes "carries_call P (''RecordProfileSection'' # Ccdeploy.smoke_args) action"
  shows "Findings (check_action P F n action st) \<noteq> []"
proof -
  from assms obtain cpp prp input where u: "u_ChaincodeActionPayload P action = Some (cpp, prp)"
    "u_ChaincodeProposalPayload P cpp = Some input"
    "u_ChaincodeInvocationSpec P input = Some (''RecordProfileSection'' # Ccdeploy.smoke_args)"
    unfolding carries_call_def by (elim exE conjE) (rule that; assumption)
  have a: "Findings (check_arguments P n cpp st) \<noteq> []"
    by (simp only: check_arguments_def u option.case list.case checkArgs_smoke not_False_eq_True)
  have "grows (\<lambda>s. case u_ProposalResponsePayload P prp of None \<Rightarrow> s
      | Some extension \<Rightarrow> (case u_ChaincodeAction P extension of None \<Rightarrow> s
         | Some (results, events) \<Rightarrow> check_event P F n events (check_results P F n results s)))"
    by (intro growsI) (simp add: check_results_def check_event_def Let_def grows_trans grows_check_namespaces
        grows_report_fixture grows_checkRecordJSON split: option.splits)
  from nonempty_after [OF this a] show ?thesis by (simp only: check_action_def u option.case prod.case Let_def simp_thms)
qed

lemma smoke_block_found:
  assumes "block_carries P (''RecordProfileSection'' # Ccdeploy.smoke_args) raw"
  shows "\<exists>st'. parseBlock P F raw st = (None, st') \<and> Findings st' \<noteq> []"
proof -
  from assms obtain n es env payload chdr data actions action where u: "u_Block P raw = Inr (n, es)" "env \<in> set es"
    "u_Envelope P env = Some payload" "u_Payload P payload = Some (chdr, data)"
    "u_ChannelHeader P chdr = Some ENDORSER_TRANSACTION" "u_Transaction P data = Some actions" "action \<in> set actions"
    and c: "carries_call P (''RecordProfileSection'' # Ccdeploy.smoke_args) action"
    unfolding block_carries_def by (elim exE conjE) (rule that; assumption)
  have "Findings (fold (check_action P F n) actions s) \<noteq> []" for s
    by (rule fold_finds [OF grows_check_action u(7)]) (rule smoke_action_found [OF c])
  then have "Findings (check_envelope P F n env s) \<noteq> []" for s
    by (simp only: check_envelope_def u option.case prod.case Let_def simp_thms if_False)
  then have "Findings (fold (check_envelope P F n) es s) \<noteq> []" for s
    by (rule fold_finds [OF grows_check_envelope u(2)])
  then show ?thesis by (simp only: parseBlock_view u sum.case prod.case) blast
qed

text \<open>C37: A ledger on which the deployment tool has run its smoke test never passes the
  confidentiality scan. Whatever else the ledger holds, as soon as a block of the channel
  \<open>tenant-tenant01\<close> carries the smoke-test call, the verdict of the scanner is failure, because the
  identifiers of that call do not have the shape of pseudonyms.\<close>

theorem deployed_ledger_fails_scan:
  assumes "\<And>w. fst (fetchBlock D ''tenant-tenant01'' (nat_digits k) w) = Inr raw"
    and "\<And>w b. fst (fetchBlock D ''tenant-tenant01'' ''newest'' w) = Inr b \<Longrightarrow> \<exists>h es. u_Block P b = Inr (h, es) \<and> k \<le> h"
    and "block_carries P (''RecordProfileSection'' # Ccdeploy.smoke_args) raw"
  shows "\<not> snd (fst (pilscan_main P ParseFloat D w))"
proof
  assume pass: "snd (fst (pilscan_main P ParseFloat D w))"
  obtain a b w' where main: "pilscan_main P ParseFloat D w = ((a, b), w')" by (metis surj_pair)
  with pass have all: "scan_all P ParseFloat D channels [] True w = ((a, True), w')" by (simp add: pilscan_main_def)
  have "''tenant-tenant01'' \<in> set channels" by (simp add: channels_def)
  with scan_all_clean [OF all] have "clean_channel P ParseFloat D ''tenant-tenant01''" by metis
  then obtain newest es w1 w2 raws where n: "fetchBlock D ''tenant-tenant01'' ''newest'' w1 = (Inr newest, w2)"
    "u_Block P newest = Inr (length raws - 1, es)" "raws \<noteq> []"
    and c: "\<forall>i<length raws. clean_block P ParseFloat D ''tenant-tenant01'' i (raws ! i)"
    unfolding clean_channel_def by (elim exE conjE) (rule that; assumption)
  from assms(2) [of w1 newest] n(1,2) have "k \<le> length raws - 1" by simp
  with n(3) have "k < length raws" by (cases raws) auto
  with c have cb: "clean_block P ParseFloat D ''tenant-tenant01'' k (raws ! k)" by blast
  then have "raws ! k = raw" unfolding clean_block_def by (metis assms(1) fst_conv sum.inject(2))
  with cb obtain st st' where "parseBlock P ParseFloat raw st = (None, st')" "Findings st' = []"
    unfolding clean_block_def by blast
  with smoke_block_found [OF assms(3), of ParseFloat st] show False by simp
qed

text \<open>A ledger whose block 0 is the smoke test, for the witness.\<close>

definition smoke_protos :: protos where
  "smoke_protos =
     \<lparr>u_Block = \<lambda>_. Inr (0, [[]]), u_Envelope = Some, u_Payload = \<lambda>b. Some (b, b),
      u_ChannelHeader = \<lambda>_. Some ENDORSER_TRANSACTION, u_Transaction = \<lambda>_. Some [[]],
      u_ChaincodeActionPayload = \<lambda>b. Some (b, b), u_ChaincodeProposalPayload = Some,
      u_ChaincodeInvocationSpec = \<lambda>_. Some (''RecordProfileSection'' # Ccdeploy.smoke_args),
      u_ProposalResponsePayload = \<lambda>_. None, u_ChaincodeAction = \<lambda>_. None, u_TxReadWriteSet = \<lambda>_. None,
      u_KVRWSet = \<lambda>_. None, u_ChaincodeEvent = \<lambda>_. None\<rparr>"

theorem deployed_ledger_fails_scan_witness:
  "\<not> snd (fst (pilscan_main smoke_protos (\<lambda>_. True) genesis_docker 0))"
proof (rule deployed_ledger_fails_scan)
  show "fst (fetchBlock genesis_docker ''tenant-tenant01'' (nat_digits 0) w) = Inr ''g0''" for w
    by (simp only: genesis_fetch fst_conv)
  show "\<exists>h es. u_Block smoke_protos b = Inr (h, es) \<and> 0 \<le> h" for b by (simp add: smoke_protos_def)
  show "block_carries smoke_protos (''RecordProfileSection'' # Ccdeploy.smoke_args) ''g0''"
    by (simp add: block_carries_def carries_call_def smoke_protos_def)
qed

end
